theory Spec2Isabelle
  imports Complex_Main "HOL-Library.AList" "HOL-Library.Char_ord" "HOL-Library.List_Lexorder"
begin

section \<open>Python values, dictionaries and exceptions\<close>

text \<open>
  Strings are lists of 8-bit characters. A Python dictionary with string keys is an
  association list with unique keys in insertion order: \<open>map_of\<close> reads a key and
  \<open>AList.update\<close> assigns one (in place when the key exists, appended otherwise).
  An exception is a value of \<open>py_error\<close> on the left of a sum.

  Python numbers (\<open>int\<close> and \<open>float\<close>) are kept abstract as a type \<open>'n\<close>; what the code
  does with them (multiplying by a float literal, comparing with one) is taken from a
  record of primitives, so that nothing is assumed about floating-point rounding.

  The string methods whose result depends on the Unicode character database
  (\<open>strip\<close>, \<open>lower\<close>, \<open>title\<close>, \<open>isdigit\<close>) are taken from a record in the same way, so
  that nothing is assumed about which characters are white space, letters or digits.
  Splitting, joining, \<open>in\<close> and \<open>==\<close> compare characters and are defined below.
\<close>

datatype py_error =
  KeyError | TypeError | AttributeError | IndexError | ValueError | OverflowError
  | ZeroDivisionError | ConnectionError | HTTPError | JSONDecodeError

record pystr =
  strip :: "string \<Rightarrow> string"  \<comment> \<open>\<open>s.strip()\<close>\<close>
  lower :: "string \<Rightarrow> string"  \<comment> \<open>\<open>s.lower()\<close>\<close>
  title :: "string \<Rightarrow> string"  \<comment> \<open>\<open>s.title()\<close>\<close>
  isdigit :: "char \<Rightarrow> bool"  \<comment> \<open>\<open>c.isdigit()\<close> for a character \<open>c\<close>\<close>

datatype 'n json =
  JNull | JBool bool | JNum 'n | JStr string | JList "'n json list"
  | JDict "(string \<times> 'n json) list"

type_synonym 'n pydict = "(string \<times> 'n json) list"

record 'n pynum =
  py_mul :: "'n \<Rightarrow> 'n \<Rightarrow> 'n option"  \<comment> \<open>\<open>x * y\<close>; \<open>None\<close> when Python raises OverflowError\<close>
  py_lt :: "'n \<Rightarrow> 'n \<Rightarrow> bool"  \<comment> \<open>\<open>x < y\<close>\<close>
  py_of_bool :: "bool \<Rightarrow> 'n"  \<comment> \<open>\<open>True\<close> and \<open>False\<close> as the numbers 1 and 0\<close>
  py_nonzero :: "'n \<Rightarrow> bool"  \<comment> \<open>truth value of a number\<close>
  lit_0_0 :: 'n  \<comment> \<open>the literal \<open>0.0\<close>\<close>
  lit_0_7 :: 'n  \<comment> \<open>the literal \<open>0.7\<close>\<close>
  lit_0_8 :: 'n  \<comment> \<open>the literal \<open>0.8\<close>\<close>
  lit_0_9 :: 'n  \<comment> \<open>the literal \<open>0.9\<close>\<close>

text \<open>\<open>d.get(k)\<close>: the value, or Python's \<open>None\<close> when the key is absent.\<close>

definition dict_get_or_none :: "'n pydict \<Rightarrow> string \<Rightarrow> 'n json" where
  "dict_get_or_none d k = (case map_of d k of None \<Rightarrow> JNull | Some v \<Rightarrow> v)"

text \<open>\<open>item == "literal"\<close>: a JSON value equals a string only when it is that string.\<close>

fun py_eq_str :: "'n json \<Rightarrow> string \<Rightarrow> bool" where
  "py_eq_str (JStr s) t = (s = t)"
| "py_eq_str _ t = False"

text \<open>\<open>item in labels\<close> for a list of strings: some element compares equal.\<close>

definition py_in :: "'n json \<Rightarrow> string list \<Rightarrow> bool" where
  "py_in item labels = list_ex (py_eq_str item) labels"

text \<open>Truth value of a JSON value, as in \<open>val if val else ...\<close>.\<close>

fun py_truth :: "'n pynum \<Rightarrow> 'n json \<Rightarrow> bool" where
  "py_truth ops JNull = False"
| "py_truth ops (JBool b) = b"
| "py_truth ops (JNum x) = py_nonzero ops x"
| "py_truth ops (JStr s) = (s \<noteq> [])"
| "py_truth ops (JList xs) = (xs \<noteq> [])"
| "py_truth ops (JDict d) = (d \<noteq> [])"

text \<open>\<open>v * f\<close> for a float \<open>f\<close>: numbers and booleans multiply, everything else raises.\<close>

fun py_times :: "'n pynum \<Rightarrow> 'n json \<Rightarrow> 'n \<Rightarrow> py_error + 'n json" where
  "py_times ops (JNum x) f =
     (case py_mul ops x f of None \<Rightarrow> Inl OverflowError | Some y \<Rightarrow> Inr (JNum y))"
| "py_times ops (JBool b) f =
     (case py_mul ops (py_of_bool ops b) f of None \<Rightarrow> Inl OverflowError
      | Some y \<Rightarrow> Inr (JNum y))"
| "py_times ops _ f = Inl TypeError"

text \<open>\<open>v[key]\<close> with a string key, and \<open>v[0]\<close>.\<close>

fun getitem_key :: "'n json \<Rightarrow> string \<Rightarrow> py_error + 'n json" where
  "getitem_key (JDict d) k = (case map_of d k of None \<Rightarrow> Inl KeyError | Some v \<Rightarrow> Inr v)"
| "getitem_key _ k = Inl TypeError"

fun getitem_0 :: "'n json \<Rightarrow> py_error + 'n json" where
  "getitem_0 (JList []) = Inl IndexError"
| "getitem_0 (JList (x # xs)) = Inr x"
| "getitem_0 (JStr []) = Inl IndexError"
| "getitem_0 (JStr (c # cs)) = Inr (JStr [c])"
| "getitem_0 (JDict d) = Inl KeyError"
| "getitem_0 _ = Inl TypeError"

text \<open>\<open>v[:3]\<close>, iterated.\<close>

fun slice3 :: "'n json \<Rightarrow> py_error + 'n json list" where
  "slice3 (JList xs) = Inr (take 3 xs)"
| "slice3 (JStr s) = Inr (map (\<lambda>c. JStr [c]) (take 3 s))"
| "slice3 _ = Inl TypeError"

text \<open>\<open>str(n)\<close> for a natural number: its decimal digits.\<close>

definition digit_char :: "nat \<Rightarrow> char" where
  "digit_char n = ''0123456789'' ! n"

function str_nat :: "nat \<Rightarrow> string" where
  "str_nat n = (if n < 10 then [digit_char n] else str_nat (n div 10) @ [digit_char (n mod 10)])"
  by pat_completeness auto
termination
  by (relation "measure (\<lambda>n. n)") auto

declare str_nat.simps [simp del]

text \<open>\<open>sep.join(xs)\<close>.\<close>

fun join :: "string \<Rightarrow> string list \<Rightarrow> string" where
  "join sep [] = []"
| "join sep [x] = x"
| "join sep (x # y # ys) = x @ sep @ join sep (y # ys)"

text \<open>
  \<open>s.split(sep, 1)\<close> for a non-empty separator: the text before and after its first
  occurrence, or \<open>None\<close> when \<open>sep\<close> does not occur (Python then returns \<open>[s]\<close>).
  \<open>sep in s\<close> holds exactly when the result is not \<open>None\<close>.
\<close>

fun split_once :: "string \<Rightarrow> string \<Rightarrow> (string \<times> string) option" where
  "split_once sep [] = None"
| "split_once sep (c # cs) =
     (if take (length sep) (c # cs) = sep then Some ([], drop (length sep) (c # cs))
      else map_option (\<lambda>(a, b). (c # a, b)) (split_once sep cs))"


section \<open>The taxonomy-constrained tagger (\<open>axion_ray_task_1.py\<close>)\<close>

text \<open>
  The taxonomy maps an axis name (\<open>"Root Cause"\<close>, \<open>"Symptom Condition"\<close>, ...) to its
  list of allowed labels, which are strings.
\<close>

type_synonym taxonomy = "string \<Rightarrow> string list"

definition create_llm_prompt :: "string \<Rightarrow> string \<Rightarrow> string \<Rightarrow> taxonomy \<Rightarrow> string" where
  \<open>create_llm_prompt complaint cause correction taxonomy =
    (let taxonomy_str = join ''\<newline>''
       [ ''Root Cause options: '' @ join '', '' (taxonomy ''Root Cause''),
         ''Symptom Condition options: '' @ join '', '' (taxonomy ''Symptom Condition''),
         ''Symptom Component options: '' @ join '', '' (taxonomy ''Symptom Component''),
         ''Fix Condition options: '' @ join '', '' (taxonomy ''Fix Condition''),
         ''Fix Component options: '' @ join '', '' (taxonomy ''Fix Component'') ]
     in ''You are an expert in industrial maintenance classification.\<newline>''
      @ ''\<newline>''
      @ ''ANALYZE THE FOLLOWING MAINTENANCE RECORD:\<newline>''
      @ ''Complaint: '' @ complaint @ ''\<newline>''
      @ ''Cause: '' @ cause @ ''\<newline>''
      @ ''Correction: '' @ correction @ ''\<newline>''
      @ ''\<newline>''
      @ ''CLASSIFY USING ONLY THESE PREDEFINED CATEGORIES:\<newline>''
      @ taxonomy_str @ ''\<newline>''
      @ ''\<newline>''
      @ ''CLASSIFICATION RULES:\<newline>''
      @ ''1. Extract Root Cause from the Cause field\<newline>''
      @ ''2. Extract Symptom Conditions (up to 3) from Complaint field\<newline>''
      @ ''3. Extract Symptom Components (up to 3) from Complaint field\<newline>''
      @ ''4. Extract Fix Conditions (up to 3) from Correction field\<newline>''
      @ ''5. Extract Fix Components (up to 3) from Correction field\<newline>''
      @ ''6. Use "Not Mentioned" if nothing matches\<newline>''
      @ ''7. Use ONLY terms from the provided options\<newline>''
      @ ''8. At least ONE Symptom Condition, ONE Symptom Component, ONE Fix Condition, and ONE Fix Component must be identified if possible\<newline>''
      @ ''\<newline>''
      @ ''RETURN JSON FORMAT:\<newline>''
      @ ''{\<newline>''
      @ ''  "root_cause": "one option from Root Cause list",\<newline>''
      @ ''  "symptom_condition": ["option1", "option2", "option3"],\<newline>''
      @ ''  "symptom_component": ["option1", "option2", "option3"],\<newline>''
      @ ''  "fix_condition": ["option1", "option2", "option3"],\<newline>''
      @ ''  "fix_component": ["option1", "option2", "option3"],\<newline>''
      @ ''  "confidence": 0.95\<newline>''
      @ ''}\<newline>'')\<close>

text \<open>
  What the HTTP library does with one request: \<open>requests.post\<close> raises (network error),
  \<open>raise_for_status\<close> raises (error status), \<open>response.json()\<close> raises (the body is not
  JSON), or \<open>response.json()\<close> returns a JSON value. The service is a function from
  the prompt to one of these; \<open>json.loads\<close> is a function \<open>loads\<close> from text to a JSON
  value, \<open>None\<close> when it raises.
\<close>

datatype 'n http_response = PostRaises | StatusRaises | BodyRaises | Body "'n json"

text \<open>
  The fallback dictionary, written twice in the source (in \<open>call_llm_api\<close> and in
  \<open>process_row\<close>).
\<close>

definition default_result :: "'n pynum \<Rightarrow> 'n pydict" where
  "default_result ops =
    [ (''root_cause'', JStr ''Not Mentioned''),
      (''symptom_condition'', JList [JStr ''Not Mentioned'', JStr [], JStr []]),
      (''symptom_component'', JList [JStr ''Not Mentioned'', JStr [], JStr []]),
      (''fix_condition'', JList [JStr ''Not Mentioned'', JStr [], JStr []]),
      (''fix_component'', JList [JStr ''Not Mentioned'', JStr [], JStr []]),
      (''confidence'', JNum (lit_0_0 ops)) ]"

text \<open>The extraction of the JSON text from the message content (a string).\<close>

definition extract_json_str :: "pystr \<Rightarrow> string \<Rightarrow> string" where
  \<open>extract_json_str sm content =
    (case split_once ''```json'' content of
       None \<Rightarrow> content
     | Some (before, rest) \<Rightarrow>
         (case split_once ''```'' rest of
            None \<Rightarrow> content
          | Some (inner, after) \<Rightarrow> strip sm inner))\<close>

text \<open>
  The body of the \<open>try\<close> block of \<open>call_llm_api\<close>. A content that is not a string
  raises in every case (slicing \<open>None\<close>, a number or a dictionary; \<open>split\<close> on a list;
  \<open>json.loads\<close> of a list): the model gives TypeError for all of them, since the
  handler does not look at the exception.
\<close>

text \<open>\<open>response.json()["choices"][0]["message"]["content"]\<close>.\<close>

definition message_content :: "'n json \<Rightarrow> py_error + 'n json" where
  "message_content envelope =
    (case getitem_key envelope ''choices'' of Inl e \<Rightarrow> Inl e | Inr choices \<Rightarrow>
     case getitem_0 choices of Inl e \<Rightarrow> Inl e | Inr choice \<Rightarrow>
     case getitem_key choice ''message'' of Inl e \<Rightarrow> Inl e | Inr message \<Rightarrow>
     getitem_key message ''content'')"

definition call_llm_api_try ::
  "pystr \<Rightarrow> (string \<Rightarrow> 'n json option) \<Rightarrow> (string \<Rightarrow> 'n http_response) \<Rightarrow> string
    \<Rightarrow> py_error + 'n json" where
  "call_llm_api_try sm loads post prompt =
    (case post prompt of
       PostRaises \<Rightarrow> Inl ConnectionError
     | StatusRaises \<Rightarrow> Inl HTTPError
     | BodyRaises \<Rightarrow> Inl JSONDecodeError
     | Body envelope \<Rightarrow>
         (case message_content envelope of
            Inl e \<Rightarrow> Inl e
          | Inr (JStr s) \<Rightarrow>
              (case loads (extract_json_str sm s) of
                 None \<Rightarrow> Inl JSONDecodeError
               | Some result \<Rightarrow> Inr result)
          | Inr _ \<Rightarrow> Inl TypeError))"

definition call_llm_api ::
  "pystr \<Rightarrow> 'n pynum \<Rightarrow> (string \<Rightarrow> 'n json option) \<Rightarrow> (string \<Rightarrow> 'n http_response)
    \<Rightarrow> string \<Rightarrow> 'n json" where
  "call_llm_api sm ops loads post prompt =
    (case call_llm_api_try sm loads post prompt of
       Inr result \<Rightarrow> result
     | Inl e \<Rightarrow> JDict (default_result ops))"

text \<open>\<open>validated["confidence"] *= f\<close>.\<close>

definition scale_confidence :: "'n pynum \<Rightarrow> 'n \<Rightarrow> 'n pydict \<Rightarrow> py_error + 'n pydict" where
  "scale_confidence ops f validated =
    (case map_of validated ''confidence'' of
       None \<Rightarrow> Inl KeyError
     | Some c \<Rightarrow>
         (case py_times ops c f of
            Inl e \<Rightarrow> Inl e
          | Inr c' \<Rightarrow> Inr (AList.update ''confidence'' c' validated)))"

text \<open>The test of the inner loop: the item is kept as it is.\<close>

definition item_ok :: "string list \<Rightarrow> 'n json \<Rightarrow> bool" where
  "item_ok labels item =
    (py_in item labels \<or> py_eq_str item ''Not Mentioned'' \<or> py_eq_str item [])"

text \<open>The inner \<open>for item in validated[field_key]\<close> loop, with \<open>valid_list\<close> and the
  dictionary as its state.\<close>

fun validate_items ::
  "'n pynum \<Rightarrow> string list \<Rightarrow> 'n json list \<Rightarrow> 'n json list \<Rightarrow> 'n pydict
    \<Rightarrow> py_error + ('n json list \<times> 'n pydict)" where
  "validate_items ops labels [] valid_list validated = Inr (valid_list, validated)"
| "validate_items ops labels (item # items) valid_list validated =
     (if item_ok labels item
      then validate_items ops labels items (valid_list @ [item]) validated
      else (case scale_confidence ops (lit_0_9 ops) validated of
              Inl e \<Rightarrow> Inl e
            | Inr validated' \<Rightarrow>
                validate_items ops labels items
                  (valid_list @ [JStr ''Not Mentioned'']) validated'))"

text \<open>\<open>while len(valid_list) < 3: valid_list.append("")\<close>.\<close>

function pad_valid_list :: "'n json list \<Rightarrow> 'n json list" where
  "pad_valid_list valid_list =
     (if length valid_list < 3 then pad_valid_list (valid_list @ [JStr []]) else valid_list)"
  by pat_completeness auto
termination
  by (relation "measure (\<lambda>valid_list. 3 - length valid_list)") auto

declare pad_valid_list.simps [simp del]

definition list_fields :: "(string \<times> string) list" where
  "list_fields =
    [ (''symptom_condition'', ''Symptom Condition''),
      (''symptom_component'', ''Symptom Component''),
      (''fix_condition'', ''Fix Condition''),
      (''fix_component'', ''Fix Component'') ]"

text \<open>The body of the loop over \<open>list_fields\<close>.\<close>

definition validate_field ::
  "'n pynum \<Rightarrow> taxonomy \<Rightarrow> string \<times> string \<Rightarrow> 'n pydict \<Rightarrow> py_error + 'n pydict" where
  "validate_field ops taxonomy field validated =
    (case field of (field_key, taxonomy_key) \<Rightarrow>
     (case map_of validated field_key of
        Some (JList items) \<Rightarrow>
          (case validate_items ops (taxonomy taxonomy_key) items [] validated of
             Inl e \<Rightarrow> Inl e
           | Inr (valid_list, validated') \<Rightarrow>
               Inr (AList.update field_key (JList (take 3 (pad_valid_list valid_list)))
                      validated'))
      | _ \<Rightarrow>
          Inr (AList.update field_key (JList [JStr ''Not Mentioned'', JStr [], JStr []])
                 validated)))"

fun validate_fields ::
  "'n pynum \<Rightarrow> taxonomy \<Rightarrow> (string \<times> string) list \<Rightarrow> 'n pydict \<Rightarrow> py_error + 'n pydict" where
  "validate_fields ops taxonomy [] validated = Inr validated"
| "validate_fields ops taxonomy (field # rest) validated =
     (case validate_field ops taxonomy field validated of
        Inl e \<Rightarrow> Inl e
      | Inr validated' \<Rightarrow> validate_fields ops taxonomy rest validated')"

text \<open>The root-cause step: \<open>.get\<close> reads \<open>None\<close> for a missing key.\<close>

definition validate_root_cause ::
  "'n pynum \<Rightarrow> taxonomy \<Rightarrow> 'n pydict \<Rightarrow> py_error + 'n pydict" where
  "validate_root_cause ops taxonomy validated =
    (if \<not> py_in (dict_get_or_none validated ''root_cause'') (taxonomy ''Root Cause'')
        \<and> \<not> py_eq_str (dict_get_or_none validated ''root_cause'') ''Not Mentioned''
     then scale_confidence ops (lit_0_8 ops)
            (AList.update ''root_cause'' (JStr ''Not Mentioned'') validated)
     else Inr validated)"

text \<open>
  \<open>validate_llm_output\<close>: \<open>llm_output.copy()\<close> followed by \<open>.get\<close> raises
  AttributeError on everything that is not a dictionary.
\<close>

fun validate_llm_output :: "'n pynum \<Rightarrow> 'n json \<Rightarrow> taxonomy \<Rightarrow> py_error + 'n pydict" where
  "validate_llm_output ops (JDict llm_output) taxonomy =
     (case validate_root_cause ops taxonomy llm_output of
        Inl e \<Rightarrow> Inl e
      | Inr validated \<Rightarrow> validate_fields ops taxonomy list_fields validated)"
| "validate_llm_output ops _ taxonomy = Inl AttributeError"

text \<open>
  A row of the task sheet: the three text cells, \<open>None\<close> for a missing cell (NaN) and
  \<open>Some s\<close> for a cell whose \<open>str(...)\<close> is \<open>s\<close>.
\<close>

record task_row =
  complaint_cell :: "string option"
  cause_cell :: "string option"
  correction_cell :: "string option"

definition cell_text :: "string option \<Rightarrow> string" where
  "cell_text c = (case c of None \<Rightarrow> [] | Some s \<Rightarrow> s)"

text \<open>The prompt that \<open>process_row\<close> builds for a row.\<close>

definition row_prompt :: "task_row \<Rightarrow> taxonomy \<Rightarrow> string" where
  "row_prompt row taxonomy =
     create_llm_prompt (cell_text (complaint_cell row)) (cell_text (cause_cell row))
       (cell_text (correction_cell row)) taxonomy"

definition process_row ::
  "pystr \<Rightarrow> 'n pynum \<Rightarrow> (string \<Rightarrow> 'n json option) \<Rightarrow> (string \<Rightarrow> 'n http_response) \<Rightarrow> task_row
    \<Rightarrow> taxonomy \<Rightarrow> 'n pydict" where
  "process_row sm ops loads post row taxonomy =
    (let prompt = row_prompt row taxonomy;
         llm_result = call_llm_api sm ops loads post prompt
     in case validate_llm_output ops llm_result taxonomy of
          Inr validated \<Rightarrow> validated
        | Inl e \<Rightarrow> default_result ops)"

text \<open>
  The body of the main loop after \<open>process_row\<close>: the cells of the row that are
  assigned, as a dictionary from column name to value. \<open>cells\<close> holds the row's cells
  before the assignment.
\<close>

fun write_labels :: "'n pynum \<Rightarrow> string \<Rightarrow> nat \<Rightarrow> 'n json list \<Rightarrow> 'n pydict \<Rightarrow> 'n pydict" where
  "write_labels ops column i [] cells = cells"
| "write_labels ops column i (val # vals) cells =
     write_labels ops column (Suc i) vals
       (AList.update (column @ '' '' @ str_nat (Suc i))
          (if py_truth ops val then val else JStr ''Not Mentioned'') cells)"

definition write_axis ::
  "'n pynum \<Rightarrow> 'n pydict \<Rightarrow> string \<times> string \<Rightarrow> 'n pydict \<Rightarrow> py_error + 'n pydict" where
  "write_axis ops result field cells =
    (case field of (field_key, column) \<Rightarrow>
     (case getitem_key (JDict result) field_key of
        Inl e \<Rightarrow> Inl e
      | Inr v \<Rightarrow>
          (case slice3 v of
             Inl e \<Rightarrow> Inl e
           | Inr vals \<Rightarrow> Inr (write_labels ops column 0 vals cells))))"

definition write_result :: "'n pynum \<Rightarrow> 'n pydict \<Rightarrow> 'n pydict \<Rightarrow> py_error + 'n pydict" where
  "write_result ops result cells =
    (case getitem_key (JDict result) ''root_cause'' of Inl e \<Rightarrow> Inl e | Inr rc \<Rightarrow>
     case write_axis ops result (''symptom_condition'', ''Symptom Condition'')
            (AList.update ''Root Cause'' rc cells) of Inl e \<Rightarrow> Inl e | Inr c1 \<Rightarrow>
     case write_axis ops result (''symptom_component'', ''Symptom Component'') c1 of
       Inl e \<Rightarrow> Inl e | Inr c2 \<Rightarrow>
     case write_axis ops result (''fix_condition'', ''Fix Condition'') c2 of
       Inl e \<Rightarrow> Inl e | Inr c3 \<Rightarrow>
     case write_axis ops result (''fix_component'', ''Fix Component'') c3 of
       Inl e \<Rightarrow> Inl e | Inr c4 \<Rightarrow>
     case getitem_key (JDict result) ''confidence'' of Inl e \<Rightarrow> Inl e | Inr conf \<Rightarrow>
     Inr (AList.update ''Confidence'' conf c4))"

definition tag_row ::
  "pystr \<Rightarrow> 'n pynum \<Rightarrow> (string \<Rightarrow> 'n json option) \<Rightarrow> (string \<Rightarrow> 'n http_response) \<Rightarrow> taxonomy
    \<Rightarrow> task_row \<Rightarrow> 'n pydict \<Rightarrow> py_error + 'n pydict" where
  "tag_row sm ops loads post taxonomy row cells =
     write_result ops (process_row sm ops loads post row taxonomy) cells"

text \<open>
  The filter of the final report, \<open>df_task["Confidence"] < 0.7\<close>, on one row's cells
  (numeric confidences; a boolean compares as 1 or 0).
\<close>

fun confidence_below :: "'n pynum \<Rightarrow> 'n json \<Rightarrow> bool" where
  "confidence_below ops (JNum x) = py_lt ops x (lit_0_7 ops)"
| "confidence_below ops (JBool b) = py_lt ops (py_of_bool ops b) (lit_0_7 ops)"
| "confidence_below ops _ = False"

definition low_confidence :: "'n pynum \<Rightarrow> 'n pydict \<Rightarrow> bool" where
  "low_confidence ops cells =
    (case map_of cells ''Confidence'' of None \<Rightarrow> False | Some c \<Rightarrow> confidence_below ops c)"

section \<open>The cached tagger (\<open>llm_tagger.py\<close>)\<close>

subsection \<open>More string and container primitives\<close>

text \<open>\<open>sub in s\<close> for strings.\<close>

definition contains :: "string \<Rightarrow> string \<Rightarrow> bool" where
  "contains sub s = (sub = [] \<or> split_once sub s \<noteq> None)"

text \<open>\<open>s.split(sep)[0]\<close>: the text before the first occurrence of \<open>sep\<close>.\<close>

definition split_first :: "string \<Rightarrow> string \<Rightarrow> string" where
  "split_first sep s = (case split_once sep s of None \<Rightarrow> s | Some (a, b) \<Rightarrow> a)"

text \<open>\<open>s.split(sep)[-1]\<close>: the text after the last occurrence of \<open>sep\<close> that the
  left-to-right split finds.\<close>

function split_last :: "string \<Rightarrow> string \<Rightarrow> string" where
  "split_last sep s =
     (if sep = [] then s
      else (case split_once sep s of None \<Rightarrow> s | Some (a, b) \<Rightarrow> split_last sep b))"
  by pat_completeness auto
termination
proof (relation "measure (\<lambda>(sep, s). length s)")
  show "wf (measure (\<lambda>(sep, s). length s))" by simp
next
  fix sep s :: string and x2 x y
  assume "sep \<noteq> []" "split_once sep s = Some x2" "(x, y) = x2"
  then have "split_once sep s = Some (x, y)" by simp
  then have "length y < length s"
  proof (induction s arbitrary: x)
    case Nil
    then show ?case by simp
  next
    case (Cons c cs)
    show ?case
    proof (cases "take (length sep) (c # cs) = sep")
      case True
      then have "y = drop (length sep) (c # cs)" using Cons.prems by simp
      then show ?thesis using \<open>sep \<noteq> []\<close> by simp
    next
      case False
      then obtain a where "split_once sep cs = Some (a, y)"
        using Cons.prems by (auto split: option.splits)
      then show ?thesis using Cons.IH by fastforce
    qed
  qed
  then show "((sep, y), (sep, s)) \<in> measure (\<lambda>(sep, s). length s)" by simp
qed

declare split_last.simps [simp del]

text \<open>\<open>key in v\<close> and \<open>v[key] = x\<close> for a string key.\<close>

fun py_contains :: "'n json \<Rightarrow> string \<Rightarrow> py_error + bool" where
  "py_contains (JDict d) k = Inr (map_of d k \<noteq> None)"
| "py_contains (JList xs) k = Inr (list_ex (\<lambda>x. py_eq_str x k) xs)"
| "py_contains (JStr s) k = Inr (contains k s)"
| "py_contains _ k = Inl TypeError"

fun py_setitem :: "'n json \<Rightarrow> string \<Rightarrow> 'n json \<Rightarrow> py_error + 'n json" where
  "py_setitem (JDict d) k v = Inr (JDict (AList.update k v d))"
| "py_setitem _ k v = Inl TypeError"

subsection \<open>\<open>LLMTagger._call_llm\<close>\<close>

text \<open>
  The state of a tagger: its cache, and the log of the prompts for which a request was
  sent to the service, in order. The hash \<open>hashlib.md5(...).hexdigest()\<close> is a
  function \<open>md5\<close> from text to text. The service may answer the same prompt differently
  each time: \<open>post i prompt\<close> is what the HTTP library does with the request number
  \<open>i\<close> of the run.
\<close>

record 'n tagger =
  llm_cache :: "'n pydict"
  requests :: "string list"

definition tagger_init :: "'n tagger" where
  "tagger_init = \<lparr> llm_cache = [], requests = [] \<rparr>"

definition generate_llm_cache_key :: "(string \<Rightarrow> string) \<Rightarrow> string \<Rightarrow> string" where
  "generate_llm_cache_key md5 prompt = md5 prompt"

definition empty_tags :: "'n json" where
  "empty_tags = JDict [(''issues'', JList []), (''components'', JList []), (''actions'', JList [])]"

definition fenced_json :: "pystr \<Rightarrow> string \<Rightarrow> string" where
  \<open>fenced_json sm content =
    (if contains ''```json'' content
     then strip sm (split_first ''```'' (split_last ''```json'' content))
     else content)\<close>

text \<open>The body of the \<open>try\<close> block; a content that is not a string raises in every
  case, as in \<open>call_llm_api\<close>.\<close>

definition call_llm_try ::
  "pystr \<Rightarrow> (string \<Rightarrow> 'n json option) \<Rightarrow> 'n http_response \<Rightarrow> py_error + 'n json" where
  "call_llm_try sm loads response =
    (case response of
       PostRaises \<Rightarrow> Inl ConnectionError
     | StatusRaises \<Rightarrow> Inl HTTPError
     | BodyRaises \<Rightarrow> Inl JSONDecodeError
     | Body envelope \<Rightarrow>
         (case message_content envelope of
            Inl e \<Rightarrow> Inl e
          | Inr (JStr s) \<Rightarrow>
              (case loads (fenced_json sm s) of
                 None \<Rightarrow> Inl JSONDecodeError
               | Some result \<Rightarrow> Inr result)
          | Inr _ \<Rightarrow> Inl TypeError))"

text \<open>\<open>for key in [...]: if key not in result: result[key] = []\<close>, outside the
  \<open>try\<close>.\<close>

fun fill_keys :: "'n json \<Rightarrow> string list \<Rightarrow> py_error + 'n json" where
  "fill_keys result [] = Inr result"
| "fill_keys result (key # keys) =
     (case py_contains result key of
        Inl e \<Rightarrow> Inl e
      | Inr True \<Rightarrow> fill_keys result keys
      | Inr False \<Rightarrow>
          (case py_setitem result key (JList []) of
             Inl e \<Rightarrow> Inl e
           | Inr result' \<Rightarrow> fill_keys result' keys))"

definition call_llm ::
  "pystr \<Rightarrow> (string \<Rightarrow> string) \<Rightarrow> (string \<Rightarrow> 'n json option) \<Rightarrow> (nat \<Rightarrow> string \<Rightarrow> 'n http_response)
    \<Rightarrow> string \<Rightarrow> 'n tagger \<Rightarrow> (py_error + 'n json) \<times> 'n tagger" where
  "call_llm sm md5 loads post prompt s =
    (let cache_key = generate_llm_cache_key md5 prompt in
     case map_of (llm_cache s) cache_key of
       Some cached \<Rightarrow> (Inr cached, s)
     | None \<Rightarrow>
         (let response = post (length (requests s)) prompt;
              s1 = s\<lparr> requests := requests s @ [prompt] \<rparr>;
              result = (case call_llm_try sm loads response of
                          Inr r \<Rightarrow> r
                        | Inl e \<Rightarrow> empty_tags)
          in case fill_keys result [''issues'', ''components'', ''actions''] of
               Inl e \<Rightarrow> (Inl e, s1)
             | Inr result' \<Rightarrow>
                 (Inr result',
                  s1\<lparr> llm_cache := AList.update cache_key result' (llm_cache s1) \<rparr>)))"

subsection \<open>\<open>LLMTagger.extract_tags\<close>\<close>

text \<open>
  A row of the cleaned table, as \<open>extract_tags\<close> reads it: the two text fields,
  \<open>None\<close> when the column is absent and \<open>Some s\<close> when \<open>str\<close> of the cell is \<open>s\<close>.
\<close>

record text_row =
  correction_text :: "string option"
  customer_text :: "string option"

text \<open>\<open>str(row.get(column, "")).strip()\<close>.\<close>

definition text_field :: "pystr \<Rightarrow> string option \<Rightarrow> string" where
  "text_field sm c = strip sm (case c of None \<Rightarrow> [] | Some s \<Rightarrow> s)"

definition issue_options :: "string list" where
  "issue_options =
    [ ''Material problems (peeling, delaminating, bubbling, sticky)'',
      ''Stitching failures'',
      ''Heating malfunctions'',
      ''Super Cruise/driver assistance failures'',
      ''Noise (clicking, rubbing)'',
      ''Horn malfunctions'',
      ''Electrical faults/DTCs'',
      ''Loose/protruding components'',
      ''Broken internal circuits'',
      ''Off-center alignment'' ]"

definition component_options :: "string list" where
  "component_options =
    [ ''Steering wheel (main component)'',
      ''Heated module'',
      ''Super Cruise/driver assistance module'',
      ''Leather/material covering'',
      ''Trim/bezel'',
      ''Electrical harness/wiring'',
      ''Control buttons/switches'',
      ''Horn mechanism'',
      ''Airbag assembly'',
      ''BCM (Body Control Module)'' ]"

definition action_options :: "string list" where
  "action_options =
    [ ''Part replacement'',
      ''Pre-authorization (PRA)'',
      ''Circuit testing/diagnosis'',
      ''Module programming'',
      ''DTC clearing'',
      ''Torquing/alignment'',
      ''Road testing'',
      ''Technical assistance consultation'',
      ''Disassembly/reassembly'',
      ''System verification'' ]"

definition tags_prompt :: "string \<Rightarrow> string \<Rightarrow> string" where
  \<open>tags_prompt customer correction =
    (let taxonomy_str =
           ''Issue options: '' @ join '', '' issue_options @ ''\<newline>''
         @ ''Component options: '' @ join '', '' component_options @ ''\<newline>''
         @ ''Action options: '' @ join '', '' action_options
     in ''\<newline>''
      @ ''You are an expert in vehicle repair classification.\<newline>''
      @ ''\<newline>''
      @ ''CLASSIFY ONLY USING THESE TAXONOMY OPTIONS:\<newline>''
      @ taxonomy_str @ ''\<newline>''
      @ ''\<newline>''
      @ ''Analyze the following service record and extract:\<newline>''
      @ ''- issues\<newline>''
      @ ''- components\<newline>''
      @ ''- actions\<newline>''
      @ ''\<newline>''
      @ ''Text 1 (Customer Verbatim): '' @ customer @ ''\<newline>''
      @ ''Text 2 (Correction Verbatim): '' @ correction @ ''\<newline>''
      @ ''\<newline>''
      @ ''Return strictly in this JSON format:\<newline>''
      @ ''{\<newline>''
      @ ''"issues": ["..."],\<newline>''
      @ ''"components": ["..."],\<newline>''
      @ ''"actions": ["..."]\<newline>''
      @ ''}\<newline>''
      @ ''\<newline>''
      @ ''Rules:\<newline>''
      @ ''- Use only the provided taxonomy options (exact or closest match).\<newline>''
      @ ''- At least 1 issue, 1 component, and 1 action should be returned if identifiable.\<newline>''
      @ ''- If nothing is found, return an empty list [] for that field.\<newline>'')\<close>

text \<open>\<open>", ".join(v) if v else ""\<close> for \<open>v = result[key]\<close>.\<close>

fun all_strings :: "'n json list \<Rightarrow> string list option" where
  "all_strings [] = Some []"
| "all_strings (JStr s # xs) = map_option (\<lambda>ys. s # ys) (all_strings xs)"
| "all_strings (_ # xs) = None"

fun join_values :: "'n json \<Rightarrow> py_error + string" where
  "join_values (JList xs) =
     (case all_strings xs of None \<Rightarrow> Inl TypeError | Some ss \<Rightarrow> Inr (join '', '' ss))"
| "join_values (JStr s) = Inr (join '', '' (map (\<lambda>c. [c]) s))"
| "join_values (JDict d) = Inr (join '', '' (map fst d))"
| "join_values _ = Inl TypeError"

definition joined_field :: "'n pynum \<Rightarrow> 'n json \<Rightarrow> string \<Rightarrow> py_error + string" where
  "joined_field ops result key =
    (case getitem_key result key of
       Inl e \<Rightarrow> Inl e
     | Inr v \<Rightarrow> if py_truth ops v then join_values v else Inr [])"

text \<open>
  The loop of \<open>extract_tags\<close>: the three columns built so far and the tagger state. An
  exception ends the run; the state it leaves is kept, to count the requests sent.
\<close>

fun extract_tags ::
  "pystr \<Rightarrow> 'n pynum \<Rightarrow> (string \<Rightarrow> string) \<Rightarrow> (string \<Rightarrow> 'n json option)
    \<Rightarrow> (nat \<Rightarrow> string \<Rightarrow> 'n http_response) \<Rightarrow> text_row list
    \<Rightarrow> (string \<times> string \<times> string) list \<Rightarrow> 'n tagger
    \<Rightarrow> (py_error + (string \<times> string \<times> string) list) \<times> 'n tagger" where
  "extract_tags sm ops md5 loads post [] cols s = (Inr cols, s)"
| "extract_tags sm ops md5 loads post (row # rows) cols s =
     (let correction = text_field sm (correction_text row);
          customer = text_field sm (customer_text row)
      in if correction = [] \<and> customer = []
         then extract_tags sm ops md5 loads post rows (cols @ [([], [], [])]) s
         else (case call_llm sm md5 loads post (tags_prompt customer correction) s of
                 (Inl e, s') \<Rightarrow> (Inl e, s')
               | (Inr result, s') \<Rightarrow>
                   (case joined_field ops result ''issues'' of Inl e \<Rightarrow> (Inl e, s')
                    | Inr issues \<Rightarrow>
                    case joined_field ops result ''components'' of Inl e \<Rightarrow> (Inl e, s')
                    | Inr components \<Rightarrow>
                    case joined_field ops result ''actions'' of Inl e \<Rightarrow> (Inl e, s')
                    | Inr actions \<Rightarrow>
                      extract_tags sm ops md5 loads post rows
                        (cols @ [(issues, components, actions)]) s')))"

subsection \<open>\<open>LLMTagger.extract_advanced_tags\<close>\<close>

text \<open>
  The numbers of a row are abstract; the record gives the operations the function
  applies to them. A cell \<open>PNum x\<close> is a Python \<open>int\<close> or \<open>float\<close> (NaN included), a
  cell \<open>PNumpy x\<close> a number of another type, for which \<open>isinstance(x, (int, float))\<close> is
  false.
\<close>

datatype 'n pyval = PNum 'n | PNumpy 'n | PStr string | PNone

record 'n tagnum =
  float_of_str :: "string \<Rightarrow> 'n option"  \<comment> \<open>\<open>float(s)\<close>; \<open>None\<close> when it raises ValueError\<close>
  float_of_int :: "int \<Rightarrow> 'n"  \<comment> \<open>\<open>float(0)\<close>\<close>
  num_of_int :: "int \<Rightarrow> 'n"  \<comment> \<open>an integer literal\<close>
  num_minus :: "'n \<Rightarrow> 'n \<Rightarrow> 'n"  \<comment> \<open>\<open>x - y\<close>\<close>
  num_less :: "'n \<Rightarrow> 'n \<Rightarrow> bool"  \<comment> \<open>\<open>x < y\<close>\<close>
  num_equal :: "'n \<Rightarrow> 'n \<Rightarrow> bool"  \<comment> \<open>\<open>x == y\<close>\<close>
  num_true :: "'n \<Rightarrow> bool"  \<comment> \<open>truth value of a number\<close>

record 'n repair_row =
  correction_verbatim :: "string option"
  customer_verbatim :: "string option"
  global_labor_code_description :: "string option"
  repair_age :: "'n pyval option"
  km :: "'n pyval option"
  totalcost :: "'n pyval option"
  lbrcost :: "'n pyval option"

record advanced_tags =
  repair_complexity :: string
  vehicle_system :: string
  failure_mode :: string
  repair_urgency :: string
  diagnostic_method :: string

text \<open>\<open>row.get(column, 0)\<close>.\<close>

definition get_or_0 :: "'n tagnum \<Rightarrow> 'n pyval option \<Rightarrow> 'n pyval" where
  "get_or_0 ops c = (case c of None \<Rightarrow> PNum (num_of_int ops 0) | Some v \<Rightarrow> v)"

text \<open>
  \<open>if isinstance(v, str): v = float("".join(c for c in v if c.isdigit() or c == ".") or 0)\<close>.
\<close>

definition digits_and_dots :: "pystr \<Rightarrow> string \<Rightarrow> string" where
  "digits_and_dots sm s = filter (\<lambda>c. isdigit sm c \<or> c = CHR ''.'') s"

fun coerce_number :: "pystr \<Rightarrow> 'n tagnum \<Rightarrow> 'n pyval \<Rightarrow> py_error + 'n pyval" where
  "coerce_number sm ops (PStr s) =
     (if digits_and_dots sm s = [] then Inr (PNum (float_of_int ops 0))
      else (case float_of_str ops (digits_and_dots sm s) of
              None \<Rightarrow> Inl ValueError
            | Some x \<Rightarrow> Inr (PNum x)))"
| "coerce_number sm ops v = Inr v"

text \<open>\<open>total_cost - labor_cost\<close> when both are \<open>int\<close> or \<open>float\<close>, else \<open>0\<close>.\<close>

fun parts_cost_of :: "'n tagnum \<Rightarrow> 'n pyval \<Rightarrow> 'n pyval \<Rightarrow> 'n" where
  "parts_cost_of ops (PNum t) (PNum l) = num_minus ops t l"
| "parts_cost_of ops _ _ = num_of_int ops 0"

definition complexity_of :: "'n tagnum \<Rightarrow> 'n \<Rightarrow> string \<Rightarrow> string" where
  "complexity_of ops parts_cost combined_text =
    (if num_less ops (num_of_int ops 1000) parts_cost
        \<or> (contains ''replaced'' combined_text
            \<and> (contains ''module'' combined_text \<or> contains ''programming'' combined_text))
     then ''High''
     else if num_less ops (num_of_int ops 300) parts_cost \<or> contains ''replaced'' combined_text
     then ''Medium''
     else if list_ex (\<lambda>term. contains term combined_text) [''adjusted'', ''cleaned'', ''checked'']
     then ''Low''
     else ''Medium'')"

definition system_of :: "string \<Rightarrow> string" where
  "system_of combined_text =
    (if contains ''super cruise'' combined_text \<or> contains ''driver assist'' combined_text
     then ''Driver Assistance''
     else if contains ''heated'' combined_text \<and> contains ''wheel'' combined_text
     then ''Comfort System''
     else if contains ''horn'' combined_text then ''Electrical System''
     else if contains ''wheel'' combined_text
        \<and> list_ex (\<lambda>x. contains x combined_text) [''trim'', ''cover'', ''plastic'']
     then ''Interior Trim''
     else if contains ''wheel'' combined_text then ''Steering System''
     else ''Other'')"

definition failure_of :: "string \<Rightarrow> string" where
  "failure_of combined_text =
    (if list_ex (\<lambda>x. contains x combined_text)
          [''coming apart'', ''peeling'', ''fraying'', ''bubbling'']
     then ''Material Degradation''
     else if list_ex (\<lambda>x. contains x combined_text) [''loose'', ''protruding'']
     then ''Assembly Issue''
     else if list_ex (\<lambda>x. contains x combined_text) [''inop'', ''not working'', ''malfunction'']
     then ''Functional Failure''
     else if list_ex (\<lambda>x. contains x combined_text) [''dtc'', ''code'', ''light'', ''message'']
     then ''Electronic/Software Issue''
     else if list_ex (\<lambda>x. contains x combined_text) [''noise'', ''clicking'', ''rubbing'']
     then ''NVH Issue''
     else ''Unknown'')"

text \<open>The comparisons of the urgency chain; a string or \<open>None\<close> against a number
  raises TypeError under \<open><\<close> and \<open>>\<close> and is unequal under \<open>==\<close>.\<close>

fun eq_int :: "'n tagnum \<Rightarrow> 'n pyval \<Rightarrow> int \<Rightarrow> bool" where
  "eq_int ops (PNum x) i = num_equal ops x (num_of_int ops i)"
| "eq_int ops (PNumpy x) i = num_equal ops x (num_of_int ops i)"
| "eq_int ops _ i = False"

fun lt_int :: "'n tagnum \<Rightarrow> 'n pyval \<Rightarrow> int \<Rightarrow> py_error + bool" where
  "lt_int ops (PNum x) i = Inr (num_less ops x (num_of_int ops i))"
| "lt_int ops (PNumpy x) i = Inr (num_less ops x (num_of_int ops i))"
| "lt_int ops _ i = Inl TypeError"

fun gt_int :: "'n tagnum \<Rightarrow> 'n pyval \<Rightarrow> int \<Rightarrow> py_error + bool" where
  "gt_int ops (PNum x) i = Inr (num_less ops (num_of_int ops i) x)"
| "gt_int ops (PNumpy x) i = Inr (num_less ops (num_of_int ops i) x)"
| "gt_int ops _ i = Inl TypeError"

fun val_true :: "'n tagnum \<Rightarrow> 'n pyval \<Rightarrow> bool" where
  "val_true ops (PNum x) = num_true ops x"
| "val_true ops (PNumpy x) = num_true ops x"
| "val_true ops (PStr s) = (s \<noteq> [])"
| "val_true ops PNone = False"

text \<open>\<open>kilometers and kilometers < 20000 and repair_age < 6\<close>, left to right.\<close>

definition early_failure :: "'n tagnum \<Rightarrow> 'n pyval \<Rightarrow> 'n pyval \<Rightarrow> py_error + bool" where
  "early_failure ops kilometers age =
    (if \<not> val_true ops kilometers then Inr False
     else (case lt_int ops kilometers 20000 of
             Inl e \<Rightarrow> Inl e
           | Inr False \<Rightarrow> Inr False
           | Inr True \<Rightarrow> lt_int ops age 6))"

definition urgency_of ::
  "'n tagnum \<Rightarrow> 'n pyval \<Rightarrow> 'n pyval \<Rightarrow> string \<Rightarrow> py_error + string" where
  "urgency_of ops age kilometers combined_text =
    (if eq_int ops age 0 then Inr ''Immediate''
     else if contains ''safety'' combined_text \<or> contains ''airbag'' combined_text
     then Inr ''Safety Critical''
     else (case early_failure ops kilometers age of
             Inl e \<Rightarrow> Inl e
           | Inr True \<Rightarrow> Inr ''Early Failure''
           | Inr False \<Rightarrow>
               (case gt_int ops age 24 of
                  Inl e \<Rightarrow> Inl e
                | Inr True \<Rightarrow> Inr ''Long-term Issue''
                | Inr False \<Rightarrow> Inr ''Normal'')))"

definition method_of :: "string \<Rightarrow> string" where
  "method_of combined_text =
    (if contains ''tac case'' combined_text \<or> contains ''technical assistance'' combined_text
     then ''Technical Assistance''
     else if contains ''dtc'' combined_text \<or> contains ''scan'' combined_text
     then ''Diagnostic Scan''
     else if contains ''test'' combined_text \<and> contains ''circuit'' combined_text
     then ''Circuit Testing''
     else if contains ''prog'' combined_text then ''Software Reprogramming''
     else if contains ''pra'' combined_text then ''Pre-authorization Required''
     else if contains ''replace'' combined_text then ''Direct Replacement''
     else ''Visual Inspection'')"

text \<open>
  The body of the loop of \<open>extract_advanced_tags\<close> for one row: the five tags it
  writes, or the exception that ends the run before any of them is written for the
  row (the urgency is the only tag after which an exception can no longer occur, and
  the three tags before it are written only if the coercions succeeded).
\<close>

definition advanced_tags_row ::
  "pystr \<Rightarrow> 'n tagnum \<Rightarrow> 'n repair_row \<Rightarrow> py_error + advanced_tags" where
  "advanced_tags_row sm ops row =
    (let correction = text_field sm (correction_verbatim row);
         customer = text_field sm (customer_verbatim row);
         age = get_or_0 ops (repair_age row);
         global_labor_desc = text_field sm (global_labor_code_description row)
     in case coerce_number sm ops (get_or_0 ops (km row)) of Inl e \<Rightarrow> Inl e | Inr kilometers \<Rightarrow>
        case coerce_number sm ops (get_or_0 ops (totalcost row)) of Inl e \<Rightarrow> Inl e
        | Inr total_cost \<Rightarrow>
        case coerce_number sm ops (get_or_0 ops (lbrcost row)) of Inl e \<Rightarrow> Inl e
        | Inr labor_cost \<Rightarrow>
        (let parts_cost = parts_cost_of ops total_cost labor_cost;
             combined_text = lower sm (correction @ '' '' @ customer @ '' '' @ global_labor_desc)
         in case urgency_of ops age kilometers combined_text of
              Inl e \<Rightarrow> Inl e
            | Inr urgency \<Rightarrow>
                Inr \<lparr> repair_complexity = complexity_of ops parts_cost combined_text,
                      vehicle_system = system_of combined_text,
                      failure_mode = failure_of combined_text,
                      repair_urgency = urgency,
                      diagnostic_method = method_of combined_text \<rparr>))"

text \<open>The loop: the tags of the rows in order, or the first exception.\<close>

fun extract_advanced_tags ::
  "pystr \<Rightarrow> 'n tagnum \<Rightarrow> 'n repair_row list \<Rightarrow> py_error + advanced_tags list" where
  "extract_advanced_tags sm ops [] = Inr []"
| "extract_advanced_tags sm ops (row # rows) =
     (case advanced_tags_row sm ops row of
        Inl e \<Rightarrow> Inl e
      | Inr tags \<Rightarrow>
          (case extract_advanced_tags sm ops rows of
             Inl e \<Rightarrow> Inl e
           | Inr rest \<Rightarrow> Inr (tags # rest)))"

section \<open>The cleaner (\<open>cleaner.py\<close>)\<close>

subsection \<open>Tables, profiles and the library operations\<close>

text \<open>
  A cell of a table is missing (\<open>NA\<close>: NaN, None or NaT), a number that is not NaN, a
  string, a boolean, or a timestamp (nanoseconds since the epoch). Booleans occur in
  boolean columns only (a column that mixes booleans and numbers, in which Python
  takes \<open>True\<close> for 1, is not represented). A table maps column names to columns of one
  length, in column order; assigning a new column appends it.

  What the data-frame library computes on numbers is taken from a record, so that
  nothing is assumed about floating-point rounding. A result \<open>None\<close> is NaN: the
  quantile or median of no values, or an arithmetic result that is not a number.
\<close>

datatype 'n cell = NA | Num 'n | Str string | Flag bool | Date int

type_synonym 'n table = "(string \<times> 'n cell list) list"

record 'n pdnum =
  pd_quantile :: "'n list \<Rightarrow> 'n \<Rightarrow> 'n option"  \<comment> \<open>\<open>Series.quantile(q)\<close> of the non-missing values\<close>
  pd_median :: "'n list \<Rightarrow> 'n option"  \<comment> \<open>\<open>Series.median()\<close> of the non-missing values\<close>
  pd_plus :: "'n \<Rightarrow> 'n \<Rightarrow> 'n option"
  pd_minus :: "'n \<Rightarrow> 'n \<Rightarrow> 'n option"
  pd_times :: "'n \<Rightarrow> 'n \<Rightarrow> 'n option"
  pd_less :: "'n \<Rightarrow> 'n \<Rightarrow> bool"
  pd_0_25 :: 'n  \<comment> \<open>the literal \<open>0.25\<close>\<close>
  pd_0_75 :: 'n  \<comment> \<open>the literal \<open>0.75\<close>\<close>
  pd_1_5 :: 'n  \<comment> \<open>the literal \<open>1.5\<close>\<close>
  pd_str :: "'n \<Rightarrow> string"  \<comment> \<open>\<open>str(x)\<close>\<close>
  pd_to_datetime :: "'n cell list \<Rightarrow> int option list option"
    \<comment> \<open>the timestamps (NaT: \<open>None\<close>) that \<open>pd.to_datetime\<close> parses; \<open>None\<close> when it raises\<close>
  pd_date_median :: "'n cell list \<Rightarrow> 'n cell"  \<comment> \<open>\<open>.median()\<close> of a datetime column\<close>
  pd_date_str :: "int \<Rightarrow> string"  \<comment> \<open>\<open>str\<close> of a timestamp\<close>

text \<open>
  A column profile, with the keys that the profiler sets and the cleaner or a claim
  reads. \<open>column_type\<close>, \<open>median\<close>, \<open>outlier_count\<close> and \<open>potential_primary_key\<close> may
  be absent (\<open>None\<close>). The other keys of the source's dictionary (the storage type,
  the percentages, the sample values, minimum, maximum, mean and deviation, the text
  and category statistics, the date range) are not carried.
\<close>

record 'n profile =
  name :: string
  missing_count :: nat
  unique_count :: nat
  potential_issues :: "string list"
  column_type :: "string option"
  profile_median :: "'n cell option"
  outlier_count :: "nat option"
  potential_primary_key :: "bool option"

text \<open>NaN propagates through arithmetic.\<close>

definition lift2 :: "('n \<Rightarrow> 'n \<Rightarrow> 'n option) \<Rightarrow> 'n option \<Rightarrow> 'n option \<Rightarrow> 'n option" where
  "lift2 f a b = (case a of None \<Rightarrow> None | Some x \<Rightarrow> (case b of None \<Rightarrow> None | Some y \<Rightarrow> f x y))"

text \<open>\<open>column < bound\<close> and \<open>column > bound\<close> on one cell: false on a missing cell and
  against NaN.\<close>

fun cell_less :: "'n pdnum \<Rightarrow> 'n cell \<Rightarrow> 'n option \<Rightarrow> bool" where
  "cell_less ops (Num v) (Some b) = pd_less ops v b"
| "cell_less ops _ _ = False"

fun cell_greater :: "'n pdnum \<Rightarrow> 'n cell \<Rightarrow> 'n option \<Rightarrow> bool" where
  "cell_greater ops (Num v) (Some b) = pd_less ops b v"
| "cell_greater ops _ _ = False"

text \<open>
  The numbers of a numeric column, missing cells dropped. The library's quantile
  raises TypeError on a column that holds strings or booleans, and its median on one
  that holds strings; the model raises for every cell that is neither a number nor
  missing.
\<close>

fun numbers_of :: "'n cell list \<Rightarrow> py_error + 'n list" where
  "numbers_of [] = Inr []"
| "numbers_of (NA # cs) = numbers_of cs"
| "numbers_of (Num v # cs) = (case numbers_of cs of Inl e \<Rightarrow> Inl e | Inr vs \<Rightarrow> Inr (v # vs))"
| "numbers_of (_ # cs) = Inl TypeError"

text \<open>A cell of a numeric column; the numbers of a column, whatever else it holds.\<close>

fun numeric_cell :: "'n cell \<Rightarrow> bool" where
  "numeric_cell NA = True"
| "numeric_cell (Num v) = True"
| "numeric_cell _ = False"

fun nums :: "'n cell list \<Rightarrow> 'n list" where
  "nums [] = []"
| "nums (Num v # cs) = v # nums cs"
| "nums (_ # cs) = nums cs"

definition fillna :: "'n cell \<Rightarrow> 'n cell list \<Rightarrow> 'n cell list" where
  "fillna v cells = map (\<lambda>c. if c = NA then v else c) cells"

definition isna :: "'n cell list \<Rightarrow> 'n cell list" where
  "isna cells = map (\<lambda>c. Flag (c = NA)) cells"

definition dropna :: "'n cell list \<Rightarrow> 'n cell list" where
  "dropna cells = filter (\<lambda>c. c \<noteq> NA) cells"

text \<open>
  \<open>Series.mode()\<close>: the non-missing values that occur most often, each once, in
  ascending order when they are of one kind: all strings (strings compare by their
  characters, as in Python), all numbers, all booleans or all timestamps. Values of
  mixed kinds cannot be sorted; the library then leaves them in order of first
  occurrence.
\<close>

definition most_frequent :: "'n cell list \<Rightarrow> 'n cell list" where
  "most_frequent cells =
    (let vs = dropna cells;
         top = foldr max (map (count_list vs) vs) 0
     in rev (remdups (rev (filter (\<lambda>v. count_list vs v = top) vs))))"

fun str_key :: "'n cell \<Rightarrow> string" where
  "str_key (Str s) = s"
| "str_key _ = []"

fun is_str :: "'n cell \<Rightarrow> bool" where
  "is_str (Str s) = True"
| "is_str _ = False"

fun is_num :: "'n cell \<Rightarrow> bool" where
  "is_num (Num v) = True"
| "is_num _ = False"

fun is_flag :: "'n cell \<Rightarrow> bool" where
  "is_flag (Flag b) = True"
| "is_flag _ = False"

fun is_date :: "'n cell \<Rightarrow> bool" where
  "is_date (Date d) = True"
| "is_date _ = False"

text \<open>\<open>a < b\<close> for two values of one kind.\<close>

fun value_less :: "'n pdnum \<Rightarrow> 'n cell \<Rightarrow> 'n cell \<Rightarrow> bool" where
  "value_less ops (Num a) (Num b) = pd_less ops a b"
| "value_less ops (Flag a) (Flag b) = (\<not> a \<and> b)"
| "value_less ops (Date a) (Date b) = (a < b)"
| "value_less ops (Str a) (Str b) = (a < b)"
| "value_less ops _ _ = False"

text \<open>Sorting by insertion with a given comparison.\<close>

fun insert_by :: "('a \<Rightarrow> 'a \<Rightarrow> bool) \<Rightarrow> 'a \<Rightarrow> 'a list \<Rightarrow> 'a list" where
  "insert_by lt x [] = [x]"
| "insert_by lt x (y # ys) = (if lt x y then x # y # ys else y # insert_by lt x ys)"

definition sort_by :: "('a \<Rightarrow> 'a \<Rightarrow> bool) \<Rightarrow> 'a list \<Rightarrow> 'a list" where
  "sort_by lt xs = foldr (insert_by lt) xs []"

definition pd_mode :: "'n pdnum \<Rightarrow> 'n cell list \<Rightarrow> 'n cell list" where
  "pd_mode ops cells =
    (if list_all is_str (most_frequent cells) then sort_key str_key (most_frequent cells)
     else if list_all is_num (most_frequent cells) \<or> list_all is_flag (most_frequent cells)
        \<or> list_all is_date (most_frequent cells)
     then sort_by (value_less ops) (most_frequent cells)
     else most_frequent cells)"

text \<open>\<open>.iloc[0]\<close>.\<close>

definition iloc0 :: "'a list \<Rightarrow> py_error + 'a" where
  "iloc0 xs = (case xs of [] \<Rightarrow> Inl IndexError | x # _ \<Rightarrow> Inr x)"

text \<open>\<open>str\<close> of a cell, as in \<open>astype(str)\<close> and in an f-string. A missing cell prints as
  NaN does; where the code prints a missing timestamp, it prints as NaT does.\<close>

fun cell_str :: "'n pdnum \<Rightarrow> 'n cell \<Rightarrow> string" where
  "cell_str ops NA = ''nan''"
| "cell_str ops (Num v) = pd_str ops v"
| "cell_str ops (Str s) = s"
| "cell_str ops (Flag b) = (if b then ''True'' else ''False'')"
| "cell_str ops (Date d) = pd_date_str ops d"

fun timestamp_str :: "'n pdnum \<Rightarrow> 'n cell \<Rightarrow> string" where
  "timestamp_str ops NA = ''NaT''"
| "timestamp_str ops c = cell_str ops c"

text \<open>
  \<open>pd.to_datetime(column)\<close>: a column of timestamps comes back as it is; any other
  column is parsed by the library into timestamps and NaT, or the call raises.
\<close>

fun timestamp_cell :: "'n cell \<Rightarrow> bool" where
  "timestamp_cell NA = True"
| "timestamp_cell (Date d) = True"
| "timestamp_cell _ = False"

definition to_datetime :: "'n pdnum \<Rightarrow> 'n cell list \<Rightarrow> 'n cell list option" where
  "to_datetime ops cells =
    (if list_all timestamp_cell cells then Some cells
     else map_option (map (\<lambda>t. case t of None \<Rightarrow> NA | Some d \<Rightarrow> Date d))
            (pd_to_datetime ops cells))"

definition quoted :: "string \<Rightarrow> string" where
  "quoted s = [CHR 0x27] @ s @ [CHR 0x27]"

subsection \<open>\<open>Cleaner.clean_data\<close>\<close>

text \<open>The state of the loop: the table \<open>df_clean\<close> and the list \<open>insights\<close>.\<close>

type_synonym 'n cleaner = "'n table \<times> string list"

definition get_column :: "'n table \<Rightarrow> string \<Rightarrow> py_error + 'n cell list" where
  "get_column df col = (case map_of df col of None \<Rightarrow> Inl KeyError | Some cells \<Rightarrow> Inr cells)"

text \<open>\<open>self.df_clean[col].median()\<close>.\<close>

definition column_median :: "'n pdnum \<Rightarrow> 'n cell list \<Rightarrow> py_error + 'n cell" where
  "column_median ops cells =
    (case numbers_of cells of
       Inl e \<Rightarrow> Inl e
     | Inr vs \<Rightarrow> Inr (case pd_median ops vs of None \<Rightarrow> NA | Some m \<Rightarrow> Num m))"

text \<open>
  The imputation of one column, entered when \<open>missing_count > 0\<close>. The default of
  \<open>profile.get("median", ...)\<close> is evaluated before the lookup, as Python does.
\<close>

definition impute :: "'n pdnum \<Rightarrow> string \<Rightarrow> 'n profile \<Rightarrow> 'n cleaner \<Rightarrow> py_error + 'n cleaner" where
  "impute ops col profile state =
    (case state of (df, insights) \<Rightarrow>
     if column_type profile = Some ''numerical'' then
       (case get_column df col of Inl e \<Rightarrow> Inl e | Inr cells \<Rightarrow>
        case column_median ops cells of Inl e \<Rightarrow> Inl e | Inr fallback \<Rightarrow>
        (let median_val = (case profile_median profile of None \<Rightarrow> fallback | Some m \<Rightarrow> m)
         in Inr (AList.update col (fillna median_val cells) df,
                 insights @ [''Filled '' @ str_nat (missing_count profile) @ '' missing in ''
                             @ quoted col @ '' with median: '' @ cell_str ops median_val])))
     else if column_type profile = Some ''categorical'' then
       (case get_column df col of Inl e \<Rightarrow> Inl e | Inr cells \<Rightarrow>
        case iloc0 (pd_mode ops cells) of Inl e \<Rightarrow> Inl e | Inr mode_val \<Rightarrow>
        Inr (AList.update col (fillna mode_val cells) df,
             insights @ [''Filled '' @ str_nat (missing_count profile) @ '' missing in ''
                         @ quoted col @ '' with mode: '' @ cell_str ops mode_val]))
     else if column_type profile = Some ''text'' then
       (case get_column df col of Inl e \<Rightarrow> Inl e | Inr cells \<Rightarrow>
        Inr (AList.update col (fillna (Str []) cells) df,
             insights @ [''Filled '' @ str_nat (missing_count profile) @ '' missing in ''
                         @ quoted col @ '' with empty string'']))
     else if column_type profile = Some ''date'' then
       (case get_column df col of Inl e \<Rightarrow> Inl e | Inr cells \<Rightarrow>
        case to_datetime ops cells of None \<Rightarrow> Inl ValueError | Some dates \<Rightarrow>
        (let median_date = pd_date_median ops dates
         in Inr (AList.update col (fillna median_date cells)
                   (AList.update (col @ ''_MISSING'') (isna cells) df),
                 insights @ [''Filled '' @ str_nat (missing_count profile) @ '' missing in ''
                             @ quoted col @ '' with median date: ''
                             @ timestamp_str ops median_date])))
     else Inr (df, insights))"

definition normalize ::
  "pystr \<Rightarrow> 'n pdnum \<Rightarrow> string \<Rightarrow> 'n cleaner \<Rightarrow> py_error + 'n cleaner" where
  "normalize sm ops col state =
    (case state of (df, insights) \<Rightarrow>
     case get_column df col of Inl e \<Rightarrow> Inl e | Inr cells \<Rightarrow>
     Inr (AList.update col (map (\<lambda>c. Str (title sm (strip sm (cell_str ops c)))) cells) df,
          insights @ [''Standardized capitalization/spacing in '' @ quoted col]))"

definition convert_date :: "'n pdnum \<Rightarrow> string \<Rightarrow> 'n cleaner \<Rightarrow> py_error + 'n cleaner" where
  "convert_date ops col state =
    (case state of (df, insights) \<Rightarrow>
     case get_column df col of
       Inl e \<Rightarrow> Inr (df, insights @ [''Failed to convert '' @ quoted col @ '' to datetime''])
     | Inr cells \<Rightarrow>
         (case to_datetime ops cells of
            None \<Rightarrow> Inr (df, insights @ [''Failed to convert '' @ quoted col @ '' to datetime''])
          | Some dates \<Rightarrow> Inr (AList.update col dates df, insights)))"

text \<open>The bounds \<open>Q1 - 1.5 * IQR\<close> and \<open>Q3 + 1.5 * IQR\<close> of a list of numbers.\<close>

definition iqr_bounds :: "'n pdnum \<Rightarrow> 'n list \<Rightarrow> 'n option \<times> 'n option" where
  "iqr_bounds ops vs =
    (let Q1 = pd_quantile ops vs (pd_0_25 ops);
         Q3 = pd_quantile ops vs (pd_0_75 ops);
         IQR = lift2 (pd_minus ops) Q3 Q1
     in (lift2 (pd_minus ops) Q1 (lift2 (pd_times ops) (Some (pd_1_5 ops)) IQR),
         lift2 (pd_plus ops) Q3 (lift2 (pd_times ops) (Some (pd_1_5 ops)) IQR)))"

definition outlier_mask :: "'n pdnum \<Rightarrow> 'n cell list \<Rightarrow> py_error + bool list" where
  "outlier_mask ops cells =
    (case numbers_of cells of
       Inl e \<Rightarrow> Inl e
     | Inr vs \<Rightarrow>
         (case iqr_bounds ops vs of (low, high) \<Rightarrow>
            Inr (map (\<lambda>c. cell_less ops c low \<or> cell_greater ops c high) cells)))"

definition flag_outliers :: "'n pdnum \<Rightarrow> string \<Rightarrow> 'n cleaner \<Rightarrow> py_error + 'n cleaner" where
  "flag_outliers ops col state =
    (case state of (df, insights) \<Rightarrow>
     case get_column df col of Inl e \<Rightarrow> Inl e | Inr cells \<Rightarrow>
     case outlier_mask ops cells of Inl e \<Rightarrow> Inl e | Inr flags \<Rightarrow>
     Inr (AList.update (col @ ''_OUTLIER'') (map Flag flags) df,
          insights @ [''Flagged outliers in '' @ quoted col @ '' using IQR: ''
                      @ str_nat (length (filter id flags)) @ '' rows'']))"

text \<open>A step that runs only under a condition.\<close>

definition step_if ::
  "bool \<Rightarrow> ('s \<Rightarrow> py_error + 's) \<Rightarrow> py_error + 's \<Rightarrow> py_error + 's" where
  "step_if b f r = (case r of Inl e \<Rightarrow> Inl e | Inr s \<Rightarrow> if b then f s else Inr s)"

text \<open>The body of the loop over \<open>column_profiles.items()\<close>.\<close>

definition clean_column ::
  "pystr \<Rightarrow> 'n pdnum \<Rightarrow> string \<times> 'n profile \<Rightarrow> 'n cleaner \<Rightarrow> py_error + 'n cleaner" where
  "clean_column sm ops item state =
    (case item of (col, profile) \<Rightarrow>
     if column_type profile = None
     then Inr (fst state,
               snd state @ [''Skipping '' @ quoted col @ '' - no column_type detected''])
     else
       step_if (column_type profile = Some ''numerical''
                \<and> (case outlier_count profile of None \<Rightarrow> 0 | Some k \<Rightarrow> k) > 0)
         (flag_outliers ops col)
       (step_if (column_type profile = Some ''date'') (convert_date ops col)
       (step_if (column_type profile = Some ''categorical''
                 \<and> ''Inconsistent capitalization or spacing'' \<in> set (potential_issues profile))
          (normalize sm ops col)
       (step_if (missing_count profile > 0) (impute ops col profile) (Inr state)))))"

fun clean_columns ::
  "pystr \<Rightarrow> 'n pdnum \<Rightarrow> (string \<times> 'n profile) list \<Rightarrow> 'n cleaner \<Rightarrow> py_error + 'n cleaner" where
  "clean_columns sm ops [] state = Inr state"
| "clean_columns sm ops (item # items) state =
     (case clean_column sm ops item state of
        Inl e \<Rightarrow> Inl e
      | Inr state' \<Rightarrow> clean_columns sm ops items state')"

text \<open>\<open>Cleaner(df_raw, column_profiles).clean_data()\<close>: a copy of the table and an
  empty list of insights go through the loop.\<close>

definition clean_data ::
  "pystr \<Rightarrow> 'n pdnum \<Rightarrow> (string \<times> 'n profile) list \<Rightarrow> 'n table \<Rightarrow> py_error + 'n cleaner" where
  "clean_data sm ops column_profiles df_raw =
     clean_columns sm ops column_profiles (df_raw, [])"

section \<open>The profiler (\<open>profiler.py\<close>)\<close>

text \<open>
  A column of the raw table has a storage type and its cells. What the library decides
  about a column beyond the cells is taken from a record: whether the text of an
  object column converts to numbers (and to which), whether a column parses as dates,
  whether a column counts as of string type, whether the accessor \<open>.str\<close> exists for
  it, and the test \<open>(k / n) * 100 > 5\<close>. An object column holds strings, numbers and
  missing cells.
\<close>

datatype pd_dtype =
  NumericDtype | BoolDtype | ObjectDtype | StringDtype | DatetimeDtype | OtherDtype

type_synonym 'n raw_table = "(string \<times> pd_dtype \<times> 'n cell list) list"

record 'n pdinfer =
  to_numeric :: "'n cell list \<Rightarrow> 'n list option"
    \<comment> \<open>\<open>pd.to_numeric(col.dropna())\<close>; \<open>None\<close> when it raises\<close>
  parses_as_dates :: "'n cell list \<Rightarrow> bool"
    \<comment> \<open>\<open>pd.to_datetime(col.dropna(), errors="raise")\<close> does not raise\<close>
  is_string_dtype :: "pd_dtype \<Rightarrow> 'n cell list \<Rightarrow> bool"
  str_accessor :: "'n cell list \<Rightarrow> bool"
    \<comment> \<open>\<open>col.str\<close> exists; the library raises AttributeError when it does not\<close>
  percent_above_5 :: "nat \<Rightarrow> nat \<Rightarrow> bool"  \<comment> \<open>\<open>(k / n) * 100 > 5\<close>\<close>

text \<open>\<open>pd.api.types.is_numeric_dtype\<close>: numbers and booleans.\<close>

definition is_numeric_dtype :: "pd_dtype \<Rightarrow> bool" where
  "is_numeric_dtype dtype = (dtype = NumericDtype \<or> dtype = BoolDtype)"

text \<open>\<open>col.isna().sum()\<close>, \<open>col.nunique()\<close>.\<close>

definition count_missing :: "'n cell list \<Rightarrow> nat" where
  "count_missing cells = length (filter (\<lambda>c. c = NA) cells)"

definition nunique :: "'n cell list \<Rightarrow> nat" where
  "nunique cells = length (remdups (dropna cells))"

text \<open>\<open>col.str.len().mean() > 20\<close>: the mean over the strings of the column (NaN, which
  is not above 20, when there is none).\<close>

definition mean_length_above_20 :: "'n cell list \<Rightarrow> bool" where
  "mean_length_above_20 cells =
    (let lens = map (\<lambda>c. length (str_key c)) (filter is_str cells)
     in lens \<noteq> [] \<and> sum_list lens > 20 * length lens)"

text \<open>
  The statistics of the numerical branches, from the numbers \<open>vs\<close> of the column: type,
  median, outlier count (the rows outside the IQR bounds; a missing cell is never
  one), and the issue of a high outlier percentage (\<open>n\<close> is the length the percentage
  is taken of).
\<close>

definition numerical_stats ::
  "'n pdnum \<Rightarrow> 'n pdinfer \<Rightarrow> 'n list \<Rightarrow> nat \<Rightarrow> 'n profile \<Rightarrow> 'n profile" where
  "numerical_stats ops lib vs n profile =
    (let mask = (case iqr_bounds ops vs of (low, high) \<Rightarrow>
                   map (\<lambda>v. cell_less ops (Num v) low \<or> cell_greater ops (Num v) high) vs);
         outliers = length (filter id mask)
     in profile
        \<lparr> column_type := Some ''numerical'',
          profile_median := Some (case pd_median ops vs of None \<Rightarrow> NA | Some m \<Rightarrow> Num m),
          outlier_count := Some outliers,
          potential_issues :=
            potential_issues profile
              @ (if percent_above_5 lib outliers n then [''High outlier percentage''] else []) \<rparr>)"

text \<open>The check at the end of the loop body.\<close>

definition primary_key_check :: "'n cell list \<Rightarrow> 'n profile \<Rightarrow> 'n profile" where
  "primary_key_check cells profile =
    profile \<lparr> potential_primary_key :=
      Some (unique_count profile = length cells \<and> missing_count profile = 0) \<rparr>"

text \<open>
  The string branch: date, text or categorical. The length test is in the handler of
  the date test, so that an exception of \<open>col.str\<close> is not caught.
\<close>

definition string_profile ::
  "pystr \<Rightarrow> 'n pdnum \<Rightarrow> 'n pdinfer \<Rightarrow> 'n cell list \<Rightarrow> 'n profile \<Rightarrow> py_error + 'n profile" where
  "string_profile sm ops lib cells profile =
    (if parses_as_dates lib (dropna cells) then Inr (profile \<lparr> column_type := Some ''date'' \<rparr>)
     else if \<not> str_accessor lib cells then Inl AttributeError
     else if mean_length_above_20 cells then Inr (profile \<lparr> column_type := Some ''text'' \<rparr>)
     else Inr (profile
       \<lparr> column_type := Some ''categorical'',
         potential_issues :=
           potential_issues profile
             @ (if nunique (map (\<lambda>c. Str (lower sm (strip sm (cell_str ops c))) :: 'n cell)
                              (dropna cells))
                    < nunique (dropna cells)
                then [''Inconsistent capitalization or spacing''] else []) \<rparr>))"

text \<open>
  The tests after the numerical branches: the string branch, else the branch of a
  timestamp column; then the primary-key check.
\<close>

definition typed_profile ::
  "pystr \<Rightarrow> 'n pdnum \<Rightarrow> 'n pdinfer \<Rightarrow> pd_dtype \<Rightarrow> 'n cell list \<Rightarrow> 'n profile
    \<Rightarrow> py_error + 'n profile" where
  "typed_profile sm ops lib dtype cells profile =
    (case (if is_string_dtype lib dtype cells then string_profile sm ops lib cells profile
           else if dtype = DatetimeDtype then Inr (profile \<lparr> column_type := Some ''date'' \<rparr>)
           else Inr profile) of
       Inl e \<Rightarrow> Inl e
     | Inr profile' \<Rightarrow> Inr (primary_key_check cells profile'))"

text \<open>
  The body of the loop of \<open>profile_columns\<close> for one column. On a column without rows
  the unique percentage \<open>col.nunique() / len(col)\<close> divides by zero. The statistics of
  a column of numeric storage type are computed outside any \<open>try\<close>, so that their
  exception (on a boolean column) ends the run. The branch of an object column whose
  text converts to numbers stores the profile and goes on to the next column
  (\<open>continue\<close>); when the conversion raises, the exception is dropped and the column
  goes through the tests that follow.
\<close>

definition profile_column ::
  "pystr \<Rightarrow> 'n pdnum \<Rightarrow> 'n pdinfer \<Rightarrow> string \<Rightarrow> pd_dtype \<Rightarrow> 'n cell list
    \<Rightarrow> py_error + 'n profile" where
  "profile_column sm ops lib col dtype cells =
    (let profile =
           \<lparr> name = col, missing_count = count_missing cells, unique_count = nunique cells,
             potential_issues = [], column_type = None, profile_median = None,
             outlier_count = None, potential_primary_key = None \<rparr>
     in if length cells = 0 then Inl ZeroDivisionError
        else if is_numeric_dtype dtype
        then (case numbers_of cells of
                Inl e \<Rightarrow> Inl e
              | Inr vs \<Rightarrow>
                  typed_profile sm ops lib dtype cells
                    (numerical_stats ops lib vs (length cells) profile))
        else if dtype = ObjectDtype
        then (case to_numeric lib (dropna cells) of
                Some numeric_data \<Rightarrow>
                  Inr (numerical_stats ops lib numeric_data (length numeric_data) profile)
              | None \<Rightarrow> typed_profile sm ops lib dtype cells profile)
        else typed_profile sm ops lib dtype cells profile)"

fun profile_columns ::
  "pystr \<Rightarrow> 'n pdnum \<Rightarrow> 'n pdinfer \<Rightarrow> 'n raw_table \<Rightarrow> (string \<times> 'n profile) list
    \<Rightarrow> py_error + (string \<times> 'n profile) list" where
  "profile_columns sm ops lib [] column_profiles = Inr column_profiles"
| "profile_columns sm ops lib ((col, dtype, cells) # columns) column_profiles =
     (case profile_column sm ops lib col dtype cells of
        Inl e \<Rightarrow> Inl e
      | Inr profile \<Rightarrow>
          profile_columns sm ops lib columns (AList.update col profile column_profiles))"
section \<open>The string methods on ASCII text: definitions\<close>

text \<open>
  An instance of the string methods for examples: what Python's methods do on ASCII
  text. White space is the space, the five characters from tab to carriage return and
  the four separators \<open>0x1C\<close> to \<open>0x1F\<close>; the letters are \<open>a\<close> to \<open>z\<close> and \<open>A\<close> to \<open>Z\<close>;
  the digits are \<open>0\<close> to \<open>9\<close>. \<open>title\<close> raises a letter that does not follow a letter
  and lowers a letter that does. The examples below use ASCII text only; on any other
  character the instance says nothing about Python.
\<close>

definition ascii_space :: "char \<Rightarrow> bool" where
  "ascii_space c = (c \<in> set [CHR '' '', CHR 0x09, CHR 0x0A, CHR 0x0B, CHR 0x0C, CHR 0x0D,
                             CHR 0x1C, CHR 0x1D, CHR 0x1E, CHR 0x1F])"

definition ascii_strip :: "string \<Rightarrow> string" where
  "ascii_strip s = rev (dropWhile ascii_space (rev (dropWhile ascii_space s)))"

definition ascii_lower_char :: "char \<Rightarrow> char" where
  "ascii_lower_char c =
    (case map_of (zip ''ABCDEFGHIJKLMNOPQRSTUVWXYZ'' ''abcdefghijklmnopqrstuvwxyz'') c of
       None \<Rightarrow> c | Some l \<Rightarrow> l)"

definition ascii_lower :: "string \<Rightarrow> string" where
  "ascii_lower s = map ascii_lower_char s"

definition ascii_upper_char :: "char \<Rightarrow> char" where
  "ascii_upper_char c =
    (case map_of (zip ''abcdefghijklmnopqrstuvwxyz'' ''ABCDEFGHIJKLMNOPQRSTUVWXYZ'') c of
       None \<Rightarrow> c | Some u \<Rightarrow> u)"

definition ascii_alpha :: "char \<Rightarrow> bool" where
  "ascii_alpha c = (c \<in> set ''abcdefghijklmnopqrstuvwxyzABCDEFGHIJKLMNOPQRSTUVWXYZ'')"

fun ascii_title_from :: "bool \<Rightarrow> string \<Rightarrow> string" where
  "ascii_title_from previous_cased [] = []"
| "ascii_title_from previous_cased (c # cs) =
     (if ascii_alpha c
      then (if previous_cased then ascii_lower_char c else ascii_upper_char c)
             # ascii_title_from True cs
      else c # ascii_title_from False cs)"

definition ascii_title :: "string \<Rightarrow> string" where
  "ascii_title s = ascii_title_from False s"

definition ascii_digit :: "char \<Rightarrow> bool" where
  "ascii_digit c = (c \<in> set ''0123456789'')"

definition ascii_text :: pystr where
  "ascii_text =
    \<lparr> strip = ascii_strip, lower = ascii_lower, title = ascii_title, isdigit = ascii_digit \<rparr>"

section \<open>Properties of the tagger: definitions\<close>

text \<open>
  The label sets of the invariant: a label is allowed on an axis when it is a string
  that is a member of the axis's label list, or \<open>"Not Mentioned"\<close>, or the empty string.
\<close>

fun allowed_label :: "string list \<Rightarrow> 'n json \<Rightarrow> bool" where
  "allowed_label labels (JStr s) = (s \<in> set labels \<or> s = ''Not Mentioned'' \<or> s = [])"
| "allowed_label labels _ = False"

definition label_in_taxonomy :: "string list \<Rightarrow> 'n json option \<Rightarrow> bool" where
  "label_in_taxonomy labels v = (case v of Some c \<Rightarrow> allowed_label labels c | None \<Rightarrow> False)"

definition labels3_in_taxonomy :: "string list \<Rightarrow> 'n json option \<Rightarrow> bool" where
  "labels3_in_taxonomy labels v =
    (case v of Some (JList l) \<Rightarrow> length l = 3 \<and> list_all (allowed_label labels) l | _ \<Rightarrow> False)"

text \<open>A tag result (the dictionary returned by \<open>process_row\<close>) with allowed labels only.\<close>

definition result_in_taxonomy :: "taxonomy \<Rightarrow> 'n pydict \<Rightarrow> bool" where
  "result_in_taxonomy taxonomy result =
    (label_in_taxonomy (taxonomy ''Root Cause'') (map_of result ''root_cause'')
     \<and> list_all (\<lambda>(field_key, taxonomy_key).
           labels3_in_taxonomy (taxonomy taxonomy_key) (map_of result field_key)) list_fields)"

text \<open>The label columns of the output sheet, each with its axis.\<close>

definition label_columns :: "(string \<times> string) list" where
  "label_columns =
    [ (''Root Cause'', ''Root Cause''),
      (''Symptom Condition 1'', ''Symptom Condition''),
      (''Symptom Condition 2'', ''Symptom Condition''),
      (''Symptom Condition 3'', ''Symptom Condition''),
      (''Symptom Component 1'', ''Symptom Component''),
      (''Symptom Component 2'', ''Symptom Component''),
      (''Symptom Component 3'', ''Symptom Component''),
      (''Fix Condition 1'', ''Fix Condition''),
      (''Fix Condition 2'', ''Fix Condition''),
      (''Fix Condition 3'', ''Fix Condition''),
      (''Fix Component 1'', ''Fix Component''),
      (''Fix Component 2'', ''Fix Component''),
      (''Fix Component 3'', ''Fix Component'') ]"

definition cells_in_taxonomy :: "taxonomy \<Rightarrow> 'n pydict \<Rightarrow> bool" where
  "cells_in_taxonomy taxonomy cells =
     list_all (\<lambda>(column, axis). label_in_taxonomy (taxonomy axis) (map_of cells column))
       label_columns"

text \<open>The value the main loop writes for a list entry: \<open>val if val else "Not Mentioned"\<close>.\<close>

definition written :: "'n pynum \<Rightarrow> 'n json \<Rightarrow> 'n json" where
  "written ops val = (if py_truth ops val then val else JStr ''Not Mentioned'')"

text \<open>
  The specification of the multi-label validation, in the words of the claim: an
  element is bad when it is not \<open>"Not Mentioned"\<close>, not empty and not a taxonomy member;
  a bad element is replaced by \<open>"Not Mentioned"\<close>; the list is padded with empty strings
  to three entries or cut to three; a field that is absent or not a list becomes
  \<open>["Not Mentioned", "", ""]\<close>.
\<close>

definition bad_item :: "string list \<Rightarrow> 'n json \<Rightarrow> bool" where
  "bad_item labels item =
    (\<not> py_eq_str item ''Not Mentioned'' \<and> \<not> py_eq_str item [] \<and> \<not> py_in item labels)"

definition repaired_item :: "string list \<Rightarrow> 'n json \<Rightarrow> 'n json" where
  "repaired_item labels item = (if bad_item labels item then JStr ''Not Mentioned'' else item)"

definition validated_labels :: "string list \<Rightarrow> 'n json option \<Rightarrow> 'n json list" where
  "validated_labels labels v =
    (case v of
       Some (JList items) \<Rightarrow>
         take 3 (map (repaired_item labels) items @ replicate (3 - length items) (JStr []))
     | _ \<Rightarrow> [JStr ''Not Mentioned'', JStr [], JStr []])"

definition bad_count :: "string list \<Rightarrow> 'n json option \<Rightarrow> nat" where
  "bad_count labels v =
    (case v of Some (JList items) \<Rightarrow> length (filter (bad_item labels) items) | _ \<Rightarrow> 0)"

text \<open>The number of bad elements in all the list fields of a response.\<close>

definition bad_total :: "taxonomy \<Rightarrow> (string \<times> string) list \<Rightarrow> 'n pydict \<Rightarrow> nat" where
  "bad_total taxonomy fs d =
     sum_list (map (\<lambda>(field_key, taxonomy_key).
                 bad_count (taxonomy taxonomy_key) (map_of d field_key)) fs)"

text \<open>\<open>validated["confidence"] *= f\<close>, \<open>k\<close> times in a row.\<close>

fun scale_times :: "'n pynum \<Rightarrow> 'n \<Rightarrow> nat \<Rightarrow> 'n pydict \<Rightarrow> py_error + 'n pydict" where
  "scale_times ops f 0 validated = Inr validated"
| "scale_times ops f (Suc k) validated =
     (case scale_confidence ops f validated of
        Inl e \<Rightarrow> Inl e
      | Inr validated' \<Rightarrow> scale_times ops f k validated')"

text \<open>The validated lists of the response \<open>d\<close>, assigned to the dictionary \<open>d'\<close>.\<close>

definition write_fields ::
  "taxonomy \<Rightarrow> (string \<times> string) list \<Rightarrow> 'n pydict \<Rightarrow> 'n pydict \<Rightarrow> 'n pydict" where
  "write_fields taxonomy fs d d' =
     fold (\<lambda>(field_key, taxonomy_key).
             AList.update field_key
               (JList (validated_labels (taxonomy taxonomy_key) (map_of d field_key)))) fs d'"

text \<open>
  The row written for a failed call: every label column \<open>"Not Mentioned"\<close> and the
  confidence \<open>0.0\<close>.
\<close>

definition default_cells :: "'n pynum \<Rightarrow> 'n pydict \<Rightarrow> 'n pydict" where
  "default_cells ops cells =
     AList.update ''Confidence'' (JNum (lit_0_0 ops))
       (fold (\<lambda>(column, axis). AList.update column (JStr ''Not Mentioned'')) label_columns cells)"

text \<open>
  An instance for examples: exact rational arithmetic for the numbers, a taxonomy, a
  service that answers every prompt with one message, and the response it carries.
\<close>

definition exact_num :: "rat pynum" where
  "exact_num =
    \<lparr> py_mul = (\<lambda>x y. Some (x * y)), py_lt = (\<lambda>x y. x < y),
      py_of_bool = (\<lambda>b. if b then 1 else 0), py_nonzero = (\<lambda>x. x \<noteq> 0),
      lit_0_0 = 0, lit_0_7 = 7 / 10, lit_0_8 = 8 / 10, lit_0_9 = 9 / 10 \<rparr>"

definition example_taxonomy :: taxonomy where
  "example_taxonomy axis =
    (if axis = ''Root Cause'' then [''Wear'', ''Defect'']
     else if axis = ''Symptom Condition'' then [''Noise'', ''Loose'']
     else if axis = ''Symptom Component''
       then [''Steering wheel (main component)'', ''Horn mechanism'']
     else if axis = ''Fix Condition'' then [''Replaced'']
     else if axis = ''Fix Component'' then [''Steering wheel (main component)'']
     else [])"

definition example_row :: task_row where
  "example_row =
    \<lparr> complaint_cell = Some ''wheel makes clicking noise'', cause_cell = None,
      correction_cell = None \<rparr>"

definition example_output :: "rat pydict" where
  "example_output =
    [ (''root_cause'', JStr ''Not Mentioned''),
      (''symptom_condition'', JList [JStr ''Noise'']),
      (''symptom_component'', JList [JStr ''Steering Wheel'']),
      (''fix_condition'', JStr ''Replaced''),
      (''confidence'', JNum (95 / 100)) ]"

definition example_validated :: "rat pydict" where
  "example_validated =
    [ (''root_cause'', JStr ''Not Mentioned''),
      (''symptom_condition'', JList [JStr ''Noise'', JStr [], JStr []]),
      (''symptom_component'', JList [JStr ''Not Mentioned'', JStr [], JStr []]),
      (''fix_condition'', JList [JStr ''Not Mentioned'', JStr [], JStr []]),
      (''confidence'', JNum (171 / 200)),
      (''fix_component'', JList [JStr ''Not Mentioned'', JStr [], JStr []]) ]"

definition example_envelope :: "rat json" where
  "example_envelope =
    JDict [(''choices'', JList [JDict [(''message'', JDict [(''content'', JStr ''{}'')])]])]"

definition example_post :: "string \<Rightarrow> rat http_response" where
  "example_post prompt = Body example_envelope"

definition example_loads :: "string \<Rightarrow> rat json option" where
  "example_loads text = Some (JDict example_output)"

definition example_cells :: "rat pydict" where
  "example_cells =
    [ (''Root Cause'', JStr ''Not Mentioned''),
      (''Symptom Condition 1'', JStr ''Noise''),
      (''Symptom Condition 2'', JStr ''Not Mentioned''),
      (''Symptom Condition 3'', JStr ''Not Mentioned''),
      (''Symptom Component 1'', JStr ''Not Mentioned''),
      (''Symptom Component 2'', JStr ''Not Mentioned''),
      (''Symptom Component 3'', JStr ''Not Mentioned''),
      (''Fix Condition 1'', JStr ''Not Mentioned''),
      (''Fix Condition 2'', JStr ''Not Mentioned''),
      (''Fix Condition 3'', JStr ''Not Mentioned''),
      (''Fix Component 1'', JStr ''Not Mentioned''),
      (''Fix Component 2'', JStr ''Not Mentioned''),
      (''Fix Component 3'', JStr ''Not Mentioned''),
      (''Confidence'', JNum (171 / 200)) ]"

definition failing_post :: "string \<Rightarrow> rat http_response" where
  "failing_post prompt = PostRaises"

text \<open>A service whose message parses to a response without a confidence.\<close>

definition bare_loads :: "string \<Rightarrow> rat json option" where
  "bare_loads text = Some (JDict [(''root_cause'', JStr ''Not Mentioned'')])"

section \<open>Properties of the cached tagger: definitions\<close>

text \<open>
  The rows of a run that reach \<open>_call_llm\<close> (a row with no text is skipped), and the
  prompts they produce, in order.
\<close>

definition has_text :: "pystr \<Rightarrow> text_row \<Rightarrow> bool" where
  "has_text sm row = (\<not> (text_field sm (correction_text row) = []
                           \<and> text_field sm (customer_text row) = []))"

definition row_prompt_of :: "pystr \<Rightarrow> text_row \<Rightarrow> string" where
  "row_prompt_of sm row =
     tags_prompt (text_field sm (customer_text row)) (text_field sm (correction_text row))"

definition row_prompts :: "pystr \<Rightarrow> text_row list \<Rightarrow> string list" where
  "row_prompts sm rows = map (row_prompt_of sm) (filter (has_text sm) rows)"

text \<open>
  The invariant of the cache between calls: its keys are the hashes of the prompts
  requested so far, and no prompt was requested twice.
\<close>

definition cache_inv :: "(string \<Rightarrow> string) \<Rightarrow> 'n tagger \<Rightarrow> bool" where
  "cache_inv md5 s =
     (fst ` set (llm_cache s) = md5 ` set (requests s) \<and> distinct (requests s))"

text \<open>Any further calls of \<open>_call_llm\<close> in the same run, whatever they return.\<close>

definition call_many ::
  "pystr \<Rightarrow> (string \<Rightarrow> string) \<Rightarrow> (string \<Rightarrow> 'n json option) \<Rightarrow> (nat \<Rightarrow> string \<Rightarrow> 'n http_response)
    \<Rightarrow> string list \<Rightarrow> 'n tagger \<Rightarrow> 'n tagger" where
  "call_many sm md5 loads post prompts s =
     fold (\<lambda>prompt s. snd (call_llm sm md5 loads post prompt s)) prompts s"


text \<open>An instance for examples: a hash without collisions, two rows with the same text
  and one with another, a service that answers, and one that fails.\<close>

definition example_md5 :: "string \<Rightarrow> string" where
  "example_md5 prompt = prompt"

definition horn_row :: "text_row" where
  "horn_row =
    \<lparr> correction_text = Some ''replaced horn'', customer_text = Some ''horn inop'' \<rparr>"

definition horn_prompt :: string where
  "horn_prompt = tags_prompt ''horn inop'' ''replaced horn''"

definition horn_tags :: "rat json" where
  "horn_tags =
    JDict [ (''issues'', JList [JStr ''Horn malfunctions'']),
            (''components'', JList [JStr ''Horn mechanism'']),
            (''actions'', JList []) ]"

definition tags_loads :: "string \<Rightarrow> rat json option" where
  "tags_loads text =
     Some (JDict [ (''issues'', JList [JStr ''Horn malfunctions'']),
                   (''components'', JList [JStr ''Horn mechanism'']) ])"

definition tags_post :: "nat \<Rightarrow> string \<Rightarrow> rat http_response" where
  "tags_post i prompt = Body example_envelope"

definition down_post :: "nat \<Rightarrow> string \<Rightarrow> rat http_response" where
  "down_post i prompt = PostRaises"

definition horn_state :: "rat tagger" where
  "horn_state = \<lparr> llm_cache = [(horn_prompt, horn_tags)], requests = [horn_prompt] \<rparr>"

definition down_state :: "rat tagger" where
  "down_state = \<lparr> llm_cache = [(horn_prompt, empty_tags)], requests = [horn_prompt] \<rparr>"

section \<open>Properties of the rule-based tags: definitions\<close>

text \<open>
  An instance for examples: exact rational numbers, with \<open>float\<close> on the strings that
  the coercion produces (digits and dots only): Python accepts such a string when it
  has at least one digit and at most one dot; every other string is refused here.
\<close>

definition digit_value :: "char \<Rightarrow> nat" where
  "digit_value c = length (takeWhile (\<lambda>d. d \<noteq> c) ''0123456789'')"

definition digits_value :: "string \<Rightarrow> nat" where
  "digits_value s = foldl (\<lambda>n c. 10 * n + digit_value c) 0 s"

definition parse_decimal :: "string \<Rightarrow> rat option" where
  "parse_decimal s =
    (let whole = takeWhile (\<lambda>c. c \<noteq> CHR ''.'') s;
         frac = drop 1 (dropWhile (\<lambda>c. c \<noteq> CHR ''.'') s)
     in if list_all ascii_digit (whole @ frac) \<and> whole @ frac \<noteq> []
        then Some (of_nat (digits_value (whole @ frac)) / 10 ^ length frac)
        else None)"

definition exact_tagnum :: "rat tagnum" where
  "exact_tagnum =
    \<lparr> float_of_str = parse_decimal, float_of_int = of_int, num_of_int = of_int,
      num_minus = (\<lambda>x y. x - y), num_less = (\<lambda>x y. x < y), num_equal = (\<lambda>x y. x = y),
      num_true = (\<lambda>x. x \<noteq> 0) \<rparr>"

text \<open>A row with repair age 0 and an airbag complaint, and the same row with a
  mileage written with two dots.\<close>

definition airbag_row :: "rat repair_row" where
  "airbag_row =
    \<lparr> correction_verbatim = Some ''Airbag'', customer_verbatim = None,
      global_labor_code_description = None,
      repair_age = Some (PNum 0), km = Some (PStr ''12.500 km''), totalcost = Some (PNum 450),
      lbrcost = Some (PNum 100) \<rparr>"

definition dotted_km_row :: "rat repair_row" where
  "dotted_km_row = airbag_row \<lparr> km := Some (PStr ''1.234.567'') \<rparr>"

text \<open>The coercions of a row that succeed.\<close>

definition coercions_succeed :: "pystr \<Rightarrow> 'n tagnum \<Rightarrow> 'n repair_row \<Rightarrow> bool" where
  "coercions_succeed sm ops row =
    (\<not> isl (coerce_number sm ops (get_or_0 ops (km row)))
     \<and> \<not> isl (coerce_number sm ops (get_or_0 ops (totalcost row)))
     \<and> \<not> isl (coerce_number sm ops (get_or_0 ops (lbrcost row))))"

section \<open>Properties of the cleaner: definitions\<close>

text \<open>
  The column after the imputation step of a numerical column: unchanged when the
  profile reports no missing value, otherwise filled with the profile's median (the
  column's own median when the profile has none).
\<close>

definition median_value :: "'n pdnum \<Rightarrow> 'n profile \<Rightarrow> 'n cell list \<Rightarrow> 'n cell" where
  "median_value ops profile cells =
    (case profile_median profile of
       Some m \<Rightarrow> m
     | None \<Rightarrow> (case pd_median ops (nums cells) of None \<Rightarrow> NA | Some m \<Rightarrow> Num m))"

definition imputed :: "'n pdnum \<Rightarrow> 'n profile \<Rightarrow> 'n cell list \<Rightarrow> 'n cell list" where
  "imputed ops profile cells =
    (if missing_count profile > 0 then fillna (median_value ops profile cells) cells else cells)"

text \<open>
  The IQR rule in the words of the specification, written with the library's
  arithmetic alone: a cell with the number \<open>v\<close> is an outlier among the values \<open>vs\<close>
  when \<open>v < Q1 - 1.5 * IQR\<close> or \<open>v > Q3 + 1.5 * IQR\<close>, where \<open>Q1\<close> and \<open>Q3\<close> are the
  quantiles of \<open>vs\<close> at 0.25 and 0.75 and \<open>IQR = Q3 - Q1\<close>. A missing cell is no outlier,
  and no value is below or above a bound that is not a number.
\<close>

definition is_outlier :: "'n pdnum \<Rightarrow> 'n list \<Rightarrow> 'n cell \<Rightarrow> bool" where
  "is_outlier ops vs c =
    (case c of
       Num v \<Rightarrow>
         (case pd_quantile ops vs (pd_0_25 ops) of None \<Rightarrow> False | Some Q1 \<Rightarrow>
          case pd_quantile ops vs (pd_0_75 ops) of None \<Rightarrow> False | Some Q3 \<Rightarrow>
          case pd_minus ops Q3 Q1 of None \<Rightarrow> False | Some IQR \<Rightarrow>
          case pd_times ops (pd_1_5 ops) IQR of None \<Rightarrow> False | Some w \<Rightarrow>
            (case pd_minus ops Q1 w of None \<Rightarrow> False | Some low \<Rightarrow> pd_less ops v low)
            \<or> (case pd_plus ops Q3 w of None \<Rightarrow> False | Some high \<Rightarrow> pd_less ops high v))
     | _ \<Rightarrow> False)"

text \<open>The insights, as the source formats them.\<close>

definition outlier_insight :: "string \<Rightarrow> nat \<Rightarrow> string" where
  "outlier_insight col k =
     ''Flagged outliers in '' @ quoted col @ '' using IQR: '' @ str_nat k @ '' rows''"

definition median_insight ::
  "'n pdnum \<Rightarrow> string \<Rightarrow> 'n profile \<Rightarrow> 'n cell list \<Rightarrow> string list" where
  "median_insight ops col profile cells =
    (if missing_count profile > 0
     then [''Filled '' @ str_nat (missing_count profile) @ '' missing in '' @ quoted col
           @ '' with median: '' @ cell_str ops (median_value ops profile cells)]
     else [])"

definition mode_insight :: "string \<Rightarrow> nat \<Rightarrow> string \<Rightarrow> string" where
  "mode_insight col k fill =
     ''Filled '' @ str_nat k @ '' missing in '' @ quoted col @ '' with mode: '' @ fill"

definition normalize_insight :: "string \<Rightarrow> string" where
  "normalize_insight col = ''Standardized capitalization/spacing in '' @ quoted col"

definition skip_insight :: "string \<Rightarrow> string" where
  "skip_insight col = ''Skipping '' @ quoted col @ '' - no column_type detected''"

text \<open>
  The tie rule in the words of the specification: the values in frequency order,
  that is by descending count, values of equal count in order of first occurrence (the
  order of a frequency table such as \<open>value_counts()\<close> or \<open>Counter.most_common\<close>), and
  the first of them.
\<close>

definition frequency_order :: "'n cell list \<Rightarrow> 'n cell list" where
  "frequency_order cells =
    (let vs = dropna cells
     in sort_key (\<lambda>v. - int (count_list vs v)) (rev (remdups (rev vs))))"

text \<open>The flags of a profile that make a step run whenever the cleaner runs.\<close>

definition flagged :: "'n profile \<Rightarrow> bool" where
  "flagged profile =
    (column_type profile = Some ''categorical''
     \<and> ''Inconsistent capitalization or spacing'' \<in> set (potential_issues profile))"

definition has_outliers :: "'n profile \<Rightarrow> bool" where
  "has_outliers profile =
    (column_type profile = Some ''numerical''
     \<and> (case outlier_count profile of None \<Rightarrow> False | Some k \<Rightarrow> k > 0))"

definition normalized :: "pystr \<Rightarrow> 'n pdnum \<Rightarrow> 'n cell list \<Rightarrow> 'n cell list" where
  "normalized sm ops cells = map (\<lambda>c. Str (title sm (strip sm (cell_str ops c)))) cells"

text \<open>
  The conditions on a table and its profile map under which a second run is compared
  with the first. The profiles report no missing value. The name of an outlier column
  is not the name of a profiled column. And trimming and title-casing the trimmed and
  title-cased text of a flagged categorical column gives that text again: this is a
  condition on the text of the table, true of all ASCII text, that Python's
  \<open>str.title\<close> does not meet for every string.
\<close>

definition no_missing :: "string \<times> 'n profile \<Rightarrow> bool" where
  "no_missing item = (case item of (col, profile) \<Rightarrow> missing_count profile = 0)"

definition outlier_column_free :: "(string \<times> 'n profile) list \<Rightarrow> bool" where
  "outlier_column_free column_profiles =
     list_all (\<lambda>(col, profile). col @ ''_OUTLIER'' \<notin> set (map fst column_profiles))
       column_profiles"

definition title_stable :: "pystr \<Rightarrow> 'n pdnum \<Rightarrow> 'n table \<Rightarrow> string \<times> 'n profile \<Rightarrow> bool" where
  "title_stable sm ops df item =
    (case item of (col, profile) \<Rightarrow>
     \<not> flagged profile
     \<or> (case map_of df col of
          None \<Rightarrow> True
        | Some cells \<Rightarrow> normalized sm ops (normalized sm ops cells) = normalized sm ops cells))"

text \<open>
  An instance for examples: exact rational arithmetic; the quantile with linear
  interpolation between the two nearest ranks (the library's default) and the median
  as the quantile at one half; numbers printed with one decimal digit; no text parsed
  as dates.
\<close>

definition quantile_linear :: "rat list \<Rightarrow> rat \<Rightarrow> rat option" where
  "quantile_linear vs q =
    (if vs = [] then None
     else (let sorted = sort vs;
               pos = q * of_nat (length vs - 1);
               i = nat (floor pos);
               j = min (i + 1) (length vs - 1)
           in Some (sorted ! i + (sorted ! j - sorted ! i) * (pos - of_nat i))))"

definition exact_pd :: "rat pdnum" where
  "exact_pd =
    \<lparr> pd_quantile = quantile_linear, pd_median = (\<lambda>vs. quantile_linear vs (1 / 2)),
      pd_plus = (\<lambda>x y. Some (x + y)), pd_minus = (\<lambda>x y. Some (x - y)),
      pd_times = (\<lambda>x y. Some (x * y)), pd_less = (\<lambda>x y. x < y),
      pd_0_25 = 1 / 4, pd_0_75 = 3 / 4, pd_1_5 = 3 / 2,
      pd_str = (\<lambda>x. str_nat (nat (floor x)) @ ''.''
                     @ str_nat (nat (floor ((x - of_int (floor x)) * 10)))),
      pd_to_datetime = (\<lambda>cells. None),
      pd_date_median = (\<lambda>cells. NA),
      pd_date_str = (\<lambda>d. str_nat (nat d)) \<rparr>"

text \<open>The column \<open>[1, 2, 3, 4, 100]\<close>, with and without a missing value.\<close>

definition five_values :: "rat cell list" where
  "five_values = [Num 1, Num 2, Num 3, Num 4, Num 100]"

definition six_cells :: "rat cell list" where
  "six_cells = [Num 1, Num 2, NA, Num 3, Num 4, Num 100]"

definition outlier_profile :: "nat \<Rightarrow> rat profile" where
  "outlier_profile missing =
    \<lparr> name = ''x'', missing_count = missing, unique_count = 5, potential_issues = [],
      column_type = Some ''numerical'', profile_median = Some (Num 3),
      outlier_count = Some 1, potential_primary_key = Some (missing = 0) \<rparr>"

definition five_flags :: "rat cell list" where
  "five_flags = [Flag False, Flag False, Flag False, Flag False, Flag True]"

definition five_cleaned :: "rat table" where
  "five_cleaned = [(''x'', five_values), (''x_OUTLIER'', five_flags)]"

text \<open>A categorical column in which two values tie for most frequent.\<close>

definition tie_cells :: "rat cell list" where
  "tie_cells = [Str ''b'', Str ''a'', NA, Str ''b'', Str ''a'']"

definition tie_profile :: "rat profile" where
  "tie_profile =
    \<lparr> name = ''c'', missing_count = 1, unique_count = 2, potential_issues = [],
      column_type = Some ''categorical'', profile_median = None, outlier_count = None,
      potential_primary_key = Some False \<rparr>"

text \<open>
  A table without missing values: a numerical column with an outlier on each side,
  a categorical column with inconsistent capitalization and spacing, a column of
  timestamps and a text column; its profile map; and the table after cleaning.
\<close>

definition seven_values :: "rat cell list" where
  "seven_values = [Num (- 100), Num 1, Num 2, Num 3, Num 4, Num 5, Num 100]"

definition seven_flags :: "rat cell list" where
  "seven_flags =
    [Flag True, Flag False, Flag False, Flag False, Flag False, Flag False, Flag True]"

definition shop_table :: "rat table" where
  "shop_table =
    [ (''x'', seven_values),
      (''part'', [Str '' horn '', Str ''HORN'', Str ''trim'']),
      (''day'', [Date 3, Date 1, Date 2]),
      (''note'', [Str ''horn inop'', Str ''replaced horn'', Str []]) ]"

definition shop_profiles :: "(string \<times> rat profile) list" where
  "shop_profiles =
    [ (''x'', \<lparr> name = ''x'', missing_count = 0, unique_count = 7, potential_issues = [],
               column_type = Some ''numerical'', profile_median = Some (Num 3),
               outlier_count = Some 2, potential_primary_key = Some True \<rparr>),
      (''part'', \<lparr> name = ''part'', missing_count = 0, unique_count = 3,
                  potential_issues = [''Inconsistent capitalization or spacing''],
                  column_type = Some ''categorical'', profile_median = None,
                  outlier_count = None, potential_primary_key = Some True \<rparr>),
      (''day'', \<lparr> name = ''day'', missing_count = 0, unique_count = 3, potential_issues = [],
                 column_type = Some ''date'', profile_median = None, outlier_count = None,
                 potential_primary_key = Some True \<rparr>),
      (''note'', \<lparr> name = ''note'', missing_count = 0, unique_count = 3,
                  potential_issues = [], column_type = Some ''text'', profile_median = None,
                  outlier_count = None, potential_primary_key = Some True \<rparr>) ]"

definition shop_cleaned :: "rat table" where
  "shop_cleaned =
    [ (''x'', seven_values),
      (''part'', [Str ''Horn'', Str ''Horn'', Str ''Trim'']),
      (''day'', [Date 3, Date 1, Date 2]),
      (''note'', [Str ''horn inop'', Str ''replaced horn'', Str []]),
      (''x_OUTLIER'', seven_flags) ]"

definition shop_insights :: "string list" where
  "shop_insights =
    [ ''Flagged outliers in '' @ quoted ''x'' @ '' using IQR: 2 rows'',
      ''Standardized capitalization/spacing in '' @ quoted ''part'' ]"

section \<open>Properties of the profiler: definitions\<close>

text \<open>
  An instance for examples: text converts to numbers when every cell is a number or a
  string of digits with at most one dot; no text parses as a date; a column is of
  string type when it is stored as strings, or as objects that are all strings; the
  accessor \<open>.str\<close> exists when some cell is a string or all are missing; the percentage
  test in exact arithmetic.
\<close>

fun cell_number :: "rat cell \<Rightarrow> rat option" where
  "cell_number (Num v) = Some v"
| "cell_number (Str s) = parse_decimal s"
| "cell_number _ = None"

fun all_numbers :: "rat cell list \<Rightarrow> rat list option" where
  "all_numbers [] = Some []"
| "all_numbers (c # cs) =
     (case cell_number c of
        None \<Rightarrow> None
      | Some v \<Rightarrow> map_option (\<lambda>vs. v # vs) (all_numbers cs))"

definition exact_infer :: "rat pdinfer" where
  "exact_infer =
    \<lparr> to_numeric = all_numbers, parses_as_dates = (\<lambda>cells. False),
      is_string_dtype = (\<lambda>dtype cells. dtype = StringDtype
                           \<or> (dtype = ObjectDtype \<and> list_all is_str (dropna cells))),
      str_accessor = (\<lambda>cells. list_ex is_str cells \<or> dropna cells = []),
      percent_above_5 = (\<lambda>k n. 5 * n < k * 100) \<rparr>"

text \<open>A column of identifiers, stored as text and stored as numbers.\<close>

definition id_text :: "rat cell list" where
  "id_text = [Str ''1'', Str ''2'', Str ''3'']"

definition id_numbers :: "rat cell list" where
  "id_numbers = [Num 1, Num 2, Num 3]"

text \<open>The numbers \<open>1, 2, 3, 4, 100\<close> stored as text, and the profile the profiler
  gives the column.\<close>

definition five_texts :: "rat cell list" where
  "five_texts = [Str ''1'', Str ''2'', Str ''3'', Str ''4'', Str ''100'']"

definition five_texts_profile :: "rat profile" where
  "five_texts_profile =
    \<lparr> name = ''x'', missing_count = 0, unique_count = 5,
      potential_issues = [''High outlier percentage''],
      column_type = Some ''numerical'', profile_median = Some (Num 3),
      outlier_count = Some 1, potential_primary_key = None \<rparr>"

text \<open>The profile the profiler gives the identifiers stored as text.\<close>

definition id_text_profile :: "rat profile" where
  "id_text_profile =
    \<lparr> name = ''id'', missing_count = 0, unique_count = 3, potential_issues = [],
      column_type = Some ''numerical'', profile_median = Some (Num 2),
      outlier_count = Some 0, potential_primary_key = None \<rparr>"

section \<open>Properties of the tagger: proofs\<close>

subsection \<open>The loops of \<open>validate_llm_output\<close>\<close>

lemma str_nat_small [simp]:
  "str_nat (Suc 0) = ''1''" "str_nat (Suc (Suc 0)) = ''2''" "str_nat (Suc (Suc (Suc 0))) = ''3''"
  by (simp_all add: str_nat.simps digit_char_def)

lemma pad_valid_list_eq:
  "pad_valid_list vl = vl @ replicate (3 - length vl) (JStr [])"
proof (induction vl rule: pad_valid_list.induct)
  case (1 vl)
  show ?case
  proof (cases "length vl < 3")
    case True
    then have "pad_valid_list vl = pad_valid_list (vl @ [JStr []])"
      by (subst pad_valid_list.simps) simp
    also have "\<dots> = (vl @ [JStr []]) @ replicate (3 - length (vl @ [JStr []])) (JStr [])"
      using 1 True by simp
    also have "\<dots> = vl @ replicate (3 - length vl) (JStr [])"
      using True by (simp add: replicate_app_Cons_same Suc_diff_Suc flip: replicate_Suc)
    finally show ?thesis .
  next
    case False
    then show ?thesis by (subst pad_valid_list.simps) simp
  qed
qed

lemma item_ok_iff: "item_ok labels item \<longleftrightarrow> \<not> bad_item labels item"
  by (auto simp: item_ok_def bad_item_def)

lemma validate_items_eq:
  "validate_items ops labels items acc d =
    (case scale_times ops (lit_0_9 ops) (length (filter (bad_item labels) items)) d of
       Inl e \<Rightarrow> Inl e
     | Inr d' \<Rightarrow> Inr (acc @ map (repaired_item labels) items, d'))"
proof (induction items arbitrary: acc d)
  case Nil
  then show ?case by simp
next
  case (Cons item items)
  show ?case
  proof (cases "item_ok labels item")
    case True
    then have "\<not> bad_item labels item" "repaired_item labels item = item"
      by (simp_all add: item_ok_iff repaired_item_def)
    then show ?thesis using True Cons.IH by (simp split: sum.splits)
  next
    case False
    then have "bad_item labels item" "repaired_item labels item = JStr ''Not Mentioned''"
      by (simp_all add: item_ok_iff repaired_item_def)
    then show ?thesis using False Cons.IH by (simp split: sum.splits)
  qed
qed

lemma scale_confidence_frame:
  "scale_confidence ops f d = Inr d' \<Longrightarrow> k \<noteq> ''confidence'' \<Longrightarrow> map_of d' k = map_of d k"
  by (auto simp: scale_confidence_def update_conv' split: option.splits sum.splits)

lemma scale_times_frame:
  "scale_times ops f n d = Inr d' \<Longrightarrow> k \<noteq> ''confidence'' \<Longrightarrow> map_of d' k = map_of d k"
proof (induction n arbitrary: d)
  case 0
  then show ?case by simp
next
  case (Suc n)
  then show ?case
    by (auto split: sum.splits dest: scale_confidence_frame)
qed

lemma update_swap_present:
  assumes "c \<in> fst ` set d" "k \<noteq> c"
  shows "AList.update c x (AList.update k v d) = AList.update k v (AList.update c x d)"
  using assms by (induction d) auto

lemma scale_confidence_update:
  assumes "k \<noteq> ''confidence''"
  shows "scale_confidence ops f (AList.update k v d) =
    (case scale_confidence ops f d of Inl e \<Rightarrow> Inl e | Inr d' \<Rightarrow> Inr (AList.update k v d'))"
proof (cases "map_of d ''confidence''")
  case None
  then show ?thesis using assms by (simp add: scale_confidence_def update_conv')
next
  case (Some c)
  then have "''confidence'' \<in> fst ` set d"
    by (metis map_of_eq_None_iff option.distinct(1))
  then show ?thesis using assms Some
    by (auto simp: scale_confidence_def update_conv' update_swap_present split: sum.splits)
qed

lemma scale_times_update:
  assumes "k \<noteq> ''confidence''"
  shows "scale_times ops f n (AList.update k v d) =
    (case scale_times ops f n d of Inl e \<Rightarrow> Inl e | Inr d' \<Rightarrow> Inr (AList.update k v d'))"
proof (induction n arbitrary: d)
  case 0
  then show ?case by simp
next
  case (Suc n)
  then show ?case using assms by (simp add: scale_confidence_update split: sum.splits)
qed

lemma scale_times_add:
  "scale_times ops f (m + n) d =
    (case scale_times ops f m d of Inl e \<Rightarrow> Inl e | Inr d' \<Rightarrow> scale_times ops f n d')"
  by (induction m arbitrary: d) (auto split: sum.splits)

lemma length_validated_labels: "length (validated_labels labels v) = 3"
  by (auto simp: validated_labels_def split: option.splits json.splits)

lemma validate_field_spec:
  "validate_field ops taxonomy (fk, tk) d =
    (case scale_times ops (lit_0_9 ops) (bad_count (taxonomy tk) (map_of d fk)) d of
       Inl e \<Rightarrow> Inl e
     | Inr d' \<Rightarrow> Inr (AList.update fk (JList (validated_labels (taxonomy tk) (map_of d fk))) d'))"
proof (cases "\<exists>items. map_of d fk = Some (JList items)")
  case True
  then obtain items where it: "map_of d fk = Some (JList items)" by blast
  show ?thesis
    by (simp add: validate_field_def validate_items_eq pad_valid_list_eq it bad_count_def
        validated_labels_def split: sum.splits)
next
  case False
  then show ?thesis
    by (auto simp: validate_field_def bad_count_def validated_labels_def
        split: option.splits json.splits)
qed

lemma validate_fields_spec:
  assumes "distinct (map fst fs)" "''confidence'' \<notin> fst ` set fs"
  shows "validate_fields ops taxonomy fs d =
    (case scale_times ops (lit_0_9 ops) (bad_total taxonomy fs d) d of
       Inl e \<Rightarrow> Inl e
     | Inr d' \<Rightarrow> Inr (write_fields taxonomy fs d d'))"
  using assms
proof (induction fs arbitrary: d)
  case Nil
  then show ?case by (simp add: bad_total_def write_fields_def)
next
  case (Cons f fs)
  obtain fk tk where f: "f = (fk, tk)" by (cases f)
  have fk: "fk \<notin> fst ` set fs" "fk \<noteq> ''confidence''" and
    d: "distinct (map fst fs)" "''confidence'' \<notin> fst ` set fs"
    using Cons.prems by (auto simp: f)
  let ?n1 = "bad_count (taxonomy tk) (map_of d fk)"
  let ?L = "JList (validated_labels (taxonomy tk) (map_of d fk))"
  show ?case
  proof (cases "scale_times ops (lit_0_9 ops) ?n1 d")
    case (Inl e)
    then show ?thesis
      by (simp add: f validate_field_spec bad_total_def scale_times_add)
  next
    case (Inr d1)
    have same: "map_of (AList.update fk ?L d1) k = map_of d k" if "(k, t) \<in> set fs" for k t
    proof -
      from that have "k \<in> fst ` set fs" by force
      then have "k \<noteq> fk" "k \<noteq> ''confidence''" using fk d by blast+
      then show ?thesis using scale_times_frame[OF Inr] by (simp add: update_conv')
    qed
    have bt: "bad_total taxonomy fs (AList.update fk ?L d1) = bad_total taxonomy fs d"
      unfolding bad_total_def
      by (rule arg_cong[where f = sum_list], rule map_cong) (auto simp: same)
    have wf: "\<And>d'. write_fields taxonomy fs (AList.update fk ?L d1) d'
                = write_fields taxonomy fs d d'"
      unfolding write_fields_def
      by (rule fold_cong) (auto simp: same)
    have "validate_fields ops taxonomy (f # fs) d
        = validate_fields ops taxonomy fs (AList.update fk ?L d1)"
      by (simp add: f validate_field_spec Inr)
    also have "\<dots> = (case scale_times ops (lit_0_9 ops) (bad_total taxonomy fs d) d1 of
         Inl e \<Rightarrow> Inl e
       | Inr d' \<Rightarrow> Inr (write_fields taxonomy fs d (AList.update fk ?L d')))"
      using Cons.IH[OF d, of "AList.update fk ?L d1"]
      by (simp add: bt wf scale_times_update[OF fk(2)] split: sum.splits)
    also have "\<dots> = (case scale_times ops (lit_0_9 ops) (bad_total taxonomy (f # fs) d) d of
         Inl e \<Rightarrow> Inl e
       | Inr d' \<Rightarrow> Inr (write_fields taxonomy (f # fs) d d'))"
      by (simp add: f bad_total_def scale_times_add Inr write_fields_def split: sum.splits)
    finally show ?thesis .
  qed
qed

lemma map_of_write_fields:
  assumes "distinct (map fst fs)" "(fk, tk) \<in> set fs"
  shows "map_of (write_fields taxonomy fs d d') fk
           = Some (JList (validated_labels (taxonomy tk) (map_of d fk)))"
  using assms
proof (induction fs arbitrary: d' rule: rev_induct)
  case Nil
  then show ?case by simp
next
  case (snoc f fs)
  obtain k t where f: "f = (k, t)" by (cases f)
  show ?case
  proof (cases "(fk, tk) \<in> set fs")
    case True
    then have "k \<noteq> fk" using snoc.prems by (force simp: f)
    then show ?thesis using snoc True by (simp add: write_fields_def f update_conv')
  next
    case False
    then have "(fk, tk) = (k, t)" using snoc.prems by (simp add: f)
    then show ?thesis by (simp add: write_fields_def f update_conv')
  qed
qed

lemma map_of_write_fields_other:
  assumes "k \<notin> fst ` set fs"
  shows "map_of (write_fields taxonomy fs d d') k = map_of d' k"
  using assms
proof (induction fs arbitrary: d')
  case Nil
  then show ?case by (simp add: write_fields_def)
next
  case (Cons f fs)
  then show ?case by (cases f) (auto simp: write_fields_def update_conv')
qed

lemma validate_root_cause_frame:
  assumes "validate_root_cause ops taxonomy d = Inr d'" "k \<noteq> ''root_cause''"
    "k \<noteq> ''confidence''"
  shows "map_of d' k = map_of d k"
  using assms scale_confidence_frame[of ops "lit_0_8 ops"
      "AList.update ''root_cause'' (JStr ''Not Mentioned'') d" d' k]
  by (auto simp: validate_root_cause_def update_conv' split: if_splits)

lemma list_fields_keys:
  "distinct (map fst list_fields)" "''confidence'' \<notin> fst ` set list_fields"
  "''root_cause'' \<notin> fst ` set list_fields"
  by (simp_all add: list_fields_def)

lemma validate_llm_output_spec:
  "validate_llm_output ops (JDict llm_output) taxonomy =
     (case validate_root_cause ops taxonomy llm_output of
        Inl e \<Rightarrow> Inl e
      | Inr validated \<Rightarrow>
          (case scale_times ops (lit_0_9 ops) (bad_total taxonomy list_fields llm_output)
                  validated of
             Inl e \<Rightarrow> Inl e
           | Inr validated' \<Rightarrow> Inr (write_fields taxonomy list_fields llm_output validated')))"
proof (cases "validate_root_cause ops taxonomy llm_output")
  case (Inl e)
  then show ?thesis by simp
next
  case (Inr d1)
  have same: "map_of d1 k = map_of llm_output k" if "(k, t) \<in> set list_fields" for k t
    using validate_root_cause_frame[OF Inr, of k] that by (auto simp: list_fields_def)
  have bt: "bad_total taxonomy list_fields d1 = bad_total taxonomy list_fields llm_output"
    unfolding bad_total_def
    by (rule arg_cong[where f = sum_list], rule map_cong) (auto simp: same)
  have wf: "\<And>d'. write_fields taxonomy list_fields d1 d'
               = write_fields taxonomy list_fields llm_output d'"
    unfolding write_fields_def by (rule fold_cong) (auto simp: same)
  show ?thesis
    by (simp add: Inr validate_fields_spec[OF list_fields_keys(1,2)] bt wf split: sum.splits)
qed

subsection \<open>Validated results carry allowed labels only\<close>

lemma py_in_iff: "py_in item labels \<longleftrightarrow> (\<exists>s. item = JStr s \<and> s \<in> set labels)"
  by (cases item) (auto simp: py_in_def list_ex_iff)

lemma allowed_repaired: "allowed_label labels (repaired_item labels item)"
  by (cases item) (auto simp: repaired_item_def bad_item_def py_in_iff)

lemma allowed_written: "allowed_label labels v \<Longrightarrow> allowed_label labels (written ops v)"
  by (cases v) (auto simp: written_def)

lemma labels3_validated_labels:
  "labels3_in_taxonomy labels (Some (JList (validated_labels labels v)))"
proof -
  have "list_all (allowed_label labels) (validated_labels labels v)"
    by (auto simp: validated_labels_def list_all_iff allowed_repaired
        split: option.splits json.splits dest!: in_set_takeD)
  then show ?thesis by (simp add: labels3_in_taxonomy_def length_validated_labels)
qed

lemma validate_root_cause_ok:
  assumes "validate_root_cause ops taxonomy d = Inr d'"
  shows "label_in_taxonomy (taxonomy ''Root Cause'') (map_of d' ''root_cause'')"
proof (cases "\<not> py_in (dict_get_or_none d ''root_cause'') (taxonomy ''Root Cause'')
        \<and> \<not> py_eq_str (dict_get_or_none d ''root_cause'') ''Not Mentioned''")
  case True
  then have "scale_confidence ops (lit_0_8 ops)
            (AList.update ''root_cause'' (JStr ''Not Mentioned'') d) = Inr d'"
    using assms by (simp add: validate_root_cause_def)
  from scale_confidence_frame[OF this, of "''root_cause''"]
  show ?thesis by (simp add: label_in_taxonomy_def update_conv')
next
  case False
  then have "d' = d" using assms by (auto simp: validate_root_cause_def)
  moreover from False obtain s where "dict_get_or_none d ''root_cause'' = JStr s"
    "s \<in> set (taxonomy ''Root Cause'') \<or> s = ''Not Mentioned''"
    by (cases "dict_get_or_none d ''root_cause''") (auto simp: py_in_iff)
  ultimately show ?thesis
    by (auto simp: label_in_taxonomy_def dict_get_or_none_def split: option.splits)
qed

lemma validate_llm_output_ok:
  assumes "validate_llm_output ops llm_output taxonomy = Inr v"
  shows "result_in_taxonomy taxonomy v"
proof -
  from assms obtain d where d: "llm_output = JDict d"
    by (cases llm_output) auto
  from assms obtain d1 d2 where d1: "validate_root_cause ops taxonomy d = Inr d1"
    and d2: "scale_times ops (lit_0_9 ops) (bad_total taxonomy list_fields d) d1 = Inr d2"
    and v: "v = write_fields taxonomy list_fields d d2"
    unfolding d validate_llm_output_spec by (auto split: sum.splits)
  have "map_of v ''root_cause'' = map_of d1 ''root_cause''"
    using scale_times_frame[OF d2, of "''root_cause''"]
    by (simp add: v map_of_write_fields_other[OF list_fields_keys(3)])
  then have "label_in_taxonomy (taxonomy ''Root Cause'') (map_of v ''root_cause'')"
    using validate_root_cause_ok[OF d1] by simp
  moreover have "labels3_in_taxonomy (taxonomy tk) (map_of v fk)"
    if "(fk, tk) \<in> set list_fields" for fk tk
    by (simp add: v map_of_write_fields[OF list_fields_keys(1) that] labels3_validated_labels)
  ultimately show ?thesis
    by (auto simp: result_in_taxonomy_def list_all_iff)
qed

lemma default_result_ok: "result_in_taxonomy taxonomy (default_result ops)"
  by (simp add: result_in_taxonomy_def default_result_def label_in_taxonomy_def
      labels3_in_taxonomy_def list_fields_def)

lemma process_row_ok: "result_in_taxonomy taxonomy (process_row sm ops loads post row taxonomy)"
  by (auto simp: process_row_def Let_def default_result_ok validate_llm_output_ok
      split: sum.splits)

subsection \<open>The row written by the main loop\<close>

lemma write_axis_3:
  assumes "map_of result fk = Some (JList [a, b, c])"
  shows "write_axis ops result (fk, column) cells =
     Inr (AList.update (column @ '' 3'') (written ops c)
           (AList.update (column @ '' 2'') (written ops b)
             (AList.update (column @ '' 1'') (written ops a) cells)))"
  using assms by (simp add: write_axis_def written_def)

lemma labels3_in_taxonomyD:
  assumes "labels3_in_taxonomy labels v"
  obtains a b c where "v = Some (JList [a, b, c])" "allowed_label labels a"
    "allowed_label labels b" "allowed_label labels c"
proof -
  from assms obtain l where l: "v = Some (JList l)" "length l = 3"
      "list_all (allowed_label labels) l"
    by (auto simp: labels3_in_taxonomy_def split: option.splits json.splits)
  then obtain a b c where "l = [a, b, c]"
    by (cases l; cases "tl l"; cases "tl (tl l)") auto
  with l that show thesis by auto
qed

lemma write_result_ok:
  assumes ok: "result_in_taxonomy taxonomy result"
    and w: "write_result ops result cells = Inr cells'"
  shows "cells_in_taxonomy taxonomy cells'"
proof -
  from ok obtain rc where rc: "map_of result ''root_cause'' = Some rc"
      "allowed_label (taxonomy ''Root Cause'') rc"
    by (auto simp: result_in_taxonomy_def label_in_taxonomy_def split: option.splits)
  from ok have f:
     "labels3_in_taxonomy (taxonomy ''Symptom Condition'') (map_of result ''symptom_condition'')"
     "labels3_in_taxonomy (taxonomy ''Symptom Component'') (map_of result ''symptom_component'')"
     "labels3_in_taxonomy (taxonomy ''Fix Condition'') (map_of result ''fix_condition'')"
     "labels3_in_taxonomy (taxonomy ''Fix Component'') (map_of result ''fix_component'')"
    by (simp_all add: result_in_taxonomy_def list_fields_def)
  from f(1) obtain a1 b1 c1 where
     1: "map_of result ''symptom_condition'' = Some (JList [a1, b1, c1])"
     "allowed_label (taxonomy ''Symptom Condition'') a1"
     "allowed_label (taxonomy ''Symptom Condition'') b1"
     "allowed_label (taxonomy ''Symptom Condition'') c1" by (rule labels3_in_taxonomyD)
  from f(2) obtain a2 b2 c2 where
     2: "map_of result ''symptom_component'' = Some (JList [a2, b2, c2])"
     "allowed_label (taxonomy ''Symptom Component'') a2"
     "allowed_label (taxonomy ''Symptom Component'') b2"
     "allowed_label (taxonomy ''Symptom Component'') c2" by (rule labels3_in_taxonomyD)
  from f(3) obtain a3 b3 c3 where
     3: "map_of result ''fix_condition'' = Some (JList [a3, b3, c3])"
     "allowed_label (taxonomy ''Fix Condition'') a3"
     "allowed_label (taxonomy ''Fix Condition'') b3"
     "allowed_label (taxonomy ''Fix Condition'') c3" by (rule labels3_in_taxonomyD)
  from f(4) obtain a4 b4 c4 where
     4: "map_of result ''fix_component'' = Some (JList [a4, b4, c4])"
     "allowed_label (taxonomy ''Fix Component'') a4"
     "allowed_label (taxonomy ''Fix Component'') b4"
     "allowed_label (taxonomy ''Fix Component'') c4" by (rule labels3_in_taxonomyD)
  from w obtain conf where conf: "map_of result ''confidence'' = Some conf"
    by (auto simp: write_result_def split: sum.splits option.splits)
  have cells': "cells' = AList.update ''Confidence'' conf
     (AList.update ''Fix Component 3'' (written ops c4)
     (AList.update ''Fix Component 2'' (written ops b4)
     (AList.update ''Fix Component 1'' (written ops a4)
     (AList.update ''Fix Condition 3'' (written ops c3)
     (AList.update ''Fix Condition 2'' (written ops b3)
     (AList.update ''Fix Condition 1'' (written ops a3)
     (AList.update ''Symptom Component 3'' (written ops c2)
     (AList.update ''Symptom Component 2'' (written ops b2)
     (AList.update ''Symptom Component 1'' (written ops a2)
     (AList.update ''Symptom Condition 3'' (written ops c1)
     (AList.update ''Symptom Condition 2'' (written ops b1)
     (AList.update ''Symptom Condition 1'' (written ops a1)
     (AList.update ''Root Cause'' rc cells)))))))))))))"
    using w rc(1) conf
    by (simp add: write_result_def write_axis_3[OF 1(1)] write_axis_3[OF 2(1)]
         write_axis_3[OF 3(1)] write_axis_3[OF 4(1)])
  show ?thesis
    unfolding cells_in_taxonomy_def label_columns_def cells'
    using rc(2) 1(2-4) 2(2-4) 3(2-4) 4(2-4)
    by (simp add: update_conv' label_in_taxonomy_def allowed_written)
qed

lemma write_result_default:
  "write_result ops (default_result ops) cells = Inr (default_cells ops cells)"
  by (simp add: write_result_def default_result_def write_axis_def default_cells_def
      label_columns_def)

lemma validate_default_result:
  "validate_llm_output ops (JDict (default_result ops)) taxonomy = Inr (default_result ops)"
  by (simp add: default_result_def validate_root_cause_def dict_get_or_none_def list_fields_def
      validate_field_def item_ok_def pad_valid_list_eq)

lemma example_validate:
  "validate_llm_output exact_num (JDict example_output) example_taxonomy = Inr example_validated"
  by (simp add: example_output_def example_validated_def example_taxonomy_def exact_num_def
      validate_root_cause_def dict_get_or_none_def py_in_def list_fields_def validate_field_def
      item_ok_def scale_confidence_def pad_valid_list_eq eval_nat_numeral)

lemma example_call_llm_api:
  "call_llm_api ascii_text exact_num example_loads example_post prompt = JDict example_output"
  by (simp add: call_llm_api_def call_llm_api_try_def example_post_def
      example_envelope_def message_content_def example_loads_def)

lemma example_process_row:
  "process_row ascii_text exact_num example_loads example_post example_row example_taxonomy
     = example_validated"
  unfolding process_row_def Let_def example_call_llm_api example_validate by simp

lemma example_tag_row:
  "tag_row ascii_text exact_num example_loads example_post example_taxonomy example_row []
     = Inr example_cells"
  unfolding tag_row_def example_process_row
  by (simp add: write_result_def write_axis_def example_validated_def example_cells_def
      exact_num_def)


text \<open>
  When the call fails inside \<open>call_llm_api\<close> (the request raises, the status check
  raises, the body is not JSON, the response lacks \<open>choices[0].message.content\<close>, or the
  content does not parse as JSON), \<open>process_row\<close> returns the default result: root cause
  \<open>"Not Mentioned"\<close>, every list \<open>["Not Mentioned", "", ""]\<close>, confidence \<open>0.0\<close>. The loop
  body does not raise: it writes the row, with \<open>"Not Mentioned"\<close> in every label column
  and confidence \<open>0.0\<close>, and the row passes the filter \<open>Confidence < 0.7\<close> of the report
  (given that \<open>0.0 < 0.7\<close> holds for the numbers).
\<close>

lemma service_failure_gives_default:
  assumes "post (row_prompt row taxonomy) = PostRaises
     \<or> post (row_prompt row taxonomy) = StatusRaises
     \<or> post (row_prompt row taxonomy) = BodyRaises
     \<or> (\<exists>envelope e. post (row_prompt row taxonomy) = Body envelope
           \<and> message_content envelope = Inl e)
     \<or> (\<exists>envelope s. post (row_prompt row taxonomy) = Body envelope
           \<and> message_content envelope = Inr (JStr s) \<and> loads (extract_json_str sm s) = None)"
    and "py_lt ops (lit_0_0 ops) (lit_0_7 ops)"
  shows "process_row sm ops loads post row taxonomy = default_result ops
    \<and> tag_row sm ops loads post taxonomy row cells = Inr (default_cells ops cells)
    \<and> (\<forall>(column, axis) \<in> set label_columns.
          map_of (default_cells ops cells) column = Some (JStr ''Not Mentioned''))
    \<and> map_of (default_cells ops cells) ''Confidence'' = Some (JNum (lit_0_0 ops))
    \<and> low_confidence ops (default_cells ops cells)"
proof -
  from assms(1) have "\<exists>e. call_llm_api_try sm loads post (row_prompt row taxonomy) = Inl e"
    by (auto simp: call_llm_api_try_def)
  then have "call_llm_api sm ops loads post (row_prompt row taxonomy)
      = JDict (default_result ops)"
    by (auto simp: call_llm_api_def)
  then have p: "process_row sm ops loads post row taxonomy = default_result ops"
    unfolding process_row_def Let_def by (simp only: validate_default_result sum.case)
  have c: "map_of (default_cells ops cells) ''Confidence'' = Some (JNum (lit_0_0 ops))"
    by (simp add: default_cells_def update_conv')
  have "\<forall>(column, axis) \<in> set label_columns.
          map_of (default_cells ops cells) column = Some (JStr ''Not Mentioned'')"
    by (simp add: default_cells_def label_columns_def update_conv')
  moreover have "low_confidence ops (default_cells ops cells)"
    using assms(2) by (simp add: low_confidence_def c)
  ultimately show ?thesis
    using p c by (simp add: tag_row_def write_result_default)
qed

lemma failing_post_gives_default:
  "process_row ascii_text exact_num example_loads failing_post example_row example_taxonomy
       = default_result exact_num
   \<and> tag_row ascii_text exact_num example_loads failing_post example_taxonomy example_row []
       = Inr (default_cells exact_num [])
   \<and> low_confidence exact_num (default_cells exact_num [])"
proof -
  have a: "failing_post (row_prompt example_row example_taxonomy) = PostRaises"
    by (simp add: failing_post_def)
  have b: "py_lt exact_num (lit_0_0 exact_num) (lit_0_7 exact_num)"
    by (simp add: exact_num_def)
  show ?thesis
    using service_failure_gives_default[where post = failing_post and row = example_row
        and taxonomy = example_taxonomy and loads = example_loads and ops = exact_num
        and sm = ascii_text and cells = "[]"] a b
    by blast
qed

subsection \<open>The claims about the taxonomy-constrained tagger\<close>

text \<open>
  C1. Every label of a validated tag result is a member of its axis's taxonomy list, or
  \<open>"Not Mentioned"\<close>, or the empty string. \<open>validate_llm_output\<close> gives this for every
  response on which it returns (a response that makes it raise is replaced by the
  default result in \<open>process_row\<close>), so the result of \<open>process_row\<close> has it for every
  service behaviour, and so has every row the main loop writes: each of the thirteen
  label columns holds an allowed label of its axis.
\<close>

theorem emitted_labels_in_taxonomy:
  "(validate_llm_output ops llm_output taxonomy = Inr validated
      \<longrightarrow> result_in_taxonomy taxonomy validated)
   \<and> result_in_taxonomy taxonomy (process_row sm ops loads post row taxonomy)
   \<and> (tag_row sm ops loads post taxonomy row cells = Inr cells'
      \<longrightarrow> cells_in_taxonomy taxonomy cells')"
proof (intro conjI impI)
  assume "validate_llm_output ops llm_output taxonomy = Inr validated"
  then show "result_in_taxonomy taxonomy validated" by (rule validate_llm_output_ok)
next
  show "result_in_taxonomy taxonomy (process_row sm ops loads post row taxonomy)"
    by (rule process_row_ok)
next
  assume "tag_row sm ops loads post taxonomy row cells = Inr cells'"
  then show "cells_in_taxonomy taxonomy cells'"
    unfolding tag_row_def by (rule write_result_ok[OF process_row_ok])
qed

theorem emitted_labels_in_taxonomy_witness:
  "validate_llm_output exact_num (JDict example_output) example_taxonomy = Inr example_validated
   \<and> result_in_taxonomy example_taxonomy example_validated
   \<and> result_in_taxonomy example_taxonomy
       (process_row ascii_text exact_num example_loads example_post example_row example_taxonomy)
   \<and> tag_row ascii_text exact_num example_loads example_post example_taxonomy example_row []
       = Inr example_cells
   \<and> cells_in_taxonomy example_taxonomy example_cells"
  using emitted_labels_in_taxonomy[of exact_num "JDict example_output" example_taxonomy
      example_validated ascii_text example_loads example_post example_row "[]" example_cells]
    example_validate example_tag_row
  by blast

text \<open>
  C2. On a dictionary response, \<open>validate_llm_output\<close> is the root-cause step followed
  by one multiplication of the confidence by \<open>0.9\<close> for every bad element of every list
  field (all elements are checked, also those beyond the third), and by the assignment
  to every list field of its repaired list, padded with empty strings or cut to three
  entries. When it returns, every list field holds exactly that list, of length 3.
\<close>

theorem multi_label_validation:
  "validate_llm_output ops (JDict llm_output) taxonomy =
     (case validate_root_cause ops taxonomy llm_output of
        Inl e \<Rightarrow> Inl e
      | Inr validated \<Rightarrow>
          (case scale_times ops (lit_0_9 ops) (bad_total taxonomy list_fields llm_output)
                  validated of
             Inl e \<Rightarrow> Inl e
           | Inr validated' \<Rightarrow> Inr (write_fields taxonomy list_fields llm_output validated')))
   \<and> (validate_llm_output ops (JDict llm_output) taxonomy = Inr v \<longrightarrow>
        (\<forall>(field_key, taxonomy_key) \<in> set list_fields.
           map_of v field_key
             = Some (JList (validated_labels (taxonomy taxonomy_key)
                              (map_of llm_output field_key)))
           \<and> length (validated_labels (taxonomy taxonomy_key) (map_of llm_output field_key))
               = 3))"
proof -
  have "\<forall>(field_key, taxonomy_key) \<in> set list_fields.
           map_of v field_key
             = Some (JList (validated_labels (taxonomy taxonomy_key)
                              (map_of llm_output field_key)))
           \<and> length (validated_labels (taxonomy taxonomy_key) (map_of llm_output field_key))
               = 3"
    if "validate_llm_output ops (JDict llm_output) taxonomy = Inr v"
  proof -
    from that obtain d2 where "v = write_fields taxonomy list_fields llm_output d2"
      unfolding validate_llm_output_spec by (auto split: sum.splits)
    then show ?thesis
      using map_of_write_fields[OF list_fields_keys(1)]
      by (auto simp: length_validated_labels)
  qed
  then show ?thesis using validate_llm_output_spec by blast
qed

theorem multi_label_validation_witness:
  "validate_llm_output exact_num (JDict example_output) example_taxonomy = Inr example_validated
   \<and> bad_total example_taxonomy list_fields example_output = 1
   \<and> map_of example_validated ''symptom_component''
       = Some (JList [JStr ''Not Mentioned'', JStr [], JStr []])
   \<and> map_of example_validated ''confidence'' = Some (JNum (95 / 100 * (9 / 10)))
   \<and> list_all (\<lambda>(field_key, taxonomy_key).
        map_of example_validated field_key
          = Some (JList (validated_labels (example_taxonomy taxonomy_key)
                           (map_of example_output field_key)))
        \<and> length (validated_labels (example_taxonomy taxonomy_key)
                    (map_of example_output field_key)) = 3) list_fields"
proof -
  have "bad_total example_taxonomy list_fields example_output = 1"
    by (simp add: bad_total_def list_fields_def example_output_def bad_count_def bad_item_def
        py_in_def example_taxonomy_def)
  moreover have "map_of example_validated ''symptom_component''
       = Some (JList [JStr ''Not Mentioned'', JStr [], JStr []])"
    "map_of example_validated ''confidence'' = Some (JNum (95 / 100 * (9 / 10)))"
    by (simp_all add: example_validated_def)
  ultimately show ?thesis
    using multi_label_validation[of exact_num example_output example_taxonomy example_validated]
      example_validate
    unfolding list_all_iff by blast
qed


text \<open>
  C3. The service answers with a message whose JSON parses but lacks required fields:
  it holds a root cause only. Nothing raises inside \<open>call_llm_api\<close>, and
  \<open>validate_llm_output\<close> fills the four list fields without reading the confidence (no
  label is bad), so \<open>process_row\<close> returns a result that is not the default result and
  has no confidence. The assignment \<open>result["confidence"]\<close> of the main loop, which is
  outside every \<open>try\<close>, then raises KeyError: the row is not written and the run ends.
  (When the call itself raises, the default result is written:
  \<open>service_failure_gives_default\<close>.)
\<close>

theorem missing_confidence_aborts:
  "call_llm_api_try ascii_text bare_loads example_post (row_prompt example_row example_taxonomy)
     = Inr (JDict [(''root_cause'', JStr ''Not Mentioned'')])
   \<and> process_row ascii_text exact_num bare_loads example_post example_row example_taxonomy
     = [ (''root_cause'', JStr ''Not Mentioned''),
         (''symptom_condition'', JList [JStr ''Not Mentioned'', JStr [], JStr []]),
         (''symptom_component'', JList [JStr ''Not Mentioned'', JStr [], JStr []]),
         (''fix_condition'', JList [JStr ''Not Mentioned'', JStr [], JStr []]),
         (''fix_component'', JList [JStr ''Not Mentioned'', JStr [], JStr []]) ]
   \<and> process_row ascii_text exact_num bare_loads example_post example_row example_taxonomy
     \<noteq> default_result exact_num
   \<and> map_of (process_row ascii_text exact_num bare_loads example_post example_row
               example_taxonomy) ''confidence'' = None
   \<and> tag_row ascii_text exact_num bare_loads example_post example_taxonomy example_row []
     = Inl KeyError"
proof -
  have t: "call_llm_api_try ascii_text bare_loads example_post prompt
      = Inr (JDict [(''root_cause'', JStr ''Not Mentioned'')])" for prompt
    by (simp add: call_llm_api_try_def example_post_def example_envelope_def
        message_content_def bare_loads_def)
  have c: "call_llm_api ascii_text exact_num bare_loads example_post prompt
      = JDict [(''root_cause'', JStr ''Not Mentioned'')]" for prompt
    by (simp add: call_llm_api_def t)
  have v: "validate_llm_output exact_num (JDict [(''root_cause'', JStr ''Not Mentioned'')])
        example_taxonomy
     = Inr [ (''root_cause'', JStr ''Not Mentioned''),
         (''symptom_condition'', JList [JStr ''Not Mentioned'', JStr [], JStr []]),
         (''symptom_component'', JList [JStr ''Not Mentioned'', JStr [], JStr []]),
         (''fix_condition'', JList [JStr ''Not Mentioned'', JStr [], JStr []]),
         (''fix_component'', JList [JStr ''Not Mentioned'', JStr [], JStr []]) ]"
    by (simp add: validate_root_cause_def dict_get_or_none_def list_fields_def
        validate_field_def)
  have p: "process_row ascii_text exact_num bare_loads example_post example_row
        example_taxonomy
     = [ (''root_cause'', JStr ''Not Mentioned''),
         (''symptom_condition'', JList [JStr ''Not Mentioned'', JStr [], JStr []]),
         (''symptom_component'', JList [JStr ''Not Mentioned'', JStr [], JStr []]),
         (''fix_condition'', JList [JStr ''Not Mentioned'', JStr [], JStr []]),
         (''fix_component'', JList [JStr ''Not Mentioned'', JStr [], JStr []]) ]"
    unfolding process_row_def Let_def c v by simp
  have d: "process_row ascii_text exact_num bare_loads example_post example_row
        example_taxonomy \<noteq> default_result exact_num"
    unfolding p by (simp add: default_result_def)
  have m: "map_of (process_row ascii_text exact_num bare_loads example_post example_row
               example_taxonomy) ''confidence'' = None"
    unfolding p by simp
  have r: "tag_row ascii_text exact_num bare_loads example_post example_taxonomy example_row []
     = Inl KeyError"
    unfolding tag_row_def p by (simp add: write_result_def write_axis_def)
  show ?thesis using t p d m r by (intro conjI)
qed

section \<open>Properties of the cached tagger: proofs\<close>

lemma call_llm_hit:
  "map_of (llm_cache s) (md5 prompt) = Some cached
     \<Longrightarrow> call_llm sm md5 loads post prompt s = (Inr cached, s)"
  by (simp add: call_llm_def generate_llm_cache_key_def)

lemma call_llm_miss:
  assumes "map_of (llm_cache s) (md5 prompt) = None"
    and "call_llm sm md5 loads post prompt s = (out, s')"
  shows "requests s' = requests s @ [prompt]"
    and "\<And>r. out = Inr r \<Longrightarrow> llm_cache s' = AList.update (md5 prompt) r (llm_cache s)"
    and "\<And>e. out = Inl e \<Longrightarrow> llm_cache s' = llm_cache s"
  using assms
  by (auto simp: call_llm_def generate_llm_cache_key_def Let_def split: sum.splits)

lemma call_llm_requests:
  assumes "call_llm sm md5 loads post prompt s = (out, s')"
  shows "requests s' = requests s
       \<or> (map_of (llm_cache s) (md5 prompt) = None \<and> requests s' = requests s @ [prompt])"
  using assms
  by (auto simp: call_llm_def generate_llm_cache_key_def Let_def split: sum.splits option.splits)

lemma map_of_None_iff_keys: "map_of d k = None \<longleftrightarrow> k \<notin> fst ` set d"
  by (simp add: map_of_eq_None_iff)

lemma call_llm_inv:
  assumes "cache_inv md5 s" "call_llm sm md5 loads post prompt s = (Inr r, s')"
  shows "cache_inv md5 s'"
proof (cases "map_of (llm_cache s) (md5 prompt)")
  case None
  from call_llm_miss[OF None assms(2)]
  have r: "requests s' = requests s @ [prompt]"
    and c: "llm_cache s' = AList.update (md5 prompt) r (llm_cache s)" by auto
  from None have "md5 prompt \<notin> md5 ` set (requests s)"
    using assms(1) by (simp add: cache_inv_def map_of_None_iff_keys)
  then have "prompt \<notin> set (requests s)" by blast
  then show ?thesis using assms(1)
    by (simp add: cache_inv_def r c dom_update)
next
  case (Some a)
  then show ?thesis using assms by (simp add: call_llm_hit)
qed

lemma call_llm_distinct:
  assumes "cache_inv md5 s" "call_llm sm md5 loads post prompt s = (out, s')"
  shows "distinct (requests s')" "set (requests s') \<subseteq> insert prompt (set (requests s))"
    "set (requests s) \<subseteq> set (requests s')"
proof -
  have "distinct (requests s') \<and> set (requests s') \<subseteq> insert prompt (set (requests s))
     \<and> set (requests s) \<subseteq> set (requests s')"
  proof (cases "requests s' = requests s")
    case True
    then show ?thesis using assms(1) by (auto simp: cache_inv_def)
  next
    case False
    then have 2: "map_of (llm_cache s) (md5 prompt) = None" "requests s' = requests s @ [prompt]"
      using call_llm_requests[OF assms(2)] by auto
    then have "md5 prompt \<notin> md5 ` set (requests s)"
      using assms(1) by (simp add: cache_inv_def map_of_None_iff_keys)
    then have "prompt \<notin> set (requests s)" by blast
    then show ?thesis using assms(1) 2 by (auto simp: cache_inv_def)
  qed
  then show "distinct (requests s')" "set (requests s') \<subseteq> insert prompt (set (requests s))"
    "set (requests s) \<subseteq> set (requests s')" by auto
qed

lemma extract_tags_requests:
  assumes "cache_inv md5 s" "extract_tags sm ops md5 loads post rows cols s = (out, s')"
  shows "distinct (requests s') \<and> set (requests s') \<subseteq> set (requests s) \<union> set (row_prompts sm rows)
     \<and> set (requests s) \<subseteq> set (requests s')
     \<and> ((\<exists>cols'. out = Inr cols') \<longrightarrow> cache_inv md5 s')"
  using assms
proof (induction rows arbitrary: cols s)
  case Nil
  then show ?case by (auto simp: cache_inv_def)
next
  case (Cons row rows)
  show ?case
  proof (cases "has_text sm row")
    case False
    then have "extract_tags sm ops md5 loads post rows (cols @ [([], [], [])]) s = (out, s')"
      using Cons.prems(2) by (simp add: has_text_def)
    from Cons.IH[OF Cons.prems(1) this] False show ?thesis
      by (simp add: row_prompts_def)
  next
    case True
    let ?p = "row_prompt_of sm row"
    obtain o1 s1 where c: "call_llm sm md5 loads post ?p s = (o1, s1)" by (cases "call_llm sm md5 loads post ?p s")
    note d = call_llm_distinct[OF Cons.prems(1) c]
    have rp: "row_prompts sm (row # rows) = ?p # row_prompts sm rows"
      using True by (simp add: row_prompts_def)
    show ?thesis
    proof (cases "\<exists>cols1. extract_tags sm ops md5 loads post rows cols1 s1 = (out, s') \<and> (\<exists>r. o1 = Inr r)")
      case True
      then obtain cols1 r where e: "extract_tags sm ops md5 loads post rows cols1 s1 = (out, s')"
        and r: "o1 = Inr r" by blast
      have "cache_inv md5 s1" using call_llm_inv[OF Cons.prems(1)] c r by simp
      from Cons.IH[OF this e] d show ?thesis unfolding rp by auto
    next
      case False
      then have "s' = s1 \<and> (\<exists>e. out = Inl e)"
        using Cons.prems(2) \<open>has_text sm row\<close> c
        by (auto simp: has_text_def row_prompt_of_def Let_def split: sum.splits)
      then show ?thesis using d unfolding rp by auto
    qed
  qed
qed

lemma extract_tags_complete:
  assumes "cache_inv md5 s" "extract_tags sm ops md5 loads post rows cols s = (Inr cols', s')"
    "inj_on md5 (set (requests s) \<union> set (row_prompts sm rows))"
  shows "set (requests s') = set (requests s) \<union> set (row_prompts sm rows)"
  using assms
proof (induction rows arbitrary: cols s)
  case Nil
  then show ?case by (simp add: row_prompts_def)
next
  case (Cons row rows)
  show ?case
  proof (cases "has_text sm row")
    case False
    then have "extract_tags sm ops md5 loads post rows (cols @ [([], [], [])]) s = (Inr cols', s')"
      using Cons.prems(2) by (simp add: has_text_def)
    from Cons.IH[OF Cons.prems(1) this] Cons.prems(3) False show ?thesis
      by (simp add: row_prompts_def)
  next
    case True
    let ?p = "row_prompt_of sm row"
    have rp: "row_prompts sm (row # rows) = ?p # row_prompts sm rows"
      using True by (simp add: row_prompts_def)
    obtain o1 s1 where c: "call_llm sm md5 loads post ?p s = (o1, s1)" by (cases "call_llm sm md5 loads post ?p s")
    from Cons.prems(2) True c obtain r cols1 where r: "o1 = Inr r"
      and e: "extract_tags sm ops md5 loads post rows cols1 s1 = (Inr cols', s')"
      by (auto simp: has_text_def row_prompt_of_def Let_def split: sum.splits)
    have inv1: "cache_inv md5 s1" using call_llm_inv[OF Cons.prems(1)] c r by simp
    have s1: "set (requests s1) = insert ?p (set (requests s))"
    proof (cases "map_of (llm_cache s) (md5 ?p)")
      case None
      from call_llm_miss(1)[OF None c] show ?thesis by simp
    next
      case (Some a)
      then have "s1 = s" using c by (simp add: call_llm_hit)
      moreover from Some have "md5 ?p \<in> md5 ` set (requests s)"
        using Cons.prems(1) by (metis cache_inv_def map_of_None_iff_keys option.distinct(1))
      then have "?p \<in> set (requests s)"
        using Cons.prems(3) unfolding rp by (auto dest!: inj_onD[OF Cons.prems(3)[unfolded rp]])
      ultimately show ?thesis by auto
    qed
    have "inj_on md5 (set (requests s1) \<union> set (row_prompts sm rows))"
      using Cons.prems(3) unfolding rp s1 by (simp add: insert_commute Un_commute)
    from Cons.IH[OF inv1 e this] show ?thesis unfolding rp s1 by auto
  qed
qed

lemma extract_tags_step:
  assumes "has_text sm row" "call_llm sm md5 loads post (row_prompt_of sm row) s = (o1, s1)"
    "extract_tags sm ops md5 loads post (row # rows) cols s = (out, s')"
  shows "(s' = s1 \<and> (\<exists>e. out = Inl e))
       \<or> (\<exists>r cols1. o1 = Inr r \<and> extract_tags sm ops md5 loads post rows cols1 s1 = (out, s'))"
  using assms
  by (auto simp: has_text_def row_prompt_of_def Let_def split: sum.splits)

lemma extract_tags_first:
  assumes "llm_cache s = []" "requests s = []" "row_prompts sm rows = p # ps"
    "extract_tags sm ops md5 loads post rows cols s = (out, s')"
  shows "p \<in> set (requests s')"
  using assms(3,4)
proof (induction rows arbitrary: cols)
  case Nil
  then show ?case by (simp add: row_prompts_def)
next
  case (Cons row rows)
  have inv: "cache_inv md5 s" using assms(1,2) by (simp add: cache_inv_def)
  show ?case
  proof (cases "has_text sm row")
    case False
    then have "extract_tags sm ops md5 loads post rows (cols @ [([], [], [])]) s = (out, s')"
      "row_prompts sm rows = p # ps"
      using Cons.prems by (simp_all add: has_text_def row_prompts_def)
    then show ?thesis using Cons.IH by blast
  next
    case True
    then have p: "row_prompt_of sm row = p" using Cons.prems(1) by (simp add: row_prompts_def)
    obtain o1 s1 where c: "call_llm sm md5 loads post p s = (o1, s1)"
      by (cases "call_llm sm md5 loads post p s")
    have "map_of (llm_cache s) (md5 p) = None" using assms(1) by simp
    from call_llm_miss(1)[OF this c] have s1: "requests s1 = [p]" using assms(2) by simp
    from extract_tags_step[OF True c[folded p] Cons.prems(2)]
    show ?thesis
    proof (elim disjE conjE exE)
      assume "s' = s1"
      then show ?thesis using s1 by simp
    next
      fix r cols1
      assume r: "o1 = Inr r" and e: "extract_tags sm ops md5 loads post rows cols1 s1 = (out, s')"
      have inv1: "cache_inv md5 s1" using call_llm_inv[OF inv] c r by simp
      from extract_tags_requests[OF inv1 e] s1 show ?thesis by auto
    qed
  qed
qed

lemma distinct_singleton:
  assumes "distinct xs" "set xs = {x}"
  shows "xs = [x]"
proof (cases xs)
  case Nil
  then show ?thesis using assms by simp
next
  case (Cons a as)
  then have "a = x" "set as \<subseteq> {x}" "a \<notin> set as" using assms by auto
  then have "as = []" by (cases as) auto
  then show ?thesis using Cons \<open>a = x\<close> by simp
qed

lemma tagger_init_inv: "cache_inv md5 tagger_init"
  by (simp add: cache_inv_def tagger_init_def)


lemma call_llm_keeps:
  assumes "map_of (llm_cache s) k = Some v"
  shows "map_of (llm_cache (snd (call_llm sm md5 loads post p s))) k = Some v"
proof (cases "map_of (llm_cache s) (md5 p)")
  case None
  then have "k \<noteq> md5 p" using assms by auto
  obtain out s' where c: "call_llm sm md5 loads post p s = (out, s')"
    by (cases "call_llm sm md5 loads post p s")
  show ?thesis
  proof (cases out)
    case (Inl e)
    with call_llm_miss(3)[OF None c] assms c show ?thesis by simp
  next
    case (Inr r)
    with call_llm_miss(2)[OF None c] assms c \<open>k \<noteq> md5 p\<close> show ?thesis
      by (simp add: update_conv')
  qed
next
  case (Some a)
  then show ?thesis using assms by (simp add: call_llm_hit)
qed

lemma call_many_keeps:
  "map_of (llm_cache s) k = Some v
    \<Longrightarrow> map_of (llm_cache (call_many sm md5 loads post prompts s)) k = Some v"
  unfolding call_many_def
  by (induction prompts arbitrary: s) (simp_all add: call_llm_keeps)

lemma extract_tags_keeps:
  assumes "map_of (llm_cache s) k = Some v"
    "extract_tags sm ops md5 loads post rows cols s = (out, s')"
  shows "map_of (llm_cache s') k = Some v"
  using assms
proof (induction rows arbitrary: cols s)
  case Nil
  then show ?case by simp
next
  case (Cons row rows)
  show ?case
  proof (cases "has_text sm row")
    case False
    then show ?thesis using Cons by (simp add: has_text_def)
  next
    case True
    let ?p = "row_prompt_of sm row"
    obtain o1 s1 where c: "call_llm sm md5 loads post ?p s = (o1, s1)"
      by (cases "call_llm sm md5 loads post ?p s")
    have k1: "map_of (llm_cache s1) k = Some v"
      using call_llm_keeps[OF Cons.prems(1), of sm md5 loads post ?p] c by simp
    have "s' = s1 \<or> (\<exists>cols1. extract_tags sm ops md5 loads post rows cols1 s1 = (out, s'))"
      using extract_tags_step[OF True c Cons.prems(2)] by blast
    then show ?thesis using k1 Cons.IH by blast
  qed
qed

lemma fill_keys_empty_tags:
  "fill_keys empty_tags [''issues'', ''components'', ''actions''] = Inr empty_tags"
  by (simp add: empty_tags_def)


lemma strip_horn [simp]:
  "strip ascii_text ''replaced horn'' = ''replaced horn''"
  "strip ascii_text ''horn inop'' = ''horn inop''"
  by (simp_all add: ascii_text_def ascii_strip_def ascii_space_def)

lemma horn_row_text:
  "text_field ascii_text (correction_text horn_row) = ''replaced horn''"
  "text_field ascii_text (customer_text horn_row) = ''horn inop''"
  by (simp_all add: text_field_def horn_row_def)

subsection \<open>The claims about the cache\<close>

text \<open>
  C4. The cache key is a function of the prompt text alone. A call whose key is in the
  cache returns the cached value and sends no request (the state, with its request
  log, is unchanged). In a run of \<open>extract_tags\<close> from the empty cache no prompt is
  requested twice, and only prompts of the run's rows are requested; rows that all
  produce the same prompt cause exactly one request; and when the run completes and
  the hash does not collide on the run's prompts, every distinct prompt is requested
  exactly once.
\<close>

theorem one_call_per_prompt:
  "(map_of (llm_cache s) (generate_llm_cache_key md5 prompt) = Some cached
      \<longrightarrow> call_llm sm md5 loads post prompt s = (Inr cached, s))
   \<and> (extract_tags sm ops md5 loads post rows cols tagger_init = (out, s') \<longrightarrow>
        distinct (requests s') \<and> set (requests s') \<subseteq> set (row_prompts sm rows)
        \<and> (set (row_prompts sm rows) = {prompt} \<longrightarrow> requests s' = [prompt])
        \<and> ((\<exists>cols'. out = Inr cols') \<and> inj_on md5 (set (row_prompts sm rows))
             \<longrightarrow> set (requests s') = set (row_prompts sm rows)))"
proof (intro conjI impI)
  assume "map_of (llm_cache s) (generate_llm_cache_key md5 prompt) = Some cached"
  then show "call_llm sm md5 loads post prompt s = (Inr cached, s)"
    by (simp add: call_llm_hit generate_llm_cache_key_def)
next
  assume e: "extract_tags sm ops md5 loads post rows cols tagger_init = (out, s')"
  from extract_tags_requests[OF tagger_init_inv e]
  show d: "distinct (requests s')" and sub: "set (requests s') \<subseteq> set (row_prompts sm rows)"
    by (auto simp: tagger_init_def)
  {
    assume one: "set (row_prompts sm rows) = {prompt}"
    then obtain ps where "row_prompts sm rows = prompt # ps"
      by (cases "row_prompts sm rows") auto
    from extract_tags_first[OF _ _ this e] have "prompt \<in> set (requests s')"
      by (simp add: tagger_init_def)
    with sub one have "set (requests s') = {prompt}" by auto
    with d show "requests s' = [prompt]" by (rule distinct_singleton)
  }
  {
    assume "(\<exists>cols'. out = Inr cols') \<and> inj_on md5 (set (row_prompts sm rows))"
    then obtain cols' where "out = Inr cols'" and inj: "inj_on md5 (set (row_prompts sm rows))" by blast
    with e have e': "extract_tags sm ops md5 loads post rows cols tagger_init = (Inr cols', s')" by simp
    from extract_tags_complete[OF tagger_init_inv e'] inj
    show "set (requests s') = set (row_prompts sm rows)" by (simp add: tagger_init_def)
  }
qed


theorem one_call_per_prompt_witness:
  "map_of (llm_cache horn_state) (generate_llm_cache_key example_md5 horn_prompt)
     = Some horn_tags
   \<and> call_llm ascii_text example_md5 tags_loads tags_post horn_prompt horn_state
       = (Inr horn_tags, horn_state)
   \<and> extract_tags ascii_text exact_num example_md5 tags_loads tags_post [horn_row, horn_row] []
         tagger_init
       = (Inr [(''Horn malfunctions'', ''Horn mechanism'', []),
               (''Horn malfunctions'', ''Horn mechanism'', [])], horn_state)
   \<and> set (row_prompts ascii_text [horn_row, horn_row]) = {horn_prompt}
   \<and> inj_on example_md5 (set (row_prompts ascii_text [horn_row, horn_row]))
   \<and> requests horn_state = [horn_prompt]
   \<and> distinct (requests horn_state)
   \<and> set (requests horn_state) = set (row_prompts ascii_text [horn_row, horn_row])"
proof -
  have hit: "map_of (llm_cache horn_state) (generate_llm_cache_key example_md5 horn_prompt)
     = Some horn_tags"
    by (simp add: horn_state_def generate_llm_cache_key_def example_md5_def)
  have run: "extract_tags ascii_text exact_num example_md5 tags_loads tags_post [horn_row, horn_row] []
         tagger_init
       = (Inr [(''Horn malfunctions'', ''Horn mechanism'', []),
               (''Horn malfunctions'', ''Horn mechanism'', [])], horn_state)"
    by (simp add: Let_def horn_row_text call_llm_def generate_llm_cache_key_def example_md5_def
        tagger_init_def call_llm_try_def tags_post_def example_envelope_def
        message_content_def tags_loads_def joined_field_def horn_state_def horn_tags_def
        horn_prompt_def)
  have ps: "set (row_prompts ascii_text [horn_row, horn_row]) = {horn_prompt}"
    by (simp add: row_prompts_def has_text_def row_prompt_of_def horn_row_text horn_prompt_def)
  have inj: "inj_on example_md5 (set (row_prompts ascii_text [horn_row, horn_row]))"
    by (simp add: ps example_md5_def inj_on_def)
  show ?thesis
    using one_call_per_prompt[of horn_state example_md5 horn_prompt horn_tags ascii_text
        tags_loads tags_post exact_num "[horn_row, horn_row]" "[]"
        "Inr [(''Horn malfunctions'', ''Horn mechanism'', []),
              (''Horn malfunctions'', ''Horn mechanism'', [])]" horn_state]
      hit run ps inj
    by auto
qed

text \<open>
  C10. When the key is not in the cache and the request fails (an exception inside
  the \<open>try\<close> block), \<open>_call_llm\<close> returns the default with the three empty lists and
  stores it under the prompt's hash, after one request. Whatever calls follow in the
  run, a later call with the same prompt returns that default from the cache and
  leaves the state, with its request log, unchanged: the failed prompt is not
  requested again.
\<close>

theorem failed_call_is_cached:
  assumes "map_of (llm_cache s) (generate_llm_cache_key md5 prompt) = None"
    and "call_llm_try sm loads (post (length (requests s)) prompt) = Inl e"
    and "s1 = snd (call_llm sm md5 loads post prompt s)"
  shows "call_llm sm md5 loads post prompt s = (Inr empty_tags, s1)
    \<and> requests s1 = requests s @ [prompt]
    \<and> llm_cache s1 = AList.update (generate_llm_cache_key md5 prompt) empty_tags (llm_cache s)
    \<and> call_llm sm md5 loads post' prompt (call_many sm md5 loads post' prompts s1)
        = (Inr empty_tags, call_many sm md5 loads post' prompts s1)
    \<and> (extract_tags sm ops md5 loads post' rows cols s1 = (out, s2)
         \<longrightarrow> call_llm sm md5 loads post' prompt s2 = (Inr empty_tags, s2))"
proof -
  have c: "call_llm sm md5 loads post prompt s = (Inr empty_tags,
      s\<lparr> requests := requests s @ [prompt],
         llm_cache := AList.update (md5 prompt) empty_tags (llm_cache s) \<rparr>)"
    using assms(1,2)
    by (simp add: call_llm_def generate_llm_cache_key_def Let_def fill_keys_empty_tags
        del: fill_keys.simps)
  then have s1: "s1 = s\<lparr> requests := requests s @ [prompt],
         llm_cache := AList.update (md5 prompt) empty_tags (llm_cache s) \<rparr>"
    using assms(3) by simp
  have k: "map_of (llm_cache s1) (md5 prompt) = Some empty_tags"
    by (simp add: s1 update_conv')
  have "call_llm sm md5 loads post' prompt (call_many sm md5 loads post' prompts s1)
        = (Inr empty_tags, call_many sm md5 loads post' prompts s1)"
    by (rule call_llm_hit[of _ md5 prompt, OF call_many_keeps[OF k]])
  moreover have "call_llm sm md5 loads post' prompt s2 = (Inr empty_tags, s2)"
    if "extract_tags sm ops md5 loads post' rows cols s1 = (out, s2)"
    by (rule call_llm_hit[of _ md5 prompt, OF extract_tags_keeps[OF k that]])
  ultimately show ?thesis
    using c s1 by (auto simp: generate_llm_cache_key_def)
qed

theorem failed_call_is_cached_witness:
  "map_of (llm_cache (tagger_init :: rat tagger)) (generate_llm_cache_key example_md5 horn_prompt)
     = None
   \<and> call_llm_try ascii_text tags_loads (down_post (length (requests (tagger_init :: rat tagger)))
         horn_prompt) = Inl ConnectionError
   \<and> call_llm ascii_text example_md5 tags_loads down_post horn_prompt tagger_init
       = (Inr empty_tags, down_state)
   \<and> requests down_state = [horn_prompt]
   \<and> call_llm ascii_text example_md5 tags_loads tags_post horn_prompt
         (call_many ascii_text example_md5 tags_loads tags_post [''other'', horn_prompt] down_state)
       = (Inr empty_tags,
          call_many ascii_text example_md5 tags_loads tags_post [''other'', horn_prompt] down_state)"
proof -
  have miss: "map_of (llm_cache (tagger_init :: rat tagger))
       (generate_llm_cache_key example_md5 horn_prompt) = None"
    by (simp add: tagger_init_def)
  have fail: "call_llm_try ascii_text tags_loads (down_post (length (requests (tagger_init :: rat tagger)))
         horn_prompt) = Inl ConnectionError"
    by (simp add: call_llm_try_def down_post_def)
  have s1: "down_state = snd (call_llm ascii_text example_md5 tags_loads down_post horn_prompt tagger_init)"
    by (simp add: Let_def call_llm_def generate_llm_cache_key_def tagger_init_def
        call_llm_try_def down_post_def empty_tags_def down_state_def example_md5_def)
  have "requests down_state = [horn_prompt]" by (simp add: down_state_def)
  then show ?thesis
    using failed_call_is_cached[OF miss fail s1, of tags_post "[''other'', horn_prompt]"
        exact_num "[] :: text_row list" "[]" "Inr []" down_state] miss fail
    by blast
qed

section \<open>Properties of the rule-based tags: proofs\<close>

lemma urgency_of_zero_age:
  "eq_int ops age 0 \<Longrightarrow> urgency_of ops age kilometers combined_text = Inr ''Immediate''"
  by (simp add: urgency_of_def)

text \<open>
  With repair age 0 the row's urgency is \<open>"Immediate"\<close> whenever the row is tagged at
  all, whatever its texts; and it is tagged exactly when the three numeric coercions
  succeed.
\<close>

lemma zero_age_immediate:
  assumes "eq_int ops (get_or_0 ops (repair_age row)) 0"
  shows "advanced_tags_row sm ops row = Inr tags \<Longrightarrow> repair_urgency tags = ''Immediate''"
    and "coercions_succeed sm ops row \<longleftrightarrow> (\<exists>tags. advanced_tags_row sm ops row = Inr tags)"
    and "\<not> coercions_succeed sm ops row \<longleftrightarrow> advanced_tags_row sm ops row = Inl ValueError"
proof -
  show "advanced_tags_row sm ops row = Inr tags \<Longrightarrow> repair_urgency tags = ''Immediate''"
    using assms
    by (auto simp: advanced_tags_row_def Let_def urgency_of_zero_age split: sum.splits)
  show "coercions_succeed sm ops row \<longleftrightarrow> (\<exists>tags. advanced_tags_row sm ops row = Inr tags)"
    using assms
    by (auto simp: advanced_tags_row_def Let_def urgency_of_zero_age coercions_succeed_def
        split: sum.splits)
  have ve: "coerce_number sm ops v = Inl e \<Longrightarrow> e = ValueError" for v e
    by (cases v) (auto split: if_splits option.splits)
  show "\<not> coercions_succeed sm ops row \<longleftrightarrow> advanced_tags_row sm ops row = Inl ValueError"
    using assms
    by (auto simp: advanced_tags_row_def Let_def urgency_of_zero_age coercions_succeed_def
        split: sum.splits dest: ve)
qed

lemma airbag_text:
  "lower ascii_text (text_field ascii_text (correction_verbatim airbag_row) @ '' ''
          @ text_field ascii_text (customer_verbatim airbag_row) @ '' ''
          @ text_field ascii_text (global_labor_code_description airbag_row)) = ''airbag  ''"
  by (simp add: airbag_row_def text_field_def ascii_text_def ascii_strip_def ascii_space_def
      ascii_lower_def ascii_lower_char_def)

lemma dotted_km_text:
  "correction_verbatim dotted_km_row = correction_verbatim airbag_row"
  "customer_verbatim dotted_km_row = customer_verbatim airbag_row"
  "global_labor_code_description dotted_km_row = global_labor_code_description airbag_row"
  by (simp_all add: dotted_km_row_def)

lemma zero_age_airbag_row:
  "advanced_tags_row ascii_text exact_tagnum airbag_row
     = Inr \<lparr> repair_complexity = ''Medium'', vehicle_system = ''Other'',
             failure_mode = ''Unknown'', repair_urgency = ''Immediate'',
             diagnostic_method = ''Visual Inspection'' \<rparr>"
  unfolding advanced_tags_row_def Let_def airbag_text
  by (simp add: airbag_row_def exact_tagnum_def get_or_0_def digits_and_dots_def ascii_text_def
      ascii_digit_def parse_decimal_def urgency_of_def complexity_of_def system_of_def failure_of_def
      method_of_def contains_def)

lemma dotted_km_coercion:
  "coerce_number ascii_text exact_tagnum (get_or_0 exact_tagnum (km dotted_km_row))
     = Inl ValueError"
  by (simp add: dotted_km_row_def airbag_row_def exact_tagnum_def get_or_0_def
      digits_and_dots_def ascii_text_def ascii_digit_def parse_decimal_def)

subsection \<open>The claim about the repair urgency\<close>

text \<open>
  C9. A row with repair age 0 whose mileage cell is the string \<open>"1.234.567"\<close>: the
  coercion keeps the digits and dots and \<open>float("1.234.567")\<close> raises ValueError, so
  the loop of \<open>extract_advanced_tags\<close> ends with that exception and never writes
  \<open>"Immediate"\<close> for the row. (For every row with repair age 0 on which the three
  coercions succeed, the urgency is \<open>"Immediate"\<close>, whatever its texts:
  \<open>zero_age_immediate\<close>.)
\<close>

theorem zero_age_row_raises:
  "eq_int exact_tagnum (get_or_0 exact_tagnum (repair_age dotted_km_row)) 0
   \<and> digits_and_dots ascii_text ''1.234.567'' = ''1.234.567''
   \<and> float_of_str exact_tagnum ''1.234.567'' = None
   \<and> advanced_tags_row ascii_text exact_tagnum dotted_km_row = Inl ValueError
   \<and> extract_advanced_tags ascii_text exact_tagnum [dotted_km_row] = Inl ValueError"
proof -
  have "advanced_tags_row ascii_text exact_tagnum dotted_km_row = Inl ValueError"
    unfolding advanced_tags_row_def Let_def dotted_km_coercion by simp
  moreover have "eq_int exact_tagnum (get_or_0 exact_tagnum (repair_age dotted_km_row)) 0"
    by (simp add: dotted_km_row_def airbag_row_def exact_tagnum_def get_or_0_def)
  moreover have "digits_and_dots ascii_text ''1.234.567'' = ''1.234.567''"
    by (simp add: digits_and_dots_def ascii_text_def ascii_digit_def)
  moreover have "float_of_str exact_tagnum ''1.234.567'' = None"
    by (simp add: exact_tagnum_def parse_decimal_def ascii_digit_def)
  ultimately show ?thesis by simp
qed

section \<open>Properties of the cleaner: proofs\<close>

lemma numbers_of_numeric: "list_all numeric_cell cells \<Longrightarrow> numbers_of cells = Inr (nums cells)"
proof (induction cells)
  case Nil
  then show ?case by simp
next
  case (Cons c cells)
  then show ?case by (cases c) auto
qed

lemma numeric_fillna:
  "list_all numeric_cell cells \<Longrightarrow> numeric_cell v \<Longrightarrow> list_all numeric_cell (fillna v cells)"
  by (auto simp: fillna_def list_all_iff)

lemma impute_numerical:
  assumes "column_type profile = Some ''numerical''" "map_of df col = Some cells"
    "list_all numeric_cell cells"
  shows "step_if (missing_count profile > 0) (impute ops col profile) (Inr (df, insights))
     = Inr (if missing_count profile > 0 then AList.update col (imputed ops profile cells) df
            else df,
            insights @ median_insight ops col profile cells)"
  using assms
  by (simp add: step_if_def impute_def get_column_def column_median_def numbers_of_numeric
      Let_def imputed_def median_value_def median_insight_def split: option.splits)


lemma five_quantiles:
  "quantile_linear [1, 2, 3, 4, 100] (1 / 4) = Some 2"
  "quantile_linear [1, 2, 3, 4, 100] (3 / 4) = Some 4"
  by (simp_all add: quantile_linear_def Let_def)

lemma five_bounds: "iqr_bounds exact_pd [1, 2, 3, 4, 100] = (Some (- 1), Some 7)"
  by (simp add: iqr_bounds_def exact_pd_def five_quantiles lift2_def Let_def)

lemma floor_quarters: "\<lfloor>5 / 4 :: rat\<rfloor> = 1" "\<lfloor>15 / 4 :: rat\<rfloor> = 3"
  by (rule floor_unique; simp)+

lemma six_quantiles:
  "quantile_linear [1, 2, 3, 3, 4, 100] (1 / 4) = Some (9 / 4)"
  "quantile_linear [1, 2, 3, 3, 4, 100] (3 / 4) = Some (15 / 4)"
  by (simp_all add: quantile_linear_def Let_def floor_quarters)

lemma six_bounds: "iqr_bounds exact_pd [1, 2, 3, 3, 4, 100] = (Some 0, Some 6)"
  by (simp add: iqr_bounds_def exact_pd_def six_quantiles lift2_def Let_def)


lemma foldr_max_ge: "x \<in> set xs \<Longrightarrow> g x \<le> foldr max (map g xs) (0::nat)"
  by (induction xs) auto

lemma foldr_max_attained:
  "xs \<noteq> [] \<Longrightarrow> \<exists>x \<in> set xs. g x = foldr max (map g xs) (0::nat)"
proof (induction xs)
  case Nil
  then show ?case by simp
next
  case (Cons a xs)
  show ?case
  proof (cases "xs = []")
    case True
    then show ?thesis by simp
  next
    case False
    with Cons.IH obtain y where y: "y \<in> set xs" "g y = foldr max (map g xs) 0" by blast
    have f: "foldr max (map g (a # xs)) 0 = max (g a) (g y)" using y(2) by simp
    show ?thesis
    proof (cases "g a \<le> g y")
      case True
      then have "max (g a) (g y) = g y" by (rule max_absorb2)
      then show ?thesis using y(1) unfolding f by auto
    next
      case False
      then have "max (g a) (g y) = g a" by (simp add: max_absorb1)
      then show ?thesis unfolding f by auto
    qed
  qed
qed

lemma set_most_frequent:
  "set (most_frequent cells)
     = {v \<in> set (dropna cells).
          count_list (dropna cells) v
            = foldr max (map (count_list (dropna cells)) (dropna cells)) 0}"
  by (simp add: most_frequent_def Let_def)

lemma most_frequent_nonempty: "dropna cells \<noteq> [] \<Longrightarrow> most_frequent cells \<noteq> []"
proof -
  assume "dropna cells \<noteq> []"
  from foldr_max_attained[OF this, of "count_list (dropna cells)"]
  have "set (most_frequent cells) \<noteq> {}" unfolding set_most_frequent by blast
  then show ?thesis by auto
qed

lemma count_dropna: "v \<noteq> NA \<Longrightarrow> count_list (dropna cells) v = count_list cells v"
  by (induction cells) (auto simp: dropna_def)

lemma in_most_frequent:
  assumes "m \<in> set (most_frequent cells)"
  shows "m \<in> set cells" "m \<noteq> NA"
    "\<forall>v \<in> set (dropna cells). count_list cells v \<le> count_list cells m"
proof -
  from assms have m: "m \<in> set (dropna cells)"
    and top: "count_list (dropna cells) m
            = foldr max (map (count_list (dropna cells)) (dropna cells)) 0"
    unfolding set_most_frequent by auto
  from m show "m \<in> set cells" "m \<noteq> NA" by (auto simp: dropna_def)
  show "\<forall>v \<in> set (dropna cells). count_list cells v \<le> count_list cells m"
  proof
    fix v assume v: "v \<in> set (dropna cells)"
    then have "v \<noteq> NA" by (auto simp: dropna_def)
    from foldr_max_ge[OF v, of "count_list (dropna cells)"] top
    show "count_list cells v \<le> count_list cells m"
      using count_dropna[OF \<open>v \<noteq> NA\<close>] count_dropna[OF \<open>m \<noteq> NA\<close>] by simp
  qed
qed

lemma hd_sort_key_least:
  fixes key :: "'a \<Rightarrow> 'k::linorder"
  assumes "xs \<noteq> []" "x \<in> set xs"
  shows "key (hd (sort_key key xs)) \<le> key x" "hd (sort_key key xs) \<in> set xs"
proof -
  have ne: "sort_key key xs \<noteq> []" using assms(1) by (metis length_0_conv length_sort)
  then obtain y ys where s: "sort_key key xs = y # ys" by (cases "sort_key key xs") auto
  have "sorted (map key (y # ys))" using sorted_sort_key[of key xs] s by simp
  moreover have "x \<in> set (y # ys)" using assms(2) s by (metis set_sort)
  ultimately show "key (hd (sort_key key xs)) \<le> key x" by (auto simp: s)
  show "hd (sort_key key xs) \<in> set xs" using s by (metis list.sel(1) list.set_intros(1) set_sort)
qed

lemma pd_mode_strings:
  assumes "list_all (\<lambda>c. c = NA \<or> is_str c) cells" "dropna cells \<noteq> []"
  shows "\<exists>m. iloc0 (pd_mode ops cells) = Inr (Str m)
      \<and> Str m \<in> set (most_frequent cells)
      \<and> (\<forall>s. Str s \<in> set (most_frequent cells) \<longrightarrow> m \<le> s)"
proof -
  have strs: "list_all is_str (most_frequent cells)"
    using assms(1) unfolding list_all_iff set_most_frequent by (auto simp: dropna_def)
  then have pm: "pd_mode ops cells = sort_key str_key (most_frequent cells)"
    by (simp add: pd_mode_def)
  have ne: "most_frequent cells \<noteq> []" by (rule most_frequent_nonempty[OF assms(2)])
  let ?h = "hd (sort_key str_key (most_frequent cells))"
  obtain x where "x \<in> set (most_frequent cells)" using ne by (cases "most_frequent cells") auto
  from hd_sort_key_least(2)[OF ne this, of str_key]
  have hin: "?h \<in> set (most_frequent cells)" .
  then have "is_str ?h" using strs by (auto simp: list_all_iff)
  then obtain m where m: "?h = Str m" by (cases ?h) auto
  have "sort_key str_key (most_frequent cells) \<noteq> []" using ne by (metis length_0_conv length_sort)
  then have "iloc0 (pd_mode ops cells) = Inr (Str m)"
    using m by (cases "sort_key str_key (most_frequent cells)") (auto simp: iloc0_def pm)
  moreover have "m \<le> s" if "Str s \<in> set (most_frequent cells)" for s
    using hd_sort_key_least(1)[OF ne that, of str_key] m by simp
  ultimately show ?thesis using hin m by auto
qed

lemma update_twice: "AList.update k v (AList.update k w d) = AList.update k v d"
  by (induction d) auto

lemma tie_example:
  "clean_column ascii_text exact_pd (''c'', tie_profile) ([(''c'', tie_cells)], [])
     = Inr ([(''c'', [Str ''b'', Str ''a'', Str ''a'', Str ''b'', Str ''a''])],
            [''Filled 1 missing in '' @ quoted ''c'' @ '' with mode: a''])"
  by (simp add: clean_column_def step_if_def tie_profile_def impute_def get_column_def
      tie_cells_def pd_mode_def most_frequent_def dropna_def iloc0_def fillna_def Let_def
      str_nat.simps digit_char_def)

lemma tie_order: "frequency_order tie_cells = [Str ''b'', Str ''a'']"
  by (simp add: frequency_order_def tie_cells_def dropna_def Let_def)


lemma tie_mode: "pd_mode exact_pd tie_cells = [Str ''a'', Str ''b'']"
  by (simp add: tie_cells_def pd_mode_def most_frequent_def dropna_def Let_def)


lemma update_same: "map_of d k = Some v \<Longrightarrow> AList.update k v d = d"
  by (induction d) (auto split: if_splits)

lemma numbers_of_Inr: "numbers_of cells = Inr vs \<Longrightarrow> vs = nums cells"
proof (induction cells arbitrary: vs)
  case Nil
  then show ?case by simp
next
  case (Cons c cells)
  then show ?case by (cases c) (auto split: sum.splits)
qed


text \<open>The modes of a column of numbers come in ascending order.\<close>

lemma number_mode_sorted:
  "pd_mode exact_pd [Num 2, Num 1, NA, Num 2, Num 1] = [Num 1, Num 2]"
  by (simp add: pd_mode_def most_frequent_def dropna_def Let_def sort_by_def exact_pd_def)

subsection \<open>The outlier step\<close>

text \<open>The mask that the code computes from the two bounds is the IQR rule.\<close>

lemma is_outlier_bounds:
  "(cell_less ops c (fst (iqr_bounds ops vs)) \<or> cell_greater ops c (snd (iqr_bounds ops vs)))
     = is_outlier ops vs c"
  by (cases c) (auto simp: is_outlier_def iqr_bounds_def lift2_def Let_def split: option.splits)

lemma outlier_mask_rule:
  "outlier_mask ops cells =
     (case numbers_of cells of
        Inl e \<Rightarrow> Inl e
      | Inr vs \<Rightarrow> Inr (map (is_outlier ops vs) cells))"
  by (simp add: outlier_mask_def split_beta is_outlier_bounds split: sum.splits)

lemma outlier_mask_Inr:
  assumes "outlier_mask ops cells = Inr flags"
  shows "flags = map (is_outlier ops (nums cells)) cells"
proof -
  from assms obtain vs where vs: "numbers_of cells = Inr vs"
    by (auto simp: outlier_mask_rule split: sum.splits)
  then have "vs = nums cells" by (rule numbers_of_Inr)
  then show ?thesis using assms vs by (auto simp: outlier_mask_rule)
qed

text \<open>
  For a numerical column (numbers and missing cells) whose profile has
  \<open>outlier_count > 0\<close>, the loop body of \<open>clean_data\<close> returns a table in which the
  column holds its imputed values and \<open><col>_OUTLIER\<close> holds, row by row, whether the
  imputed value is below \<open>Q1 - 1.5 * IQR\<close> or above \<open>Q3 + 1.5 * IQR\<close>, the quartiles
  being those of the imputed values; after the insight of the imputation (if any) it
  appends exactly one insight, with the number of flagged rows.
\<close>

lemma outlier_flags_after_imputation:
  assumes "column_type profile = Some ''numerical''"
    and "outlier_count profile = Some k" and "0 < k"
    and "map_of df col = Some cells"
    and "list_all numeric_cell cells"
    and "case profile_median profile of None \<Rightarrow> True | Some m \<Rightarrow> numeric_cell m"
  shows "\<exists>df'. clean_column sm ops (col, profile) (df, insights)
        = Inr (df', insights @ median_insight ops col profile cells
                 @ [outlier_insight col
                      (length (filter (is_outlier ops (nums (imputed ops profile cells)))
                                 (imputed ops profile cells)))])
      \<and> map_of df' (col @ ''_OUTLIER'')
          = Some (map (\<lambda>c. Flag (is_outlier ops (nums (imputed ops profile cells)) c))
                    (imputed ops profile cells))
      \<and> map_of df' col = Some (imputed ops profile cells)"
proof -
  let ?imp = "imputed ops profile cells"
  let ?df1 = "if missing_count profile > 0 then AList.update col ?imp df else df"
  have num: "list_all numeric_cell ?imp"
  proof -
    have "numeric_cell (median_value ops profile cells)"
      using assms(6) by (auto simp: median_value_def split: option.splits)
    then show ?thesis using assms(5) by (simp add: imputed_def numeric_fillna)
  qed
  have col1: "map_of ?df1 col = Some ?imp"
    using assms(4) by (simp add: update_conv' imputed_def)
  have ne: "col @ ''_OUTLIER'' \<noteq> col" by simp
  have flag: "flag_outliers ops col (?df1, ins)
      = Inr (AList.update (col @ ''_OUTLIER'')
               (map (\<lambda>c. Flag (is_outlier ops (nums ?imp) c)) ?imp) ?df1,
             ins @ [outlier_insight col (length (filter (is_outlier ops (nums ?imp)) ?imp))])"
    for ins
    using col1
    by (simp add: flag_outliers_def get_column_def outlier_mask_rule numbers_of_numeric[OF num]
        outlier_insight_def filter_map o_def del: map_of_eq_Some_iff)
  have "clean_column sm ops (col, profile) (df, insights)
      = Inr (AList.update (col @ ''_OUTLIER'')
               (map (\<lambda>c. Flag (is_outlier ops (nums ?imp) c)) ?imp) ?df1,
             insights @ median_insight ops col profile cells
               @ [outlier_insight col (length (filter (is_outlier ops (nums ?imp)) ?imp))])"
    using assms(1-3) impute_numerical[OF assms(1,4,5), of ops insights]
    by (simp add: clean_column_def step_if_def flag)
  moreover have "map_of (AList.update (col @ ''_OUTLIER'')
               (map (\<lambda>c. Flag (is_outlier ops (nums ?imp) c)) ?imp) ?df1) col = Some ?imp"
    using col1 ne by (simp add: update_conv' del: map_of_eq_Some_iff)
  ultimately show ?thesis
    by (intro exI conjI) (assumption, simp add: update_conv', assumption)
qed

text \<open>The column \<open>[-100, 1, 2, 3, 4, 5, 100]\<close>: \<open>Q1 = 1.5\<close>, \<open>Q3 = 4.5\<close>, the bounds are
  \<open>-3\<close> and \<open>9\<close>, and the first and the last value are flagged.\<close>

lemma floor_halves: "\<lfloor>3 / 2 :: rat\<rfloor> = 1" "\<lfloor>9 / 2 :: rat\<rfloor> = 4"
  by (rule floor_unique; simp)+

lemma seven_quantiles:
  "quantile_linear [- 100, 1, 2, 3, 4, 5, 100] (1 / 4) = Some (3 / 2)"
  "quantile_linear [- 100, 1, 2, 3, 4, 5, 100] (3 / 4) = Some (9 / 2)"
  by (simp_all add: quantile_linear_def Let_def floor_halves)

lemma seven_outliers:
  "map (is_outlier exact_pd [- 100, 1, 2, 3, 4, 5, 100]) seven_values
     = [True, False, False, False, False, False, True]"
  by (simp add: is_outlier_def seven_values_def exact_pd_def seven_quantiles)

lemma seven_example:
  "clean_column ascii_text exact_pd (''x'', outlier_profile 0) ([(''x'', seven_values)], [])
     = Inr ([(''x'', seven_values), (''x_OUTLIER'', seven_flags)],
            [''Flagged outliers in '' @ quoted ''x'' @ '' using IQR: 2 rows''])"
proof -
  have n: "numbers_of seven_values = Inr [- 100, 1, 2, 3, 4, 5, 100]"
    by (simp add: seven_values_def)
  have m: "outlier_mask exact_pd seven_values
      = Inr [True, False, False, False, False, False, True]"
    by (simp add: outlier_mask_rule n seven_outliers)
  show ?thesis
    by (simp add: clean_column_def step_if_def outlier_profile_def flag_outliers_def
        get_column_def m seven_flags_def str_nat.simps digit_char_def)
qed

lemma five_outliers:
  "map (is_outlier exact_pd [1, 2, 3, 4, 100]) five_values = [False, False, False, False, True]"
  by (simp add: is_outlier_def five_values_def exact_pd_def five_quantiles)

lemma five_mask: "outlier_mask exact_pd five_values = Inr [False, False, False, False, True]"
proof -
  have n: "numbers_of five_values = Inr [1, 2, 3, 4, 100]" by (simp add: five_values_def)
  show ?thesis by (simp add: outlier_mask_rule n five_outliers)
qed

lemma five_first_run:
  "clean_data ascii_text exact_pd [(''x'', outlier_profile 0)] [(''x'', five_values)]
     = Inr (five_cleaned, [''Flagged outliers in '' @ quoted ''x'' @ '' using IQR: 1 rows''])"
  by (simp add: clean_data_def clean_column_def step_if_def outlier_profile_def
        flag_outliers_def get_column_def five_mask five_cleaned_def five_flags_def
        str_nat.simps digit_char_def)

lemma five_second_run:
  "clean_data ascii_text exact_pd [(''x'', outlier_profile 0)] five_cleaned
     = Inr (five_cleaned, [''Flagged outliers in '' @ quoted ''x'' @ '' using IQR: 1 rows''])"
  by (simp add: clean_data_def clean_column_def step_if_def outlier_profile_def
        flag_outliers_def get_column_def five_mask five_cleaned_def five_flags_def
        str_nat.simps digit_char_def)

subsection \<open>A second run\<close>

text \<open>The loop body when the profile reports no missing value: at most one step runs.\<close>

lemma step_if_False: "step_if False f r = r"
  by (cases r) (simp_all add: step_if_def)

lemma step_if_True: "step_if True f (Inr s) = f s"
  by (simp add: step_if_def)

lemma clean_column_no_missing:
  assumes "missing_count profile = 0"
  shows "clean_column sm ops (col, profile) (df, ins) =
    (if column_type profile = None then Inr (df, ins @ [skip_insight col])
     else if flagged profile then normalize sm ops col (df, ins)
     else if column_type profile = Some ''date'' then convert_date ops col (df, ins)
     else if has_outliers profile then flag_outliers ops col (df, ins)
     else Inr (df, ins))"
  using assms
  by (cases "column_type profile")
     (auto simp: clean_column_def flagged_def has_outliers_def skip_insight_def step_if_False
        step_if_True split: option.splits)

lemma normalize_eq:
  "normalize sm ops col (df, ins) =
    (case map_of df col of
       None \<Rightarrow> Inl KeyError
     | Some cells \<Rightarrow>
         Inr (AList.update col (normalized sm ops cells) df, ins @ [normalize_insight col]))"
  by (simp add: normalize_def get_column_def normalized_def normalize_insight_def
      split: option.splits)

lemma to_datetime_again: "to_datetime ops cells = Some dates \<Longrightarrow> to_datetime ops dates = Some dates"
proof -
  assume a: "to_datetime ops cells = Some dates"
  have "list_all timestamp_cell dates"
  proof (cases "list_all timestamp_cell cells")
    case True
    then show ?thesis using a by (simp add: to_datetime_def)
  next
    case False
    then obtain ts where "dates = map (\<lambda>t. case t of None \<Rightarrow> NA | Some d \<Rightarrow> Date d) ts"
      using a by (auto simp: to_datetime_def)
    then show ?thesis by (auto simp: list_all_iff split: option.splits)
  qed
  then show ?thesis by (simp add: to_datetime_def)
qed

text \<open>A step of the loop leaves every column but its own and its outlier column.\<close>

lemma clean_column_frame:
  assumes "clean_column sm ops (col, profile) (df, ins) = Inr (df', ins')"
    and "missing_count profile = 0" and "k \<noteq> col" and "k \<noteq> col @ ''_OUTLIER''"
  shows "map_of df' k = map_of df k"
  using assms
  by (auto simp: clean_column_no_missing normalize_eq convert_date_def flag_outliers_def
      get_column_def update_conv' split: if_splits option.splits sum.splits)

lemma clean_columns_frame:
  assumes "clean_columns sm ops items (df, ins) = Inr (df', ins')"
    and "list_all no_missing items"
    and "k \<notin> set (map fst items)"
    and "\<forall>c \<in> set (map fst items). k \<noteq> c @ ''_OUTLIER''"
  shows "map_of df' k = map_of df k"
  using assms
proof (induction items arbitrary: df ins)
  case Nil
  then show ?case by simp
next
  case (Cons item items)
  obtain col profile where item: "item = (col, profile)" by (cases item)
  from Cons.prems(1) obtain d1 i1 where
    s: "clean_column sm ops (col, profile) (df, ins) = Inr (d1, i1)"
    and r: "clean_columns sm ops items (d1, i1) = Inr (df', ins')"
    by (auto simp: item split: sum.splits)
  have m0: "missing_count profile = 0" using Cons.prems(2) by (simp add: item no_missing_def)
  have "map_of d1 k = map_of df k"
    using clean_column_frame[OF s m0] Cons.prems(3,4) by (simp add: item)
  moreover have "map_of df' k = map_of d1 k"
    using Cons.IH[OF r] Cons.prems(2,3,4) by simp
  ultimately show ?case by simp
qed

text \<open>
  A step that has run on a table runs again, with the same insights and without a
  change, on every table that agrees with its result on the column and its outlier
  column.
\<close>

lemma clean_column_again:
  assumes run: "clean_column sm ops (col, profile) (df, ins) = Inr (df', ins')"
    and m0: "missing_count profile = 0"
    and st: "title_stable sm ops df (col, profile)"
    and a1: "map_of df2 col = map_of df' col"
    and a2: "map_of df2 (col @ ''_OUTLIER'') = map_of df' (col @ ''_OUTLIER'')"
  shows "\<exists>new. ins' = ins @ new
      \<and> (\<forall>ins2. clean_column sm ops (col, profile) (df2, ins2) = Inr (df2, ins2 @ new))"
proof -
  note cc = clean_column_no_missing[OF m0]
  consider (untyped) "column_type profile = None"
    | (norm) "column_type profile \<noteq> None" "flagged profile"
    | (date) "column_type profile \<noteq> None" "\<not> flagged profile"
        "column_type profile = Some ''date''"
    | (outliers) "column_type profile \<noteq> None" "\<not> flagged profile"
        "column_type profile \<noteq> Some ''date''" "has_outliers profile"
    | (none) "column_type profile \<noteq> None" "\<not> flagged profile"
        "column_type profile \<noteq> Some ''date''" "\<not> has_outliers profile"
    by blast
  then show ?thesis
  proof cases
    case untyped
    then show ?thesis using run by (auto simp: cc)
  next
    case norm
    from run norm obtain cells where c: "map_of df col = Some cells"
      and d: "df' = AList.update col (normalized sm ops cells) df"
      and i: "ins' = ins @ [normalize_insight col]"
      by (auto simp: cc normalize_eq split: option.splits)
    have stable: "normalized sm ops (normalized sm ops cells) = normalized sm ops cells"
      using st norm(2) c by (simp add: title_stable_def)
    have c2: "map_of df2 col = Some (normalized sm ops cells)"
      using a1 d by (simp add: update_conv')
    have "clean_column sm ops (col, profile) (df2, ins2)
        = Inr (df2, ins2 @ [normalize_insight col])" for ins2
      using norm(2) c2 by (simp add: cc normalize_eq stable update_same flagged_def)
    then show ?thesis using i by blast
  next
    case date
    show ?thesis
    proof (cases "map_of df col")
      case None
      then have d: "df' = df" and i: "ins' = ins @ [''Failed to convert '' @ quoted col @ '' to datetime'']"
        using run date by (auto simp: cc convert_date_def get_column_def)
      have "map_of df2 col = None" using a1 d None by simp
      then have "clean_column sm ops (col, profile) (df2, ins2)
          = Inr (df2, ins2 @ [''Failed to convert '' @ quoted col @ '' to datetime''])" for ins2
        using date by (simp add: cc convert_date_def get_column_def)
      then show ?thesis using i by blast
    next
      case (Some cells)
      show ?thesis
      proof (cases "to_datetime ops cells")
        case None
        then have d: "df' = df"
          and i: "ins' = ins @ [''Failed to convert '' @ quoted col @ '' to datetime'']"
          using run date Some by (auto simp: cc convert_date_def get_column_def)
        have "map_of df2 col = Some cells" using a1 d Some by simp
        then have "clean_column sm ops (col, profile) (df2, ins2)
            = Inr (df2, ins2 @ [''Failed to convert '' @ quoted col @ '' to datetime''])" for ins2
          using date None by (simp add: cc convert_date_def get_column_def)
        then show ?thesis using i by blast
      next
        case (Some dates)
        then have d: "df' = AList.update col dates df" and i: "ins' = ins"
          using run date \<open>map_of df col = Some cells\<close>
          by (auto simp: cc convert_date_def get_column_def)
        have c2: "map_of df2 col = Some dates" using a1 d by (simp add: update_conv')
        have "clean_column sm ops (col, profile) (df2, ins2) = Inr (df2, ins2 @ [])" for ins2
          using date c2 to_datetime_again[OF Some]
          by (simp add: cc convert_date_def get_column_def update_same)
        then show ?thesis using i by blast
      qed
    qed
  next
    case outliers
    from run outliers obtain cells flags where c: "map_of df col = Some cells"
      and f: "outlier_mask ops cells = Inr flags"
      and d: "df' = AList.update (col @ ''_OUTLIER'') (map Flag flags) df"
      and i: "ins' = ins @ [''Flagged outliers in '' @ quoted col @ '' using IQR: ''
                      @ str_nat (length (filter id flags)) @ '' rows'']"
      by (auto simp: cc flag_outliers_def get_column_def split: option.splits sum.splits)
    have c2: "map_of df2 col = Some cells" using a1 d c by (simp add: update_conv')
    have o2: "map_of df2 (col @ ''_OUTLIER'') = Some (map Flag flags)"
      using a2 d by (simp add: update_conv')
    have "clean_column sm ops (col, profile) (df2, ins2)
        = Inr (df2, ins2 @ [''Flagged outliers in '' @ quoted col @ '' using IQR: ''
                      @ str_nat (length (filter id flags)) @ '' rows''])" for ins2
      using outliers c2 f o2
      by (simp add: cc flag_outliers_def get_column_def update_same del: not_None_eq)
    then show ?thesis using i by blast
  next
    case none
    then have "df' = df" "ins' = ins" using run by (auto simp: cc simp del: not_None_eq)
    moreover have "clean_column sm ops (col, profile) (df2, ins2) = Inr (df2, ins2 @ [])" for ins2
      using none by (simp add: cc del: not_None_eq)
    ultimately show ?thesis by blast
  qed
qed

lemma title_stable_cong:
  "map_of d1 (fst item) = map_of df (fst item)
     \<Longrightarrow> title_stable sm ops d1 item = title_stable sm ops df item"
  by (cases item) (simp add: title_stable_def)

text \<open>The whole loop runs again in the same way on every table that agrees with its
  result on the profiled columns and their outlier columns.\<close>

lemma clean_columns_again:
  assumes "distinct (map fst items)"
    and "list_all no_missing items"
    and "\<forall>c \<in> set (map fst items). c @ ''_OUTLIER'' \<notin> set (map fst items)"
    and "list_all (title_stable sm ops df) items"
    and "clean_columns sm ops items (df, ins) = Inr (df', ins')"
  shows "\<exists>new. ins' = ins @ new
      \<and> (\<forall>df2 ins2.
            (\<forall>c \<in> set (map fst items).
                map_of df2 c = map_of df' c
                \<and> map_of df2 (c @ ''_OUTLIER'') = map_of df' (c @ ''_OUTLIER''))
            \<longrightarrow> clean_columns sm ops items (df2, ins2) = Inr (df2, ins2 @ new))"
  using assms
proof (induction items arbitrary: df ins)
  case Nil
  then show ?case by simp
next
  case (Cons item items)
  obtain col profile where item: "item = (col, profile)" by (cases item)
  from Cons.prems(5) obtain d1 i1 where
    s: "clean_column sm ops (col, profile) (df, ins) = Inr (d1, i1)"
    and r: "clean_columns sm ops items (d1, i1) = Inr (df', ins')"
    by (auto simp: item split: sum.splits)
  have m0: "missing_count profile = 0"
    using Cons.prems(2) by (simp add: item no_missing_def)
  have nm: "list_all no_missing items"
    using Cons.prems(2) by simp
  have dist: "col \<notin> set (map fst items)" "distinct (map fst items)"
    using Cons.prems(1) by (simp_all add: item)
  have free: "col @ ''_OUTLIER'' \<notin> set (map fst items)"
    "\<forall>c \<in> set (map fst items). c @ ''_OUTLIER'' \<noteq> col"
    "\<forall>c \<in> set (map fst items). c @ ''_OUTLIER'' \<notin> set (map fst items)"
    using Cons.prems(3) by (auto simp: item)
  have st: "title_stable sm ops df (col, profile)"
    using Cons.prems(4) by (simp add: item)
  have st1: "list_all (title_stable sm ops d1) items"
  proof -
    have "title_stable sm ops d1 it = title_stable sm ops df it" if "it \<in> set items" for it
    proof (rule title_stable_cong)
      have f: "fst it \<in> set (map fst items)" using that by simp
      have "fst it \<noteq> col" using f dist(1) by blast
      moreover have "fst it \<noteq> col @ ''_OUTLIER''"
      proof
        assume "fst it = col @ ''_OUTLIER''"
        with f free(1) show False by simp
      qed
      ultimately show "map_of d1 (fst it) = map_of df (fst it)"
        using clean_column_frame[OF s m0] by simp
    qed
    then show ?thesis using Cons.prems(4) by (simp add: list_all_iff)
  qed
  from Cons.IH[OF dist(2) nm free(3) st1 r] obtain new1 where
    n1: "ins' = i1 @ new1"
    and again1: "\<And>df2 ins2. (\<forall>c \<in> set (map fst items).
                map_of df2 c = map_of df' c
                \<and> map_of df2 (c @ ''_OUTLIER'') = map_of df' (c @ ''_OUTLIER''))
            \<Longrightarrow> clean_columns sm ops items (df2, ins2) = Inr (df2, ins2 @ new1)"
    by blast
  have keep: "map_of df' col = map_of d1 col"
    "map_of df' (col @ ''_OUTLIER'') = map_of d1 (col @ ''_OUTLIER'')"
  proof -
    show "map_of df' col = map_of d1 col"
      using clean_columns_frame[OF r nm dist(1)] free(2) by auto
    have "\<forall>c \<in> set (map fst items). col @ ''_OUTLIER'' \<noteq> c @ ''_OUTLIER''"
      using dist(1) by auto
    then show "map_of df' (col @ ''_OUTLIER'') = map_of d1 (col @ ''_OUTLIER'')"
      using clean_columns_frame[OF r nm free(1)] by blast
  qed
  have step: "\<exists>new0. i1 = ins @ new0
      \<and> (\<forall>ins2. clean_column sm ops (col, profile) (df2, ins2) = Inr (df2, ins2 @ new0))"
    if "map_of df2 col = map_of df' col"
       "map_of df2 (col @ ''_OUTLIER'') = map_of df' (col @ ''_OUTLIER'')" for df2
    using clean_column_again[OF s m0 st] that keep by simp
  from step[of df'] obtain new0 where n0: "i1 = ins @ new0" by auto
  have "clean_columns sm ops (item # items) (df2, ins2) = Inr (df2, ins2 @ new0 @ new1)"
    if a: "\<forall>c \<in> set (map fst (item # items)).
                map_of df2 c = map_of df' c
                \<and> map_of df2 (c @ ''_OUTLIER'') = map_of df' (c @ ''_OUTLIER'')" for df2 ins2
  proof -
    from a have ac: "map_of df2 col = map_of df' col"
       "map_of df2 (col @ ''_OUTLIER'') = map_of df' (col @ ''_OUTLIER'')"
      and ar: "\<forall>c \<in> set (map fst items).
                map_of df2 c = map_of df' c
                \<and> map_of df2 (c @ ''_OUTLIER'') = map_of df' (c @ ''_OUTLIER'')"
      by (simp_all add: item)
    from step[OF ac] obtain new0' where "i1 = ins @ new0'"
      and c0: "\<And>ins2. clean_column sm ops (col, profile) (df2, ins2) = Inr (df2, ins2 @ new0')"
      by blast
    then have "new0' = new0" using n0 by simp
    then show ?thesis using c0 again1[OF ar] by (simp add: item)
  qed
  then show ?case using n0 n1 by (intro exI[of _ "new0 @ new1"]) simp
qed

text \<open>The first run on the example table.\<close>

lemma shop_first_run:
  "clean_data ascii_text exact_pd shop_profiles shop_table = Inr (shop_cleaned, shop_insights)"
proof -
  have n: "numbers_of seven_values = Inr [- 100, 1, 2, 3, 4, 5, 100]"
    by (simp add: seven_values_def)
  have m: "outlier_mask exact_pd seven_values
      = Inr [True, False, False, False, False, False, True]"
    by (simp add: outlier_mask_rule n seven_outliers)
  have t: "title ascii_text (strip ascii_text '' horn '') = ''Horn''"
    "title ascii_text (strip ascii_text ''HORN'') = ''Horn''"
    "title ascii_text (strip ascii_text ''trim'') = ''Trim''"
    by (simp_all add: ascii_text_def ascii_strip_def ascii_space_def ascii_title_def
        ascii_alpha_def ascii_lower_char_def ascii_upper_char_def)
  show ?thesis
    by (simp add: clean_data_def shop_profiles_def shop_table_def clean_column_def step_if_def
        flag_outliers_def get_column_def m normalize_def t convert_date_def to_datetime_def
        shop_cleaned_def shop_insights_def seven_flags_def str_nat.simps digit_char_def)
qed

subsection \<open>Trimming and title-casing ASCII text twice\<close>

lemma ascii_alpha_cases:
  assumes "ascii_alpha c"
  shows "ascii_alpha (ascii_lower_char c)" "ascii_alpha (ascii_upper_char c)"
    "ascii_lower_char (ascii_lower_char c) = ascii_lower_char c"
    "ascii_upper_char (ascii_upper_char c) = ascii_upper_char c"
    "\<not> ascii_space c"
  using assms
  by (auto simp: ascii_alpha_def ascii_lower_char_def ascii_upper_char_def ascii_space_def)

lemma ascii_title_from_again:
  "ascii_title_from b (ascii_title_from b s) = ascii_title_from b s"
  by (induction s arbitrary: b) (auto simp: ascii_alpha_cases)

lemma ascii_title_from_Nil [simp]: "ascii_title_from b s = [] \<longleftrightarrow> s = []"
  by (cases s) auto

lemma ascii_title_from_hd:
  "s \<noteq> [] \<Longrightarrow> ascii_space (hd (ascii_title_from b s)) = ascii_space (hd s)"
  by (cases s) (auto simp: ascii_alpha_cases)

lemma ascii_title_from_last:
  "s \<noteq> [] \<Longrightarrow> ascii_space (last (ascii_title_from b s)) = ascii_space (last s)"
proof (induction s arbitrary: b)
  case Nil
  then show ?case by simp
next
  case (Cons c cs)
  show ?case
  proof (cases "cs = []")
    case True
    then show ?thesis by (auto simp: ascii_alpha_cases)
  next
    case False
    then show ?thesis using Cons.IH by auto
  qed
qed

lemma dropWhile_keeps: "xs \<noteq> [] \<Longrightarrow> \<not> P (hd xs) \<Longrightarrow> dropWhile P xs = xs"
  by (cases xs) auto

lemma ascii_strip_trimmed:
  assumes "s = [] \<or> (\<not> ascii_space (hd s) \<and> \<not> ascii_space (last s))"
  shows "ascii_strip s = s"
proof (cases "s = []")
  case True
  then show ?thesis by (simp add: ascii_strip_def)
next
  case False
  with assms have h: "\<not> ascii_space (hd s)" and l: "\<not> ascii_space (last s)" by auto
  have 1: "dropWhile ascii_space s = s" using False h by (rule dropWhile_keeps)
  have "rev s \<noteq> []" "\<not> ascii_space (hd (rev s))" using False l by (simp_all add: hd_rev)
  then have 2: "dropWhile ascii_space (rev s) = rev s" by (rule dropWhile_keeps)
  show ?thesis by (simp add: ascii_strip_def 1 2)
qed

lemma last_dropWhile: "dropWhile P xs \<noteq> [] \<Longrightarrow> last (dropWhile P xs) = last xs"
  by (induction xs) (auto split: if_splits)

lemma ascii_strip_is_trimmed:
  "ascii_strip s = [] \<or> (\<not> ascii_space (hd (ascii_strip s)) \<and> \<not> ascii_space (last (ascii_strip s)))"
proof (cases "ascii_strip s = []")
  case True
  then show ?thesis by simp
next
  case False
  let ?t = "dropWhile ascii_space s"
  let ?r = "dropWhile ascii_space (rev ?t)"
  have u: "ascii_strip s = rev ?r" by (simp add: ascii_strip_def)
  have r: "?r \<noteq> []" using False u by simp
  have t: "?t \<noteq> []"
  proof
    assume a: "?t = []"
    have "?r = []" unfolding a by simp
    with r show False by blast
  qed
  have "\<not> ascii_space (hd ?r)" using r by (rule hd_dropWhile)
  then have l: "\<not> ascii_space (last (ascii_strip s))" using r by (simp add: u last_rev)
  have "last ?r = last (rev ?t)" using r by (rule last_dropWhile)
  then have "hd (ascii_strip s) = hd ?t" using r t by (simp add: u hd_rev last_rev)
  moreover have "\<not> ascii_space (hd ?t)" using t by (rule hd_dropWhile)
  ultimately show ?thesis using l by simp
qed

lemma ascii_normalize_again:
  "ascii_title (ascii_strip (ascii_title (ascii_strip s))) = ascii_title (ascii_strip s)"
proof -
  let ?u = "ascii_strip s"
  have "ascii_title ?u = [] \<or> (\<not> ascii_space (hd (ascii_title ?u))
      \<and> \<not> ascii_space (last (ascii_title ?u)))"
    using ascii_strip_is_trimmed[of s]
    by (auto simp: ascii_title_def ascii_title_from_hd ascii_title_from_last)
  then have "ascii_strip (ascii_title ?u) = ascii_title ?u" by (rule ascii_strip_trimmed)
  then show ?thesis by (simp add: ascii_title_def ascii_title_from_again)
qed

text \<open>On ASCII text the condition on the flagged columns always holds.\<close>

lemma ascii_title_stable: "title_stable ascii_text ops df item"
proof -
  have "normalized ascii_text ops (normalized ascii_text ops cells)
      = normalized ascii_text ops cells" for cells
    by (simp add: normalized_def ascii_text_def ascii_normalize_again)
  then show ?thesis by (cases item) (simp add: title_stable_def split: option.splits)
qed

text \<open>
  The condition on the names is needed: when the outlier column of one profiled
  column is itself profiled as numerical with outliers, the first run replaces its
  numbers by flags, and the second run raises on them.
\<close>

lemma outlier_name_clash:
  "clean_data ascii_text exact_pd
      [(''x_OUTLIER'', outlier_profile 0), (''x'', outlier_profile 0)]
      [(''x'', five_values), (''x_OUTLIER'', five_values)]
     = Inr ([(''x'', five_values), (''x_OUTLIER'', five_flags),
             (''x_OUTLIER_OUTLIER'', five_flags)],
            [''Flagged outliers in '' @ quoted ''x_OUTLIER'' @ '' using IQR: 1 rows'',
             ''Flagged outliers in '' @ quoted ''x'' @ '' using IQR: 1 rows''])"
  "clean_data ascii_text exact_pd
      [(''x_OUTLIER'', outlier_profile 0), (''x'', outlier_profile 0)]
      [(''x'', five_values), (''x_OUTLIER'', five_flags),
       (''x_OUTLIER_OUTLIER'', five_flags)]
     = Inl TypeError"
proof -
  have n: "numbers_of five_flags = Inl TypeError" by (simp add: five_flags_def)
  show "clean_data ascii_text exact_pd
      [(''x_OUTLIER'', outlier_profile 0), (''x'', outlier_profile 0)]
      [(''x'', five_values), (''x_OUTLIER'', five_values)]
     = Inr ([(''x'', five_values), (''x_OUTLIER'', five_flags),
             (''x_OUTLIER_OUTLIER'', five_flags)],
            [''Flagged outliers in '' @ quoted ''x_OUTLIER'' @ '' using IQR: 1 rows'',
             ''Flagged outliers in '' @ quoted ''x'' @ '' using IQR: 1 rows''])"
    by (simp add: clean_data_def clean_column_def step_if_def outlier_profile_def
        flag_outliers_def get_column_def five_mask five_flags_def str_nat.simps digit_char_def)
  show "clean_data ascii_text exact_pd
      [(''x_OUTLIER'', outlier_profile 0), (''x'', outlier_profile 0)]
      [(''x'', five_values), (''x_OUTLIER'', five_flags),
       (''x_OUTLIER_OUTLIER'', five_flags)]
     = Inl TypeError"
    by (simp add: clean_data_def clean_column_def step_if_def outlier_profile_def
        flag_outliers_def get_column_def outlier_mask_def n)
qed

section \<open>Properties of the profiler: proofs\<close>

lemma numerical_stats_counts [simp]:
  "unique_count (numerical_stats ops lib vs n profile) = unique_count profile"
  "missing_count (numerical_stats ops lib vs n profile) = missing_count profile"
  "potential_primary_key (numerical_stats ops lib vs n profile)
     = potential_primary_key profile"
  by (simp_all add: numerical_stats_def Let_def)

lemma string_profile_counts:
  assumes "string_profile sm ops lib cells profile = Inr profile'"
  shows "unique_count profile' = unique_count profile"
    and "missing_count profile' = missing_count profile"
  using assms by (auto simp: string_profile_def split: if_splits)

lemma typed_profile_key:
  assumes "typed_profile sm ops lib dtype cells profile = Inr profile'"
  shows "potential_primary_key profile'
     = Some (unique_count profile = length cells \<and> missing_count profile = 0)"
  using assms
  by (auto simp: typed_profile_def primary_key_check_def string_profile_counts
      split: if_splits sum.splits)

text \<open>
  The profile of a column has the field \<open>potential_primary_key\<close>, with the value the
  specification gives, in every branch but one: an object column whose text converts
  to numbers has no such field.
\<close>

lemma potential_primary_key_of_column:
  assumes "profile_column sm ops lib col dtype cells = Inr profile"
  shows "potential_primary_key profile =
     (if dtype = ObjectDtype \<and> to_numeric lib (dropna cells) \<noteq> None then None
      else Some (nunique cells = length cells \<and> count_missing cells = 0))"
proof (cases "dtype = ObjectDtype \<and> to_numeric lib (dropna cells) \<noteq> None")
  case True
  then show ?thesis using assms
    by (auto simp: profile_column_def Let_def is_numeric_dtype_def split: if_splits)
next
  case False
  then obtain profile0 where
    t: "typed_profile sm ops lib dtype cells profile0 = Inr profile"
    and u: "unique_count profile0 = nunique cells" "missing_count profile0 = count_missing cells"
    using assms
    by (auto simp: profile_column_def Let_def split: if_splits sum.splits option.splits)
  show ?thesis using typed_profile_key[OF t] u False by simp
qed

text \<open>The profiler stops on a table without rows and on a boolean column.\<close>

lemma profile_column_raises:
  "profile_column sm ops lib col dtype [] = Inl ZeroDivisionError"
  "profile_column sm ops lib col BoolDtype (Flag b # cells) = Inl TypeError"
  by (simp_all add: profile_column_def Let_def is_numeric_dtype_def)

lemma id_text_numeric: "to_numeric exact_infer (dropna id_text) = Some [1, 2, 3]"
  by (simp add: exact_infer_def id_text_def dropna_def parse_decimal_def ascii_digit_def
      digits_value_def digit_value_def Let_def)

lemma three_quantiles:
  "quantile_linear [1, 2, 3] (1 / 4) = Some (3 / 2)"
  "quantile_linear [1, 2, 3] (3 / 4) = Some (5 / 2)"
  "quantile_linear [1, 2, 3] (1 / 2) = Some 2"
  by (simp_all add: quantile_linear_def Let_def floor_halves)

lemma id_text_profiled:
  "profile_column ascii_text exact_pd exact_infer ''id'' ObjectDtype id_text = Inr id_text_profile"
proof -
  have c: "count_missing id_text = 0" "nunique id_text = 3" "length id_text = 3"
    by (simp_all add: id_text_def count_missing_def nunique_def dropna_def)
  have b: "iqr_bounds exact_pd [1, 2, 3] = (Some 0, Some 4)"
    by (simp add: iqr_bounds_def exact_pd_def three_quantiles lift2_def Let_def)
  have s: "numerical_stats exact_pd exact_infer [1, 2, 3] (Suc (Suc (Suc 0)))
        \<lparr> name = ''id'', missing_count = 0, unique_count = 3, potential_issues = [],
          column_type = None, profile_median = None, outlier_count = None,
          potential_primary_key = None \<rparr> = id_text_profile"
    by (simp add: numerical_stats_def b Let_def id_text_profile_def)
       (simp add: exact_pd_def exact_infer_def three_quantiles)
  show ?thesis
    by (simp add: profile_column_def Let_def is_numeric_dtype_def id_text_numeric c s)
qed

lemma id_numbers_profiled:
  "\<exists>profile. profile_column ascii_text exact_pd exact_infer ''id'' NumericDtype id_numbers
       = Inr profile
     \<and> potential_primary_key profile = Some True"
proof -
  have c: "count_missing id_numbers = 0" "nunique id_numbers = 3" "length id_numbers = 3"
    "numbers_of id_numbers = Inr [1, 2, 3]"
    by (simp_all add: id_numbers_def count_missing_def nunique_def dropna_def)
  obtain profile where
    p: "profile_column ascii_text exact_pd exact_infer ''id'' NumericDtype id_numbers = Inr profile"
    by (simp add: profile_column_def Let_def is_numeric_dtype_def c typed_profile_def
        exact_infer_def)
  from potential_primary_key_of_column[OF p] have "potential_primary_key profile = Some True"
    by (simp add: c)
  then show ?thesis using p by blast
qed

lemma five_texts_numeric: "to_numeric exact_infer (dropna five_texts) = Some [1, 2, 3, 4, 100]"
  by (simp add: exact_infer_def five_texts_def dropna_def parse_decimal_def ascii_digit_def
      digits_value_def digit_value_def Let_def)

lemma five_median: "quantile_linear [1, 2, 3, 4, 100] (1 / 2) = Some 3"
  by (simp add: quantile_linear_def Let_def)

lemma five_texts_profiled:
  "profile_column ascii_text exact_pd exact_infer ''x'' ObjectDtype five_texts
     = Inr five_texts_profile"
proof -
  have c: "count_missing five_texts = 0" "nunique five_texts = 5" "length five_texts = 5"
    by (simp_all add: five_texts_def count_missing_def nunique_def dropna_def)
  have s: "numerical_stats exact_pd exact_infer [1, 2, 3, 4, 100] (Suc (Suc (Suc (Suc (Suc 0)))))
        \<lparr> name = ''x'', missing_count = 0, unique_count = 5, potential_issues = [],
          column_type = None, profile_median = None, outlier_count = None,
          potential_primary_key = None \<rparr> = five_texts_profile"
    by (simp add: numerical_stats_def five_bounds Let_def five_texts_profile_def)
       (simp add: exact_pd_def exact_infer_def five_median)
  show ?thesis
    by (simp add: profile_column_def Let_def is_numeric_dtype_def five_texts_numeric c s)
qed

subsection \<open>The claims about the cleaner\<close>

text \<open>
  C6. The numbers \<open>1, 2, 3, 4, 100\<close> stored as text in an object column: the profiler
  converts the text, types the column numerical and counts one outlier, but leaves
  the column as it is. The cleaner then takes the quantiles of the text, which raises
  TypeError: no outlier column is added and the run ends. (For a column of numbers
  the outlier column is the IQR rule on the imputed values:
  \<open>outlier_flags_after_imputation\<close>.)
\<close>

theorem numeric_text_column_raises:
  "profile_columns ascii_text exact_pd exact_infer [(''x'', ObjectDtype, five_texts)] []
     = Inr [(''x'', five_texts_profile)]
   \<and> column_type five_texts_profile = Some ''numerical''
   \<and> outlier_count five_texts_profile = Some 1
   \<and> clean_data ascii_text exact_pd [(''x'', five_texts_profile)] [(''x'', five_texts)]
     = Inl TypeError"
proof -
  have p: "profile_columns ascii_text exact_pd exact_infer [(''x'', ObjectDtype, five_texts)] []
     = Inr [(''x'', five_texts_profile)]"
    by (simp add: five_texts_profiled)
  have n: "numbers_of five_texts = Inl TypeError"
    by (simp add: five_texts_def)
  have c: "clean_data ascii_text exact_pd [(''x'', five_texts_profile)] [(''x'', five_texts)]
     = Inl TypeError"
    by (simp add: clean_data_def clean_column_def step_if_def five_texts_profile_def
        flag_outliers_def get_column_def outlier_mask_def n)
  show ?thesis using p c by (simp add: five_texts_profile_def)
qed

text \<open>
  C7, as stated, fails on ties. In the column \<open>["b", "a", NaN, "b", "a"]\<close> both values
  occur twice; \<open>"b"\<close> comes first in frequency order, but \<open>mode()\<close> lists the tied
  values in ascending order and the cleaner fills with its first entry, \<open>"a"\<close>.
\<close>

theorem mode_tie_counterexample:
  "clean_column ascii_text exact_pd (''c'', tie_profile) ([(''c'', tie_cells)], [])
     = Inr ([(''c'', [Str ''b'', Str ''a'', Str ''a'', Str ''b'', Str ''a''])],
            [''Filled 1 missing in '' @ quoted ''c'' @ '' with mode: a''])
   \<and> count_list tie_cells (Str ''a'') = 2 \<and> count_list tie_cells (Str ''b'') = 2
   \<and> frequency_order tie_cells = [Str ''b'', Str ''a'']
   \<and> hd (frequency_order tie_cells) = Str ''b''
   \<and> pd_mode exact_pd tie_cells = [Str ''a'', Str ''b'']"
  using tie_example tie_order tie_mode by (simp add: tie_cells_def)

text \<open>
  C7, amended. For a column of strings with at least one value present, profiled as
  categorical with \<open>missing_count > 0\<close>, the loop body of \<open>clean_data\<close> fills every
  missing cell with the column's mode: a value of the column that no value occurs
  more often than, and the smallest in string order of the values that occur as often.
  It appends exactly one insight for the imputation, with the column, the strategy,
  the fill value and the profile's missing count (followed by the insight of the
  normalization when the profile is flagged for it, in which case the filled column
  is also normalized).
\<close>

theorem mode_fill_smallest_on_ties:
  assumes "column_type profile = Some ''categorical''" and "0 < missing_count profile"
    and "map_of df col = Some cells"
    and "list_all (\<lambda>c. c = NA \<or> is_str c) cells" and "dropna cells \<noteq> []"
  shows "\<exists>m. iloc0 (pd_mode ops cells) = Inr (Str m)
      \<and> Str m \<in> set cells
      \<and> (\<forall>v \<in> set (dropna cells). count_list cells v \<le> count_list cells (Str m))
      \<and> (\<forall>s. count_list cells (Str s) = count_list cells (Str m) \<longrightarrow> m \<le> s)
      \<and> NA \<notin> set (fillna (Str m) cells)
      \<and> clean_column sm ops (col, profile) (df, insights)
          = Inr (AList.update col
                   (if flagged profile then normalized sm ops (fillna (Str m) cells)
                    else fillna (Str m) cells) df,
                 insights @ [mode_insight col (missing_count profile) m]
                   @ (if flagged profile then [normalize_insight col] else []))"
proof -
  from pd_mode_strings[OF assms(4,5)] obtain m where
    m: "iloc0 (pd_mode ops cells) = Inr (Str m)" and mf: "Str m \<in> set (most_frequent cells)"
    and least: "\<forall>s. Str s \<in> set (most_frequent cells) \<longrightarrow> m \<le> s" by blast
  note im = in_most_frequent[OF mf]
  have tie: "m \<le> s" if "count_list cells (Str s) = count_list cells (Str m)" for s
  proof -
    have "count_list cells (Str m) \<noteq> 0" using im(1) by (simp add: count_list_0_iff)
    then have "count_list cells (Str s) \<noteq> 0" using that by simp
    then have "Str s \<in> set cells" by (simp only: count_list_0_iff not_not)
    then have s: "Str s \<in> set (dropna cells)" by (simp add: dropna_def)
    have "count_list (dropna cells) (Str s)
            = foldr max (map (count_list (dropna cells)) (dropna cells)) 0"
      using mf that unfolding set_most_frequent by (simp add: count_dropna)
    then have "Str s \<in> set (most_frequent cells)" using s unfolding set_most_frequent by simp
    then show ?thesis using least by blast
  qed
  have imp: "step_if (missing_count profile > 0) (impute ops col profile) (Inr (df, insights))
      = Inr (AList.update col (fillna (Str m) cells) df,
             insights @ [mode_insight col (missing_count profile) m])"
    using assms(1-3) m
    by (simp add: step_if_def impute_def get_column_def mode_insight_def)
  have "clean_column sm ops (col, profile) (df, insights)
          = Inr (AList.update col
                   (if flagged profile then normalized sm ops (fillna (Str m) cells)
                    else fillna (Str m) cells) df,
                 insights @ [mode_insight col (missing_count profile) m]
                   @ (if flagged profile then [normalize_insight col] else []))"
    using assms(1) unfolding clean_column_def
    by (simp add: imp flagged_def)
       (simp add: step_if_def normalize_def get_column_def update_conv' update_twice
          normalized_def normalize_insight_def)
  moreover have "NA \<notin> set (fillna (Str m) cells)" by (auto simp: fillna_def)
  ultimately show ?thesis using m im tie by blast
qed


theorem mode_fill_smallest_on_ties_witness:
  "column_type tie_profile = Some ''categorical'' \<and> 0 < missing_count tie_profile
   \<and> map_of [(''c'', tie_cells)] ''c'' = Some tie_cells
   \<and> list_all (\<lambda>c. c = NA \<or> is_str c) tie_cells \<and> dropna tie_cells \<noteq> []
   \<and> iloc0 (pd_mode exact_pd tie_cells) = Inr (Str ''a'')
   \<and> count_list tie_cells (Str ''b'') = count_list tie_cells (Str ''a'')
   \<and> ''a'' \<le> ''b''
   \<and> clean_column ascii_text exact_pd (''c'', tie_profile) ([(''c'', tie_cells)], [])
       = Inr ([(''c'', fillna (Str ''a'') tie_cells)], [mode_insight ''c'' 1 ''a''])"
proof -
  have hyps: "column_type tie_profile = Some ''categorical''" "0 < missing_count tie_profile"
    "map_of [(''c'', tie_cells)] ''c'' = Some tie_cells"
    "list_all (\<lambda>c. c = NA \<or> is_str c) tie_cells" "dropna tie_cells \<noteq> []"
    by (simp_all add: tie_profile_def tie_cells_def dropna_def)
  have nf: "\<not> flagged tie_profile" "missing_count tie_profile = 1"
    by (simp_all add: flagged_def tie_profile_def)
  from mode_fill_smallest_on_ties[OF hyps, of exact_pd ascii_text "[]"] obtain m where
    m: "iloc0 (pd_mode exact_pd tie_cells) = Inr (Str m)"
    and tie: "\<forall>s. count_list tie_cells (Str s) = count_list tie_cells (Str m) \<longrightarrow> m \<le> s"
    and c: "clean_column ascii_text exact_pd (''c'', tie_profile) ([(''c'', tie_cells)], [])
          = Inr (AList.update ''c'' (fillna (Str m) tie_cells) [(''c'', tie_cells)],
                 [] @ [mode_insight ''c'' (missing_count tie_profile) m] @ [])"
    using nf by auto
  from c tie_example have "m = ''a''"
    by (simp add: fillna_def tie_cells_def)
  moreover have cnt: "count_list tie_cells (Str ''b'') = count_list tie_cells (Str ''a'')"
    by (simp add: tie_cells_def)
  ultimately have "''a'' \<le> ''b''" using tie by blast
  then show ?thesis
    using hyps m c cnt \<open>m = ''a''\<close> nf by simp
qed

text \<open>
  C5, as stated, fails. The table with the column \<open>[1, 2, 3, 4, 100]\<close> has no
  missing value and its profile reports none; the first run adds the outlier column
  and one insight, and the second run, on the cleaned table with the same profile,
  leaves the table as it is but appends the insight again.
\<close>

theorem rerun_appends_insight_counterexample:
  "list_all (\<lambda>c. c \<noteq> NA) five_values \<and> missing_count (outlier_profile 0) = 0
   \<and> clean_data ascii_text exact_pd [(''x'', outlier_profile 0)] [(''x'', five_values)]
       = Inr (five_cleaned, [''Flagged outliers in '' @ quoted ''x'' @ '' using IQR: 1 rows''])
   \<and> clean_data ascii_text exact_pd [(''x'', outlier_profile 0)] five_cleaned
       = Inr (five_cleaned, [''Flagged outliers in '' @ quoted ''x'' @ '' using IQR: 1 rows''])"
  using five_first_run five_second_run by (simp add: five_values_def outlier_profile_def)

text \<open>
  C5, amended. Take a table and a profile map that reports no missing value, in which
  no profiled column has the name of another column's outlier column, and in which
  trimming and title-casing a second time does not change the text of the flagged
  categorical columns. If \<open>clean_data\<close> returns on it, then \<open>clean_data\<close> on the cleaned
  table with the same profiles returns the cleaned table unchanged, with the same
  insights as the first run; run again in the same cleaner, it appends the insights
  of the first run a second time. (On ASCII text the condition on the text always
  holds: \<open>ascii_title_stable\<close>. Without the condition on the names the second run can
  raise: \<open>outlier_name_clash\<close>.)
\<close>

theorem rerun_on_cleaned_table:
  assumes "distinct (map fst column_profiles)"
    and "list_all no_missing column_profiles"
    and "outlier_column_free column_profiles"
    and "list_all (title_stable sm ops df) column_profiles"
    and "clean_data sm ops column_profiles df = Inr (df', insights)"
  shows "clean_data sm ops column_profiles df' = Inr (df', insights)
    \<and> clean_columns sm ops column_profiles (df', insights) = Inr (df', insights @ insights)"
proof -
  have free: "\<forall>c \<in> set (map fst column_profiles).
      c @ ''_OUTLIER'' \<notin> set (map fst column_profiles)"
    using assms(3) unfolding outlier_column_free_def list_all_iff by fastforce
  have run: "clean_columns sm ops column_profiles (df, []) = Inr (df', insights)"
    using assms(5) by (simp add: clean_data_def)
  from clean_columns_again[OF assms(1,2) free assms(4) run] obtain new where
    n: "insights = [] @ new"
    and again: "\<And>df2 ins2. (\<forall>c \<in> set (map fst column_profiles).
                map_of df2 c = map_of df' c
                \<and> map_of df2 (c @ ''_OUTLIER'') = map_of df' (c @ ''_OUTLIER''))
            \<Longrightarrow> clean_columns sm ops column_profiles (df2, ins2) = Inr (df2, ins2 @ new)"
    by blast
  have "clean_columns sm ops column_profiles (df', ins2) = Inr (df', ins2 @ insights)" for ins2
    using again[of df' ins2] n by simp
  from this[of "[]"] this[of insights] show ?thesis by (simp add: clean_data_def)
qed

theorem rerun_on_cleaned_table_witness:
  "distinct (map fst shop_profiles) \<and> list_all no_missing shop_profiles
   \<and> outlier_column_free shop_profiles
   \<and> list_all (title_stable ascii_text exact_pd shop_table) shop_profiles
   \<and> clean_data ascii_text exact_pd shop_profiles shop_table = Inr (shop_cleaned, shop_insights)
   \<and> clean_data ascii_text exact_pd shop_profiles shop_cleaned
       = Inr (shop_cleaned, shop_insights)
   \<and> clean_columns ascii_text exact_pd shop_profiles (shop_cleaned, shop_insights)
       = Inr (shop_cleaned, shop_insights @ shop_insights)"
proof -
  have h1: "distinct (map fst shop_profiles)" by (simp add: shop_profiles_def)
  have h2: "list_all no_missing shop_profiles" by (simp add: shop_profiles_def no_missing_def)
  have h3: "outlier_column_free shop_profiles"
    by (simp add: outlier_column_free_def shop_profiles_def)
  have h4: "list_all (title_stable ascii_text exact_pd shop_table) shop_profiles"
    by (simp add: title_stable_def shop_profiles_def shop_table_def flagged_def normalized_def
        ascii_text_def ascii_strip_def ascii_space_def ascii_title_def ascii_alpha_def
        ascii_lower_char_def ascii_upper_char_def)
  show ?thesis
    using rerun_on_cleaned_table[OF h1 h2 h3 h4 shop_first_run] h1 h2 h3 h4 shop_first_run
    by (intro conjI) simp_all
qed

subsection \<open>The claim about the primary-key field\<close>

text \<open>
  C8. A column of three distinct identifiers stored as text, none missing:
  \<open>pd.to_numeric\<close> succeeds, the branch stores the profile and continues with the next
  column, and the profile has no \<open>potential_primary_key\<close> field, although
  \<open>unique_count\<close> equals the row count and \<open>missing_count\<close> is 0. The same identifiers
  stored as numbers get the field, with the value true.
\<close>

theorem coercible_column_lacks_primary_key:
  "profile_columns ascii_text exact_pd exact_infer [(''id'', ObjectDtype, id_text)] []
     = Inr [(''id'', id_text_profile)]
   \<and> potential_primary_key id_text_profile = None
   \<and> column_type id_text_profile = Some ''numerical''
   \<and> unique_count id_text_profile = length id_text
   \<and> missing_count id_text_profile = 0
   \<and> (\<exists>profile. profile_column ascii_text exact_pd exact_infer ''id'' NumericDtype id_numbers
          = Inr profile
        \<and> potential_primary_key profile = Some True)"
proof -
  have "profile_columns ascii_text exact_pd exact_infer [(''id'', ObjectDtype, id_text)] []
     = Inr [(''id'', id_text_profile)]"
    by (simp add: id_text_profiled)
  then show ?thesis
    using id_numbers_profiled by (simp add: id_text_profile_def id_text_def)
qed

end
